(* ===== verification/Float64.thy ===== *)
theory Float64
  imports Prelude
begin

text \<open>
  Rust's \<open>f64\<close>: IEEE 754 binary64 with round-to-nearest, ties to even.  A finite value is a sign, a
  mantissa below \<open>2^53\<close> and an exponent, standing for \<open>(-1)^s * m * 2^e\<close>; the smallest exponent is
  \<open>-1074\<close> (subnormals and both zeros live there) and the largest is \<open>971\<close>.  Every operation
  computes the exact rational result and rounds it once, so the definitions evaluate on integers.
  \<open>ln\<close>, \<open>exp\<close>, \<open>powf\<close> and \<open>cos\<close> have no specified precision in Rust's standard library: they are
  the fields of \<open>float_lib\<close>, a parameter of the definitions that use them.
\<close>

datatype f64 = FNaN | FInf bool | Fin bool nat int

record float_lib =
  fl_ln :: "f64 \<Rightarrow> f64"
  fl_exp :: "f64 \<Rightarrow> f64"
  fl_powf :: "f64 \<Rightarrow> f64 \<Rightarrow> f64"
  fl_cos :: "f64 \<Rightarrow> f64"

section \<open>Rounding a positive rational\<close>

fun nbits :: "nat \<Rightarrow> nat" where
  "nbits n = (if n = 0 then 0 else Suc (nbits (n div 2)))"

declare nbits.simps [simp del]

lemma nbits_numeral [simp]:
  "nbits 0 = 0" "nbits 1 = 1" "nbits (Suc 0) = 1" "nbits (numeral num.One) = 1"
  "nbits (numeral (num.Bit0 k)) = Suc (nbits (numeral k))"
  "nbits (numeral (num.Bit1 k)) = Suc (nbits (numeral k))"
  by (simp_all add: nbits.simps [of 0] nbits.simps [of "Suc 0"] nbits.simps [of 1] nbits.simps [of "numeral (num.Bit0 k)"]
      nbits.simps [of "numeral (num.Bit1 k)"])

definition rne_div :: "nat \<Rightarrow> nat \<Rightarrow> nat" where
  "rne_div n d =
     (let q = n div d; r = n mod d
      in if 2 * r < d \<or> (2 * r = d \<and> even q) then q else Suc q)"

definition scale_up :: "nat \<Rightarrow> int \<Rightarrow> nat" where
  "scale_up n e = (if 0 \<le> e then n * 2 ^ nat e else n)"

definition ilog2_ratio :: "nat \<Rightarrow> nat \<Rightarrow> int" where
  "ilog2_ratio n d =
     (let k = int (nbits n) - int (nbits d)
      in if scale_up d k \<le> scale_up n (- k) then k else k - 1)"

definition round_ratio :: "bool \<Rightarrow> nat \<Rightarrow> nat \<Rightarrow> f64" where
  "round_ratio s n d =
     (if n = 0 then Fin s 0 (-1074)
      else let e = max (-1074) (ilog2_ratio n d - 52);
               m = rne_div (scale_up n (- e)) (scale_up d e)
           in if m = 2 ^ 53
              then (if 971 < e + 1 then FInf s else Fin s (2 ^ 52) (e + 1))
              else (if 971 < e then FInf s else Fin s m e))"

definition round_scaled :: "bool \<Rightarrow> nat \<Rightarrow> int \<Rightarrow> f64" where
  "round_scaled s n e = round_ratio s (scale_up n e) (scale_up 1 (- e))"

section \<open>Constants and conversions\<close>

text \<open>A decimal literal \<open>n / d\<close> of the source, and the integer casts \<open>as f64\<close>.\<close>

definition f64_lit :: "nat \<Rightarrow> nat \<Rightarrow> f64" where
  "f64_lit n d = round_ratio False n d"

definition f64_of_nat :: "nat \<Rightarrow> f64" where
  "f64_of_nat n = round_ratio False n 1"

definition f64_of_u64 :: "u64 \<Rightarrow> f64" where
  "f64_of_u64 n = f64_of_nat (unat n)"

definition f64_of_u128 :: "u128 \<Rightarrow> f64" where
  "f64_of_u128 n = f64_of_nat (unat n)"

definition f64_zero :: f64 where
  "f64_zero = Fin False 0 (-1074)"

definition f64_one :: f64 where
  "f64_one = f64_of_nat 1"

text \<open>\<open>f64::EPSILON\<close> is \<open>2^-52\<close>.\<close>

definition f64_epsilon :: f64 where
  "f64_epsilon = Fin False (2 ^ 52) (-104)"

text \<open>\<open>f64::MIN_POSITIVE\<close>, the smallest normal number \<open>2^-1022\<close>.\<close>

definition f64_min_positive :: f64 where
  "f64_min_positive = Fin False (2 ^ 52) (-1074)"

fun f64_is_nan :: "f64 \<Rightarrow> bool" where
  "f64_is_nan FNaN = True"
| "f64_is_nan _ = False"

fun f64_is_finite :: "f64 \<Rightarrow> bool" where
  "f64_is_finite (Fin _ _ _) = True"
| "f64_is_finite _ = False"

text \<open>The magnitude of a finite value, truncated to an integer.\<close>

definition trunc_mag :: "nat \<Rightarrow> int \<Rightarrow> nat" where
  "trunc_mag m e = scale_up m e div scale_up 1 (- e)"

text \<open>The saturating cast \<open>as u64\<close>: NaN is 0, negatives are 0, large values are \<open>u64::MAX\<close>.\<close>

fun f64_to_u64 :: "f64 \<Rightarrow> u64" where
  "f64_to_u64 FNaN = 0"
| "f64_to_u64 (FInf s) = (if s then 0 else - 1)"
| "f64_to_u64 (Fin s m e) =
     (if s then 0 else if trunc_mag m e < 2 ^ 64 then of_nat (trunc_mag m e) else - 1)"

section \<open>Arithmetic\<close>

fun f64_neg :: "f64 \<Rightarrow> f64" where
  "f64_neg FNaN = FNaN"
| "f64_neg (FInf s) = FInf (\<not> s)"
| "f64_neg (Fin s m e) = Fin (\<not> s) m e"

definition signed_mag :: "bool \<Rightarrow> nat \<Rightarrow> int" where
  "signed_mag s n = (if s then - int n else int n)"

text \<open>A finite value as an integer multiple of \<open>2^e0\<close>, for \<open>e0\<close> at most its exponent.\<close>

definition aligned :: "bool \<Rightarrow> nat \<Rightarrow> int \<Rightarrow> int \<Rightarrow> int" where
  "aligned s m e e0 = signed_mag s (scale_up m (e - e0))"

fun f64_add :: "f64 \<Rightarrow> f64 \<Rightarrow> f64" where
  "f64_add FNaN _ = FNaN"
| "f64_add _ FNaN = FNaN"
| "f64_add (FInf s) (FInf t) = (if s = t then FInf s else FNaN)"
| "f64_add (FInf s) _ = FInf s"
| "f64_add _ (FInf t) = FInf t"
| "f64_add (Fin s m e) (Fin t n f) =
     (let e0 = min e f; a = aligned s m e e0 + aligned t n f e0
      in if a = 0 then Fin (s \<and> t) 0 (-1074) else round_scaled (a < 0) (nat \<bar>a\<bar>) e0)"

definition f64_sub :: "f64 \<Rightarrow> f64 \<Rightarrow> f64" where
  "f64_sub x y = f64_add x (f64_neg y)"

fun f64_mul :: "f64 \<Rightarrow> f64 \<Rightarrow> f64" where
  "f64_mul FNaN _ = FNaN"
| "f64_mul _ FNaN = FNaN"
| "f64_mul (FInf s) (FInf t) = FInf (s \<noteq> t)"
| "f64_mul (FInf s) (Fin t n _) = (if n = 0 then FNaN else FInf (s \<noteq> t))"
| "f64_mul (Fin s m _) (FInf t) = (if m = 0 then FNaN else FInf (s \<noteq> t))"
| "f64_mul (Fin s m e) (Fin t n f) = round_scaled (s \<noteq> t) (m * n) (e + f)"

fun f64_div :: "f64 \<Rightarrow> f64 \<Rightarrow> f64" where
  "f64_div FNaN _ = FNaN"
| "f64_div _ FNaN = FNaN"
| "f64_div (FInf _) (FInf _) = FNaN"
| "f64_div (FInf s) (Fin t _ _) = FInf (s \<noteq> t)"
| "f64_div (Fin s _ _) (FInf t) = Fin (s \<noteq> t) 0 (-1074)"
| "f64_div (Fin s m e) (Fin t n f) =
     (if n = 0 then (if m = 0 then FNaN else FInf (s \<noteq> t))
      else round_ratio (s \<noteq> t) (scale_up m (e - f)) (scale_up n (f - e)))"

definition f64_sum :: "f64 list \<Rightarrow> f64" where
  "f64_sum xs = foldl f64_add f64_zero xs"

fun f64_floor :: "f64 \<Rightarrow> f64" where
  "f64_floor FNaN = FNaN"
| "f64_floor (FInf s) = FInf s"
| "f64_floor (Fin s m e) =
     (let q = trunc_mag m e
      in if s \<and> scale_up m e mod scale_up 1 (- e) \<noteq> 0 then round_ratio s (Suc q) 1
         else round_ratio s q 1)"

fun f64_ceil :: "f64 \<Rightarrow> f64" where
  "f64_ceil x = f64_neg (f64_floor (f64_neg x))"

section \<open>Comparisons\<close>

fun f64_lt :: "f64 \<Rightarrow> f64 \<Rightarrow> bool" where
  "f64_lt FNaN _ = False"
| "f64_lt _ FNaN = False"
| "f64_lt (FInf s) (FInf t) = (s \<and> \<not> t)"
| "f64_lt (FInf s) (Fin _ _ _) = s"
| "f64_lt (Fin _ _ _) (FInf t) = (\<not> t)"
| "f64_lt (Fin s m e) (Fin t n f) =
     (aligned s m e (min e f) < aligned t n f (min e f))"

fun f64_eq :: "f64 \<Rightarrow> f64 \<Rightarrow> bool" where
  "f64_eq FNaN _ = False"
| "f64_eq _ FNaN = False"
| "f64_eq (FInf s) (FInf t) = (s = t)"
| "f64_eq (FInf s) (Fin _ _ _) = False"
| "f64_eq (Fin _ _ _) (FInf t) = False"
| "f64_eq (Fin s m e) (Fin t n f) =
     (aligned s m e (min e f) = aligned t n f (min e f))"

definition f64_le :: "f64 \<Rightarrow> f64 \<Rightarrow> bool" where
  "f64_le x y \<longleftrightarrow> f64_lt x y \<or> f64_eq x y"

text \<open>\<open>f64::max\<close> ignores a NaN; \<open>f64::clamp\<close> asserts \<open>min <= max\<close> and panics otherwise (\<open>None\<close>).\<close>

definition f64_max :: "f64 \<Rightarrow> f64 \<Rightarrow> f64" where
  "f64_max x y = (if f64_is_nan x then y else if f64_lt x y then y else x)"

definition f64_clamp :: "f64 \<Rightarrow> f64 \<Rightarrow> f64 \<Rightarrow> f64 option" where
  "f64_clamp x lo hi =
     (if f64_le lo hi
      then Some (let y = (if f64_lt x lo then lo else x) in if f64_lt hi y then hi else y)
      else None)"

text \<open>Evaluation of the operations on literals.\<close>

lemmas f64_eval =
  rne_div_def scale_up_def ilog2_ratio_def round_ratio_def round_scaled_def f64_lit_def f64_of_nat_def
  f64_of_u64_def f64_of_u128_def f64_zero_def f64_epsilon_def trunc_mag_def signed_mag_def aligned_def
  f64_sub_def f64_sum_def f64_le_def f64_max_def f64_clamp_def

end
