(* ===== verification/Float64_Error.thy ===== *)
theory Float64_Error
  imports Complex_Main Float64
begin

text \<open>
  The real-number meaning of the binary64 operations.  \<open>mag m e\<close> is the value \<open>m * 2^e\<close>; every
  rounding of a rational in the finite range is finite, within relative error \<open>2^-53\<close> when the
  result is normal, and exact on the multiples of the smallest subnormal below the normal range.
\<close>

definition mag :: "nat \<Rightarrow> int \<Rightarrow> real" where
  "mag m e = real m * 2 powr real_of_int e"

definition ulp_err :: real where
  "ulp_err = 1 / 2 ^ 53"

text \<open>A magnitude that certainly rounds to a finite value (the true limit is just below \<open>2^1024\<close>).\<close>

definition fin_range :: "real \<Rightarrow> bool" where
  "fin_range x \<longleftrightarrow> x < 2 powr 1023"

definition wf_fin :: "nat \<Rightarrow> int \<Rightarrow> bool" where
  "wf_fin m e \<longleftrightarrow> m < 2 ^ 53 \<and> - 1074 \<le> e \<and> e \<le> 971"

section \<open>Scaling and bit lengths\<close>

lemma scale_up_pos [simp]: "0 < scale_up n e \<longleftrightarrow> 0 < n"
  by (simp add: scale_up_def)

lemma scale_up_eq_0 [simp]: "scale_up n e = 0 \<longleftrightarrow> n = 0"
  by (simp add: scale_up_def)

lemma scale_up_0 [simp]: "scale_up 0 e = 0"
  by (simp add: scale_up_def)

lemma powr_nat_int: "0 \<le> e \<Longrightarrow> (2::real) powr real_of_int e = 2 ^ nat e"
  by (metis of_nat_nat powr_realpow zero_less_numeral of_int_of_nat_eq)

lemma powr_int_add: "(2::real) powr real_of_int a * 2 powr real_of_int b = 2 powr real_of_int (a + b)"
  by (simp add: powr_add)

lemma powr_int_shift:
  "f \<le> e \<Longrightarrow> (2::real) ^ nat (e - f) * 2 powr real_of_int f = 2 powr real_of_int e"
  using powr_int_add [of "e - f" f] powr_nat_int [of "e - f"] by (simp del: of_int_diff)

lemma scale_ratio:
  assumes "0 < d"
  shows "real (scale_up n e) / real (scale_up d (- e)) = real n / real d * 2 powr real_of_int e"
proof (cases "0 \<le> e")
  case True
  then show ?thesis
    by (auto simp: scale_up_def powr_nat_int)
next
  case False
  then have "2 powr real_of_int e = 1 / 2 ^ nat (- e)"
    using powr_nat_int [of "- e"] powr_minus_divide [of 2 "real_of_int (- e)"] by simp
  with False show ?thesis by (simp add: scale_up_def)
qed

lemma nbits_bounds: "0 < n \<Longrightarrow> 0 < nbits n \<and> 2 ^ (nbits n - 1) \<le> n \<and> n < 2 ^ nbits n"
proof (induction n rule: nbits.induct)
  case (1 n)
  show ?case
  proof (cases "n div 2 = 0")
    case True
    with "1.prems" have "n = 1" by simp
    then show ?thesis by (simp add: nbits.simps)
  next
    case False
    then have IH: "0 < nbits (n div 2)" "2 ^ (nbits (n div 2) - 1) \<le> n div 2"
      "n div 2 < 2 ^ nbits (n div 2)"
      using 1 by auto
    have "nbits n = Suc (nbits (n div 2))"
      using "1.prems" by (simp add: nbits.simps [of n])
    moreover have "2 ^ nbits (n div 2) = 2 * (2::nat) ^ (nbits (n div 2) - 1)"
      using IH(1) by (metis Suc_diff_1 power_Suc)
    ultimately show ?thesis using IH by (simp, arith)
  qed
qed

lemma nbits_powr:
  assumes "0 < n"
  shows "2 powr (real (nbits n) - 1) \<le> real n" and "real n < 2 powr real (nbits n)"
proof -
  note b = nbits_bounds [OF assms]
  have "2 powr (real (nbits n) - 1) = real (2 ^ (nbits n - 1))"
    using b by (simp add: of_nat_diff flip: powr_realpow)
  also have "\<dots> \<le> real n"
    using b by (simp only: of_nat_le_iff)
  finally show "2 powr (real (nbits n) - 1) \<le> real n" .
  have "real n < real (2 ^ nbits n)"
    using b by (simp only: of_nat_less_iff)
  then show "real n < 2 powr real (nbits n)"
    by (simp add: powr_realpow)
qed

lemma ilog2_ratio_bounds:
  assumes n: "0 < n" and d: "0 < d"
  shows "2 powr real_of_int (ilog2_ratio n d) \<le> real n / real d"
    and "real n / real d < 2 powr real_of_int (ilog2_ratio n d + 1)"
proof -
  define k where "k = int (nbits n) - int (nbits d)"
  define x where "x = real n / real d"
  note n1 = nbits_powr(1) [OF n] and n2 = nbits_powr(2) [OF n]
  note d1 = nbits_powr(1) [OF d] and d2 = nbits_powr(2) [OF d]
  have lo: "2 powr (real_of_int k - 1) < x"
  proof -
    have "2 powr (real_of_int k - 1) * real d < 2 powr (real_of_int k - 1) * 2 powr real (nbits d)"
      using d2 by simp
    also have "\<dots> = 2 powr (real (nbits n) - 1)"
      by (simp add: k_def flip: powr_add)
    also have "\<dots> \<le> real n" by (rule n1)
    finally show ?thesis using d by (simp add: x_def field_simps)
  qed
  have hi: "x < 2 powr (real_of_int k + 1)"
  proof -
    have "real n < 2 powr real (nbits n)" by (rule n2)
    also have "\<dots> = 2 powr (real_of_int k + 1) * 2 powr (real (nbits d) - 1)"
      by (simp add: k_def flip: powr_add)
    also have "\<dots> \<le> 2 powr (real_of_int k + 1) * real d"
      using d1 by simp
    finally show ?thesis using d by (simp add: x_def field_simps)
  qed
  have cmp: "scale_up d k \<le> scale_up n (- k) \<longleftrightarrow> 2 powr real_of_int k \<le> x"
  proof -
    have pos: "0 < real (scale_up n (- k))" using n by simp
    have "scale_up d k \<le> scale_up n (- k) \<longleftrightarrow> real (scale_up d k) / real (scale_up n (- k)) \<le> 1"
      using pos by (simp only: divide_le_eq_1_pos of_nat_le_iff)
    also have "\<dots> \<longleftrightarrow> real d / real n * 2 powr real_of_int k \<le> 1"
      by (simp only: scale_ratio [OF n])
    also have "\<dots> \<longleftrightarrow> 2 powr real_of_int k \<le> x"
      using n d by (simp add: x_def field_simps)
    finally show ?thesis .
  qed
  show "2 powr real_of_int (ilog2_ratio n d) \<le> real n / real d"
    using cmp lo by (auto simp: ilog2_ratio_def Let_def k_def [symmetric] x_def [symmetric])
  show "real n / real d < 2 powr real_of_int (ilog2_ratio n d + 1)"
    using cmp hi by (auto simp: ilog2_ratio_def Let_def k_def [symmetric] x_def [symmetric])
qed

section \<open>Rounding\<close>

lemma rne_div_err:
  assumes "0 < d"
  shows "\<bar>real (rne_div n d) - real n / real d\<bar> \<le> 1 / 2"
proof -
  define q r where "q = n div d" and "r = n mod d"
  have "real n = real (q * d + r)"
    unfolding q_def r_def by (simp only: div_mult_mod_eq)
  then have x: "real n / real d = real q + real r / real d"
    using assms by (simp add: field_simps)
  have "r < d" using assms by (simp add: r_def)
  show ?thesis
  proof (cases "2 * r < d \<or> (2 * r = d \<and> even q)")
    case True
    then have "real (2 * r) \<le> real d" by (simp only: of_nat_le_iff) auto
    then have "real r / real d \<le> 1 / 2" using assms by (simp add: field_simps)
    moreover have "rne_div n d = q"
      using True by (simp add: rne_div_def Let_def q_def [symmetric] r_def [symmetric])
    ultimately show ?thesis by (simp add: x)
  next
    case False
    then have "real d \<le> real (2 * r)" by (simp only: of_nat_le_iff) auto
    then have "1 / 2 \<le> real r / real d" using assms by (simp add: field_simps)
    moreover have "real r / real d < 1" using assms \<open>r < d\<close> by simp
    moreover have "rne_div n d = Suc q"
      using False by (auto simp: rne_div_def Let_def q_def [symmetric] r_def [symmetric])
    ultimately show ?thesis by (simp add: x)
  qed
qed

lemma rne_div_exact:
  assumes "0 < d" and "real n / real d = real q"
  shows "rne_div n d = q"
proof -
  have "\<bar>real (rne_div n d) - real q\<bar> \<le> 1 / 2"
    using rne_div_err [OF assms(1), of n] assms(2) by simp
  then show ?thesis by linarith
qed

lemma rne_div_le:
  assumes "0 < d" and "real n / real d < real b"
  shows "rne_div n d \<le> b"
proof -
  have "real (rne_div n d) < real b + 1"
    using rne_div_err [OF assms(1), of n] assms(2) by linarith
  then show ?thesis by linarith
qed

text \<open>The scaled quotient that \<open>round_ratio\<close> rounds, and its range.\<close>

definition round_exp :: "nat \<Rightarrow> nat \<Rightarrow> int" where
  "round_exp n d = max (-1074) (ilog2_ratio n d - 52)"

lemma round_quotient:
  assumes n: "0 < n" and d: "0 < d"
  defines "e \<equiv> round_exp n d"
  defines "t \<equiv> real (scale_up n (- e)) / real (scale_up d e)"
  shows "t = real n / real d * 2 powr - real_of_int e"
    and "t < 2 ^ 53"
    and "2 powr - 1022 \<le> real n / real d \<Longrightarrow> 2 ^ 52 \<le> t"
proof -
  let ?x = "real n / real d" and ?l = "ilog2_ratio n d"
  show t: "t = ?x * 2 powr - real_of_int e"
    using scale_ratio [OF d, of n "- e"] by (simp add: t_def)
  have "?x < 2 powr real_of_int (?l + 1)"
    by (rule ilog2_ratio_bounds [OF n d])
  also have "\<dots> \<le> 2 powr real_of_int (e + 53)"
    by (simp add: e_def round_exp_def)
  also have "\<dots> = 2 ^ 53 * 2 powr real_of_int e"
    by (simp add: powr_add mult.commute)
  finally have "?x * 2 powr - real_of_int e < 2 ^ 53 * 2 powr real_of_int e * 2 powr - real_of_int e"
    by (rule mult_strict_right_mono) simp
  also have "\<dots> = 2 ^ 53"
    by (simp add: mult.assoc flip: powr_add)
  finally show "t < 2 ^ 53"
    by (simp only: t)
  assume "2 powr - 1022 \<le> ?x"
  moreover have "?x < 2 powr real_of_int (?l + 1)"
    by (rule ilog2_ratio_bounds [OF n d])
  ultimately have "(2::real) powr - 1022 < 2 powr real_of_int (?l + 1)"
    by linarith
  then have "- 1022 < real_of_int (?l + 1)" by simp
  then have e: "e = ?l - 52" by (simp add: e_def round_exp_def)
  have "2 powr real_of_int ?l \<le> ?x"
    by (rule ilog2_ratio_bounds [OF n d])
  then have "2 powr real_of_int ?l * 2 powr - real_of_int e \<le> ?x * 2 powr - real_of_int e"
    by (rule mult_right_mono) simp
  then have "2 powr real_of_int ?l * 2 powr - real_of_int e \<le> t"
    by (simp only: t)
  moreover have "2 powr real_of_int ?l * 2 powr - real_of_int e = 2 powr real (52::nat)"
    by (simp add: e flip: powr_add)
  ultimately show "2 ^ 52 \<le> t"
    by (simp only: powr_realpow zero_less_numeral)
qed

lemma round_ratio_alt:
  assumes "0 < n"
  shows "round_ratio s n d =
     (let e = round_exp n d; m = rne_div (scale_up n (- e)) (scale_up d e)
      in if m = 2 ^ 53 then (if 971 < e + 1 then FInf s else Fin s (2 ^ 52) (e + 1))
         else (if 971 < e then FInf s else Fin s m e))"
  using assms by (simp add: round_ratio_def round_exp_def Let_def)

lemma round_ratio_zero [simp]: "round_ratio s 0 d = Fin s 0 (-1074)"
  by (simp add: round_ratio_def)

lemma mag_zero [simp]: "mag 0 e = 0"
  by (simp add: mag_def)

lemma mag_nonneg [simp]: "0 \<le> mag m e"
  by (simp add: mag_def)

lemma mag_52: "mag (2 ^ 52) (e + 1) = mag (2 ^ 53) e"
  by (simp add: mag_def powr_add)

text \<open>A rounding in the finite range is the rounded scaled quotient.\<close>

lemma round_ratio_mag:
  assumes n: "0 < n" and d: "0 < d" and fin: "fin_range (real n / real d)"
  shows "\<exists>m e. round_ratio s n d = Fin s m e \<and> wf_fin m e \<and>
     mag m e = mag (rne_div (scale_up n (- round_exp n d)) (scale_up d (round_exp n d)))
                   (round_exp n d)"
proof -
  define e r where "e = round_exp n d" and "r = rne_div (scale_up n (- e)) (scale_up d e)"
  have r: "r \<le> 2 ^ 53"
    unfolding r_def
    by (rule rne_div_le) (use d round_quotient(2) [OF n d] in \<open>simp_all add: e_def\<close>)
  have "2 powr real_of_int (ilog2_ratio n d) < 2 powr 1023"
    using ilog2_ratio_bounds(1) [OF n d] fin unfolding fin_range_def by (rule le_less_trans)
  then have "real_of_int (ilog2_ratio n d) < 1023"
    by (simp only: powr_less_cancel_iff one_less_numeral_iff semiring_norm)
  then have e: "- 1074 \<le> e" "e \<le> 970" by (simp_all add: e_def round_exp_def)
  show ?thesis
  proof (cases "r = 2 ^ 53")
    case True
    then have "round_ratio s n d = Fin s (2 ^ 52) (e + 1)"
      using e by (simp add: round_ratio_alt [OF n] Let_def e_def [symmetric] r_def [symmetric])
    moreover have "wf_fin (2 ^ 52) (e + 1)" using e by (simp add: wf_fin_def)
    moreover have "mag (2 ^ 52) (e + 1) = mag r e" by (simp only: True mag_52)
    ultimately show ?thesis unfolding r_def e_def by blast
  next
    case False
    then have "round_ratio s n d = Fin s r e"
      using e by (simp add: round_ratio_alt [OF n] Let_def e_def [symmetric] r_def [symmetric])
    moreover have "wf_fin r e" using e r False by (simp add: wf_fin_def)
    ultimately show ?thesis unfolding r_def e_def by blast
  qed
qed

text \<open>The ratios that no rounding can flush: normal ones, and the subnormal grid.\<close>

definition on_grid :: "real \<Rightarrow> bool" where
  "on_grid x \<longleftrightarrow> 2 powr - 1022 \<le> x \<or> (\<exists>j::nat. x = real j * 2 powr - 1074)"

lemma round_ratio_rel:
  assumes d: "0 < d" and fin: "fin_range (real n / real d)" and grid: "on_grid (real n / real d)"
  shows "\<exists>m e. round_ratio s n d = Fin s m e \<and> wf_fin m e \<and>
     \<bar>mag m e - real n / real d\<bar> \<le> real n / real d * ulp_err"
proof (cases "n = 0")
  case True
  then show ?thesis by (simp add: wf_fin_def)
next
  case False
  then have n: "0 < n" by simp
  define x e where "x = real n / real d" and "e = round_exp n d"
  define t r where "t = real (scale_up n (- e)) / real (scale_up d e)"
    and "r = rne_div (scale_up n (- e)) (scale_up d e)"
  have t: "t = x * 2 powr - real_of_int e"
    using round_quotient(1) [OF n d] by (simp add: t_def x_def e_def)
  then have x: "x = t * 2 powr real_of_int e"
    by (simp add: mult.assoc flip: powr_add)
  have "\<bar>mag r e - x\<bar> \<le> x * ulp_err"
  proof (cases "2 powr - 1022 \<le> x")
    case True
    then have "2 ^ 52 \<le> t"
      using round_quotient(3) [OF n d] by (simp add: t_def x_def e_def)
    moreover have "\<bar>real r - t\<bar> \<le> 1 / 2"
      unfolding r_def t_def by (rule rne_div_err) (use d in simp)
    ultimately have "\<bar>real r - t\<bar> \<le> t * ulp_err"
      by (simp add: ulp_err_def)
    then have "\<bar>real r - t\<bar> * 2 powr real_of_int e \<le> t * ulp_err * 2 powr real_of_int e"
      by (rule mult_right_mono) simp
    moreover have "\<bar>mag r e - x\<bar> = \<bar>real r - t\<bar> * 2 powr real_of_int e"
      by (simp add: mag_def x abs_mult flip: left_diff_distrib)
    ultimately show ?thesis by (simp only: x mult_ac)
  next
    case False
    with grid obtain j :: nat where j: "x = real j * 2 powr - 1074"
      by (auto simp: on_grid_def x_def)
    have "2 powr real_of_int (ilog2_ratio n d) < 2 powr - 1022"
      using ilog2_ratio_bounds(1) [OF n d] False unfolding x_def by linarith
    then have "real_of_int (ilog2_ratio n d) < - 1022"
      by (simp only: powr_less_cancel_iff one_less_numeral_iff semiring_norm)
    then have "e = - 1074" by (simp add: e_def round_exp_def)
    have "t = real j * (2 powr real_of_int (- 1074) * 2 powr real_of_int (- e))"
      by (simp add: t j)
    then have "t = real j"
      unfolding powr_int_add \<open>e = - 1074\<close> by simp
    then have "r = j"
      unfolding r_def by (intro rne_div_exact) (use d in \<open>simp_all add: t_def\<close>)
    then have "mag r e = x" using \<open>e = - 1074\<close> by (simp add: mag_def j)
    then show ?thesis using n by (simp add: x_def ulp_err_def)
  qed
  then show ?thesis
    using round_ratio_mag [OF n d fin, of s] by (auto simp: r_def e_def x_def)
qed

text \<open>Representable values are fixed points of rounding.\<close>

lemma round_ratio_exact:
  assumes d: "0 < d" and wf: "wf_fin m e" and x: "real n / real d = mag m e"
    and fin: "fin_range (mag m e)"
  shows "\<exists>m' e'. round_ratio s n d = Fin s m' e' \<and> wf_fin m' e' \<and> mag m' e' = mag m e"
proof (cases "n = 0")
  case True
  with x show ?thesis by (simp add: wf_fin_def)
next
  case False
  then have n: "0 < n" by simp
  define f where "f = round_exp n d"
  have "2 powr real_of_int (ilog2_ratio n d) \<le> mag m e"
    using ilog2_ratio_bounds(1) [OF n d] x by simp
  also have "mag m e < 2 ^ 53 * 2 powr real_of_int e"
  proof -
    have "real m < real (2 ^ 53)" using wf unfolding wf_fin_def by (simp only: of_nat_less_iff)
    then show ?thesis unfolding mag_def by (intro mult_strict_right_mono) simp_all
  qed
  also have "\<dots> = 2 powr real_of_int (53 + e)"
    by (simp add: powr_add)
  finally have "real_of_int (ilog2_ratio n d) < real_of_int (53 + e)"
    by (simp only: powr_less_cancel_iff one_less_numeral_iff semiring_norm)
  then have fe: "f \<le> e" using wf by (simp add: f_def round_exp_def wf_fin_def)
  have "real (scale_up n (- f)) / real (scale_up d f) = mag m e * 2 powr real_of_int (- f)"
    using round_quotient(1) [OF n d] by (simp add: f_def x)
  also have "\<dots> = real m * 2 powr real_of_int (e - f)"
    by (simp only: mag_def mult.assoc powr_int_add) simp
  also have "\<dots> = real (m * 2 ^ nat (e - f))"
    using fe by (simp add: powr_nat_int del: of_int_diff)
  finally have "rne_div (scale_up n (- f)) (scale_up d f) = m * 2 ^ nat (e - f)"
    by (intro rne_div_exact) (use d in simp)
  then have "mag (rne_div (scale_up n (- f)) (scale_up d f)) f = mag (m * 2 ^ nat (e - f)) f"
    by simp
  also have "\<dots> = mag m e"
    using fe by (simp add: mag_def mult.assoc powr_int_shift)
  finally show ?thesis
    using round_ratio_mag [OF n d, of s] fin x by (auto simp: f_def)
qed

section \<open>Non-negative finite values\<close>

definition fval :: "f64 \<Rightarrow> real" where
  "fval x = (case x of Fin s m e \<Rightarrow> (if s then - mag m e else mag m e) | _ \<Rightarrow> 0)"

definition nn_fin :: "f64 \<Rightarrow> bool" where
  "nn_fin x \<longleftrightarrow> (\<exists>m e. x = Fin False m e \<and> wf_fin m e)"

lemma fval_Fin [simp]: "fval (Fin False m e) = mag m e"
  by (simp add: fval_def)

lemma nn_fin_nonneg: "nn_fin x \<Longrightarrow> 0 \<le> fval x"
  by (auto simp: nn_fin_def)

lemma nn_fin_not_nan: "nn_fin x \<Longrightarrow> \<not> f64_is_nan x"
  by (auto simp: nn_fin_def)

lemma nn_finI: "wf_fin m e \<Longrightarrow> nn_fin (Fin False m e)"
  by (auto simp: nn_fin_def)

lemma nn_fin_zero [simp]: "nn_fin f64_zero" "fval f64_zero = 0"
  by (simp_all add: f64_zero_def nn_fin_def wf_fin_def)

lemma grid_mag: "- 1074 \<le> e \<Longrightarrow> on_grid (mag m e)"
proof -
  assume "- 1074 \<le> e"
  then have "mag m e = real m * (2 ^ nat (e - (- 1074)) * 2 powr real_of_int (- 1074))"
    by (simp only: mag_def powr_int_shift)
  also have "\<dots> = real (m * 2 ^ nat (e - (- 1074))) * 2 powr - 1074"
    by (simp only: of_nat_mult of_nat_power of_nat_numeral mult.assoc of_int_minus of_int_numeral)
  finally have "mag m e = real (m * 2 ^ nat (e - (- 1074))) * 2 powr - 1074" .
  then show ?thesis unfolding on_grid_def by blast
qed

lemma scaled_ratio_mag: "real (scale_up n e) / real (scale_up 1 (- e)) = mag n e"
  using scale_ratio [of 1 n e] by (simp add: mag_def)

lemma round_scaled_rel:
  assumes "fin_range (mag n e)" and "on_grid (mag n e)"
  shows "\<exists>m f. round_scaled s n e = Fin s m f \<and> wf_fin m f \<and>
     \<bar>mag m f - mag n e\<bar> \<le> mag n e * ulp_err"
  using round_ratio_rel [of "scale_up 1 (- e)" "scale_up n e" s] assms
  unfolding round_scaled_def scaled_ratio_mag by simp

lemma mag_mult: "mag m e * mag n f = mag (m * n) (e + f)"
  by (simp add: mag_def powr_add)

lemma f64_mul_nn:
  assumes x: "nn_fin x" and y: "nn_fin y"
    and fin: "fin_range (fval x * fval y)" and grid: "on_grid (fval x * fval y)"
  shows "nn_fin (f64_mul x y) \<and>
    \<bar>fval (f64_mul x y) - fval x * fval y\<bar> \<le> fval x * fval y * ulp_err"
proof -
  from x y obtain m e n f where xy: "x = Fin False m e" "y = Fin False n f"
    by (auto simp: nn_fin_def)
  show ?thesis
    using round_scaled_rel [of "m * n" "e + f" False] fin grid
    by (auto simp: xy mag_mult intro: nn_finI)
qed

lemma aligned_mag:
  assumes "e0 \<le> e"
  shows "mag (nat \<bar>aligned False m e e0\<bar>) e0 = mag m e" and "0 \<le> aligned False m e e0"
  using assms
  by (simp_all add: aligned_def signed_mag_def scale_up_def mag_def mult.assoc powr_int_shift)

lemma f64_add_nn:
  assumes x: "nn_fin x" and y: "nn_fin y" and fin: "fin_range (fval x + fval y)"
  shows "nn_fin (f64_add x y) \<and>
    \<bar>fval (f64_add x y) - (fval x + fval y)\<bar> \<le> (fval x + fval y) * ulp_err"
proof -
  from x y obtain m e n f where xy: "x = Fin False m e" "y = Fin False n f"
    and wf: "wf_fin m e" "wf_fin n f" by (auto simp: nn_fin_def)
  define e0 where "e0 = min e f"
  define a where "a = aligned False m e e0 + aligned False n f e0"
  have a0: "0 \<le> a" using aligned_mag(2) [of e0 e m] aligned_mag(2) [of e0 f n]
    by (simp add: a_def e0_def)
  have "mag (nat \<bar>a\<bar>) e0 = mag (nat \<bar>aligned False m e e0\<bar>) e0 + mag (nat \<bar>aligned False n f e0\<bar>) e0"
    using aligned_mag(2) [of e0 e m] aligned_mag(2) [of e0 f n]
    by (simp add: a_def e0_def mag_def distrib_right)
  then have sum: "mag (nat \<bar>a\<bar>) e0 = mag m e + mag n f"
    using aligned_mag(1) [of e0 e m] aligned_mag(1) [of e0 f n] by (simp add: e0_def)
  have grid: "on_grid (mag (nat \<bar>a\<bar>) e0)"
    using wf by (intro grid_mag) (simp add: e0_def wf_fin_def)
  show ?thesis
  proof (cases "a = 0")
    case True
    then have "mag m e + mag n f = 0" using sum by simp
    then show ?thesis using True
      by (simp add: xy Let_def a_def e0_def nn_fin_def wf_fin_def)
  next
    case False
    then have "f64_add x y = round_scaled False (nat \<bar>a\<bar>) e0"
      using a0 by (simp add: xy Let_def a_def e0_def)
    moreover have "fin_range (mag (nat \<bar>a\<bar>) e0)" using fin by (simp add: xy sum)
    ultimately show ?thesis
      using round_scaled_rel [OF _ grid, of False] sum by (auto simp: xy intro: nn_finI)
  qed
qed

text \<open>Division: within relative error when the quotient is normal, and below 1 otherwise.\<close>

lemma f64_div_nn:
  assumes x: "nn_fin x" and y: "nn_fin y" and pos: "0 < fval y"
    and fin: "fin_range (fval x / fval y)"
  shows "nn_fin (f64_div x y) \<and>
    (fval (f64_div x y) < 1 \<or> fval (f64_div x y) \<le> fval x / fval y * (1 + ulp_err))"
proof -
  from x y obtain m e n f where xy: "x = Fin False m e" "y = Fin False n f"
    by (auto simp: nn_fin_def)
  have n: "0 < n" using pos by (auto simp: xy mag_def zero_less_mult_iff)
  define N D where "N = scale_up m (e - f)" and "D = scale_up n (f - e)"
  have D: "0 < D" using n by (simp add: D_def)
  have q: "real N / real D = fval x / fval y"
    using scale_ratio [OF n, of m "e - f"]
    by (simp add: N_def D_def xy mag_def powr_diff)
  have div: "f64_div x y = round_ratio False N D"
    using n by (simp add: xy N_def D_def)
  have fin': "fin_range (real N / real D)" using fin by (simp only: q)
  show ?thesis
  proof (cases "2 powr - 1022 \<le> real N / real D")
    case True
    then obtain k g where "f64_div x y = Fin False k g" "wf_fin k g"
      "\<bar>mag k g - real N / real D\<bar> \<le> real N / real D * ulp_err"
      using round_ratio_rel [OF D fin', of False] by (auto simp: on_grid_def div)
    moreover from this have "mag k g \<le> real N / real D * (1 + ulp_err)"
      unfolding distrib_left mult_1_right by linarith
    ultimately show ?thesis by (simp add: nn_finI q)
  next
    case False
    then show ?thesis
    proof (cases "N = 0")
      case True
      then show ?thesis by (simp add: div nn_fin_def wf_fin_def)
    next
      case False
      define h where "h = round_exp N D"
      have N: "0 < N" using False by simp
      have "2 powr real_of_int (ilog2_ratio N D) < 2 powr - 1022"
        using ilog2_ratio_bounds(1) [OF N D] \<open>\<not> 2 powr - 1022 \<le> real N / real D\<close> by linarith
      then have "real_of_int (ilog2_ratio N D) < - 1022"
        by (simp only: powr_less_cancel_iff one_less_numeral_iff semiring_norm)
      then have h: "h = - 1074" by (simp add: h_def round_exp_def)
      obtain k g where kg: "f64_div x y = Fin False k g" "wf_fin k g"
        "mag k g = mag (rne_div (scale_up N (- h)) (scale_up D h)) h"
        using round_ratio_mag [OF N D fin', of False] unfolding h_def div by blast
      have "rne_div (scale_up N (- h)) (scale_up D h) \<le> 2 ^ 53"
        using round_quotient(2) [OF N D] D by (intro rne_div_le) (simp_all add: h_def)
      then have "real (rne_div (scale_up N (- h)) (scale_up D h)) \<le> real (2 ^ 53)"
        by (simp only: of_nat_le_iff)
      then have "mag k g \<le> real (2 ^ 53) * 2 powr real_of_int (- 1074)"
        unfolding kg(3) unfolding mag_def h by (rule mult_right_mono) simp
      also have "\<dots> = 2 powr real_of_int 53 * 2 powr real_of_int (- 1074)"
        by (simp add: powr_nat_int)
      also have "\<dots> = 2 powr real_of_int (- 1021)"
        by (simp only: powr_int_add) simp
      also have "\<dots> < 2 powr 0"
        by (rule powr_less_mono) simp_all
      finally have "mag k g < 1" by simp
      then show ?thesis by (simp add: kg(1) nn_finI kg(2))
    qed
  qed
qed

lemma trunc_mag_floor: "trunc_mag m e = nat \<lfloor>mag m e\<rfloor>"
proof -
  have "\<lfloor>mag m e\<rfloor> = int (trunc_mag m e)"
    unfolding trunc_mag_def scaled_ratio_mag [symmetric] by (rule floor_divide_of_nat_eq)
  then show ?thesis by simp
qed

lemma mag_floor_repr:
  assumes "wf_fin m e"
  shows "\<exists>k g. wf_fin k g \<and> mag k g = real (trunc_mag m e)"
proof (cases "0 \<le> e")
  case True
  then have "mag m e = real (trunc_mag m e)"
    by (simp add: trunc_mag_def scale_up_def mag_def powr_nat_int)
  with assms show ?thesis by blast
next
  case False
  have "trunc_mag m e \<le> m"
    by (simp add: trunc_mag_def scale_up_def False)
  then have "wf_fin (trunc_mag m e) 0" using assms by (simp add: wf_fin_def)
  moreover have "mag (trunc_mag m e) 0 = real (trunc_mag m e)" by (simp add: mag_def)
  ultimately show ?thesis by blast
qed

lemma f64_floor_nn:
  assumes "nn_fin x" and "fin_range (fval x)"
  shows "nn_fin (f64_floor x) \<and> fval (f64_floor x) = real_of_int \<lfloor>fval x\<rfloor>"
proof -
  from assms(1) obtain m e where x: "x = Fin False m e" "wf_fin m e" by (auto simp: nn_fin_def)
  obtain k g where kg: "wf_fin k g" "mag k g = real (trunc_mag m e)"
    using mag_floor_repr [OF x(2)] by blast
  have fl: "real (trunc_mag m e) = real_of_int \<lfloor>mag m e\<rfloor>"
    by (simp add: trunc_mag_floor)
  have "fin_range (mag k g)"
    using assms(2) of_int_floor_le [of "mag m e"] unfolding fin_range_def kg(2) fl x(1) fval_Fin
    by linarith
  then obtain m' e' where "round_ratio False (trunc_mag m e) 1 = Fin False m' e'" "wf_fin m' e'"
    "mag m' e' = mag k g"
    using round_ratio_exact [of 1 k g "trunc_mag m e" False] kg by auto
  then show ?thesis using kg(2) fl by (simp add: x(1) Let_def nn_finI)
qed

lemma f64_to_u64_nn:
  assumes "nn_fin x" and "fval x < 2 ^ 64"
  shows "unat (f64_to_u64 x) = nat \<lfloor>fval x\<rfloor>"
proof -
  from assms(1) obtain m e where x: "x = Fin False m e" by (auto simp: nn_fin_def)
  have "\<lfloor>mag m e\<rfloor> < 2 ^ 64"
    using assms(2) unfolding x fval_Fin by (simp add: floor_less_iff)
  then have lt: "trunc_mag m e < 2 ^ 64"
    unfolding trunc_mag_floor by (simp add: nat_less_iff)
  then have "unat (of_nat (trunc_mag m e) :: u64) = trunc_mag m e"
    by (simp add: unsigned_of_nat take_bit_nat_eq_self)
  with lt show ?thesis by (simp add: x flip: trunc_mag_floor)
qed

lemma pow_fin_range:
  assumes "x < 2 ^ k" and "k \<le> 1023"
  shows "fin_range x"
proof -
  have "(2::real) ^ k = 2 powr real k" by (simp add: powr_realpow)
  also have "\<dots> \<le> 2 powr 1023" using assms(2) by (intro powr_mono) simp_all
  finally show ?thesis using assms(1) unfolding fin_range_def by linarith
qed

lemma f64_floor_u64_le:
  assumes "nn_fin x" and "fval x < 2 ^ 64"
  shows "real (unat (f64_to_u64 (f64_floor x))) \<le> fval x"
proof -
  have "fin_range (fval x)" using assms(2) by (rule pow_fin_range) simp
  then have f: "nn_fin (f64_floor x)" "fval (f64_floor x) = real_of_int \<lfloor>fval x\<rfloor>"
    using f64_floor_nn [OF assms(1)] by auto
  then have "fval (f64_floor x) < 2 ^ 64"
    using assms(2) of_int_floor_le [of "fval x"] by linarith
  then have "unat (f64_to_u64 (f64_floor x)) = nat \<lfloor>fval x\<rfloor>"
    using f64_to_u64_nn [OF f(1)] by (simp add: f(2))
  then show ?thesis
    using nn_fin_nonneg [OF assms(1)] by simp
qed

lemma f64_of_nat_exact:
  assumes "n < 2 ^ 53"
  shows "nn_fin (f64_of_nat n) \<and> fval (f64_of_nat n) = real n"
proof -
  have wf: "wf_fin n 0" using assms by (simp add: wf_fin_def)
  have v: "mag n 0 = real n" by (simp add: mag_def)
  have "real n < real (2 ^ 53)" using assms by (simp only: of_nat_less_iff)
  then have "real n < 2 ^ 53" by (simp only: of_nat_power of_nat_numeral)
  then have "fin_range (mag n 0)" unfolding v by (rule pow_fin_range) simp
  then show ?thesis
    using round_ratio_exact [of 1 n 0 n False] wf by (auto simp: f64_of_nat_def v nn_finI)
qed

lemma f64_zero_lt:
  assumes "nn_fin x"
  shows "f64_lt f64_zero x \<longleftrightarrow> 0 < fval x"
proof -
  from assms obtain m e where x: "x = Fin False m e"
    by (auto simp: nn_fin_def)
  show ?thesis
    by (simp add: x f64_zero_def aligned_def signed_mag_def mag_def zero_less_mult_iff)
qed

end
