(* ===== verification/Types.thy ===== *)
theory Types
  imports Float64
begin

text \<open>
  The data of \<open>crates/aggora-types/src/lib.rs\<close>: wire types, ledger records, parameters and their
  defaults.  A struct is a record whose field selectors carry a short prefix, an enum is a datatype
  with the source's constructors.  A \<open>BTreeSet\<close> is a set, an \<open>Option\<close> an option, and the
  \<open>serde_json::Value\<close> carried in metadata fields is kept as its JSON text, since no code reads it.
\<close>

type_synonym wallet_id = bytes
type_synonym operator_id = bytes
type_synonym validator_id = bytes
type_synonym public_key = bytes
type_synonym signature = bytes
type_synonym hash = bytes
type_synonym micro_agc = u64
type_synonym tick = u64
type_synonym iteration_id = u64
type_synonym nonce = u64
type_synonym timestamp = i64
type_synonym json_text = bytes

definition MICRO_AGC_PER_AGC :: micro_agc where
  "MICRO_AGC_PER_AGC = 1000000"

section \<open>Operators and validators\<close>

datatype operator_role = Genesis | Standard

datatype operator_action = Add | Revoke

record operator =
  op_id :: operator_id
  op_pubkey :: public_key
  op_role :: operator_role
  op_authorized_at :: tick
  op_authorized_by :: operator_id
  op_revoked_at :: "tick option"
  op_metadata :: bytes

definition operator_active :: "operator \<Rightarrow> bool" where
  "operator_active op \<longleftrightarrow> op_revoked_at op = None"

record validator =
  val_id :: validator_id
  val_pubkey :: public_key
  val_endpoint :: bytes
  val_is_genesis :: bool
  val_registered_at :: tick
  val_active :: bool
  val_last_seen_tick :: tick

section \<open>Wallets\<close>

record wallet =
  w_id :: wallet_id
  w_pubkey :: public_key
  w_balance :: micro_agc
  w_nonce :: nonce
  w_created_at_tick :: tick
  w_created_at_iteration :: iteration_id
  w_created_by_operator :: operator_id
  w_iteration_tx_count :: u32
  w_iteration_counterparties :: "wallet_id set"
  w_last_active_iteration :: iteration_id
  w_activity_score :: f64

section \<open>Transactions\<close>

record mint_tx =
  mt_tx_id :: hash
  mt_to :: wallet_id
  mt_amount :: micro_agc
  mt_eur_amount :: u64
  mt_operator_id :: operator_id
  mt_nonce :: u64
  mt_timestamp :: timestamp
  mt_operator_sig :: signature
  mt_category :: bytes

record transfer_tx =
  tt_tx_id :: hash
  tt_from :: wallet_id
  tt_to :: wallet_id
  tt_amount :: micro_agc
  tt_nonce :: nonce
  tt_timestamp :: timestamp
  tt_sender_pubkey :: public_key
  tt_user_sig :: signature

record burn_tx =
  bt_tx_id :: hash
  bt_from :: wallet_id
  bt_amount :: micro_agc
  bt_nonce :: nonce
  bt_timestamp :: timestamp
  bt_sender_pubkey :: public_key
  bt_user_sig :: signature

record iteration_commit =
  ic_tx_id :: hash
  ic_iteration_id :: iteration_id
  ic_triggered_at_tick :: tick
  ic_snapshot_supply :: micro_agc
  ic_snapshot_n_wallets :: u64
  ic_snapshot_gini :: f64
  ic_inflation :: f64
  ic_burn_rate :: f64
  ic_penalties :: "(wallet_id \<times> micro_agc) list"
  ic_rewards :: "(wallet_id \<times> micro_agc) list"
  ic_burned :: micro_agc
  ic_faucet_from_penalty :: micro_agc
  ic_faucet_from_mint :: micro_agc
  ic_new_wallets :: "wallet_id list"
  ic_post_supply :: micro_agc
  ic_validator_sigs :: "(validator_id \<times> signature) list"

record operator_change_tx =
  oc_tx_id :: hash
  oc_action :: operator_action
  oc_target_pubkey :: public_key
  oc_timestamp :: timestamp
  oc_authorizing_op :: operator_id
  oc_operator_sig :: signature

datatype transaction =
    Mint mint_tx
  | Transfer transfer_tx
  | Burn burn_tx
  | IterationCommit iteration_commit
  | OperatorChange operator_change_tx

fun tx_id :: "transaction \<Rightarrow> hash" where
  "tx_id (Mint tx) = mt_tx_id tx"
| "tx_id (Transfer tx) = tt_tx_id tx"
| "tx_id (Burn tx) = bt_tx_id tx"
| "tx_id (IterationCommit tx) = ic_tx_id tx"
| "tx_id (OperatorChange tx) = oc_tx_id tx"

fun wallet_ids :: "transaction \<Rightarrow> wallet_id list" where
  "wallet_ids (Mint tx) = [mt_to tx]"
| "wallet_ids (Transfer tx) = [tt_from tx, tt_to tx]"
| "wallet_ids (Burn tx) = [bt_from tx]"
| "wallet_ids (IterationCommit tx) =
     map fst (ic_penalties tx) @ map fst (ic_rewards tx) @ ic_new_wallets tx"
| "wallet_ids (OperatorChange tx) = []"

record poh_entry =
  pe_tick :: tick
  pe_prev_hash :: hash
  pe_hash :: hash
  pe_tx_root :: hash
  pe_tx_ids :: "hash list"
  pe_leader_id :: validator_id
  pe_leader_sig :: signature
  pe_wall_clock :: timestamp

section \<open>System state\<close>

record system_state =
  ss_current_tick :: tick
  ss_current_iteration :: iteration_id
  ss_iteration_started_at :: tick
  ss_total_supply :: micro_agc
  ss_n_wallets :: u64
  ss_n_active_wallets :: u64
  ss_last_poh_hash :: hash
  ss_previous_iteration_supply :: micro_agc
  ss_previous_iteration_start_supply :: micro_agc
  ss_last_inflation :: f64
  ss_last_gini :: f64
  ss_iteration_lock :: bool

definition default_system_state :: system_state where
  "default_system_state =
     \<lparr>ss_current_tick = 0, ss_current_iteration = 0, ss_iteration_started_at = 0,
      ss_total_supply = 0, ss_n_wallets = 0, ss_n_active_wallets = 0,
      ss_last_poh_hash = concat (replicate 32 ''00''),
      ss_previous_iteration_supply = 0, ss_previous_iteration_start_supply = 0,
      ss_last_inflation = f64_zero, ss_last_gini = f64_zero, ss_iteration_lock = False\<rparr>"

section \<open>Parameters\<close>

datatype residual_policy = BurnResidual | GenesisWallet

record economy_parameters =
  ep_initial_seed_agc :: u64
  ep_penalty_rate :: f64
  ep_target_penalty_share_of_supply :: f64
  ep_burn_base :: f64
  ep_burn_sensitivity :: f64
  ep_burn_min :: f64
  ep_burn_max :: f64
  ep_target_inflation_per_iter :: f64
  ep_faucet_share_of_penalty :: f64
  ep_redistribution_active_min :: f64
  ep_redistribution_active_max :: f64
  ep_activity_ema_lambda :: f64
  ep_activity_min_tx_count :: u32
  ep_activity_min_counterparties :: u32
  ep_inverse_balance_weight :: f64
  ep_residual_policy :: residual_policy

definition default_economy :: economy_parameters where
  "default_economy =
     \<lparr>ep_initial_seed_agc = 10, ep_penalty_rate = f64_lit 5 100,
      ep_target_penalty_share_of_supply = f64_lit 5 100,
      ep_burn_base = f64_lit 10 100, ep_burn_sensitivity = f64_lit 5 10,
      ep_burn_min = f64_zero, ep_burn_max = f64_lit 9 10,
      ep_target_inflation_per_iter = f64_lit 2 100,
      ep_faucet_share_of_penalty = f64_lit 20 100,
      ep_redistribution_active_min = f64_lit 5 10,
      ep_redistribution_active_max = f64_lit 15 10,
      ep_activity_ema_lambda = f64_lit 5 10,
      ep_activity_min_tx_count = 1, ep_activity_min_counterparties = 1,
      ep_inverse_balance_weight = f64_lit 5 10,
      ep_residual_policy = BurnResidual\<rparr>"

record growth_parameters =
  gp_growth_factor_per_iteration :: f64
  gp_max_new_wallets_per_iter :: u64
  gp_charge_eur_to_agc_ratio :: f64

definition default_growth :: growth_parameters where
  "default_growth =
     \<lparr>gp_growth_factor_per_iteration = f64_lit 5 100, gp_max_new_wallets_per_iter = 1000,
      gp_charge_eur_to_agc_ratio = f64_one\<rparr>"

record consensus_parameters =
  cp_n_validators :: u64
  cp_poh_tick_ms :: u64
  cp_ticks_per_slot :: u64
  cp_max_txs_per_tick :: u64
  cp_leader_rotation :: bytes

definition default_consensus :: consensus_parameters where
  "default_consensus =
     \<lparr>cp_n_validators = 1, cp_poh_tick_ms = 400, cp_ticks_per_slot = 64,
      cp_max_txs_per_tick = 256, cp_leader_rotation = ''round_robin''\<rparr>"

record iteration_parameters =
  ip_iterations_per_year :: u64
  ip_ticks_per_iteration :: u64

definition default_iteration :: iteration_parameters where
  "default_iteration = \<lparr>ip_iterations_per_year = 12, ip_ticks_per_iteration = 6566400\<rparr>"

record storage_parameters =
  st_db_path :: bytes
  st_snapshot_path :: bytes
  st_snapshot_per_iteration :: bool
  st_seed_path :: bytes

definition default_storage :: storage_parameters where
  "default_storage =
     \<lparr>st_db_path = ''./data/agc.sled'', st_snapshot_path = ''./snapshots'',
      st_snapshot_per_iteration = True, st_seed_path = ''./seeds''\<rparr>"

record security_parameters =
  sp_operator_pubkey_env :: bytes
  sp_operator_secret_env :: bytes
  sp_require_captcha_proof :: bool
  sp_rate_limit_wallet_per_ip_per_day :: u64
  sp_rate_limit_tx_per_wallet_per_minute :: u64
  sp_timestamp_drift_ms :: i64
  sp_dev_auth_bypass :: bool

definition default_security :: security_parameters where
  "default_security =
     \<lparr>sp_operator_pubkey_env = ''AGORA_OPERATOR_PUBKEY'',
      sp_operator_secret_env = ''AGORA_OPERATOR_SECRET'',
      sp_require_captcha_proof = True, sp_rate_limit_wallet_per_ip_per_day = 5,
      sp_rate_limit_tx_per_wallet_per_minute = 60, sp_timestamp_drift_ms = 60000,
      sp_dev_auth_bypass = False\<rparr>"

record simulation_parameters =
  mp_enabled :: bool
  mp_speed_factor :: u64
  mp_seed_file :: bytes
  mp_auto_generate_users :: bool
  mp_users_per_iteration_mean :: f64
  mp_users_per_iteration_stddev :: f64
  mp_tx_per_active_wallet_mean :: f64

definition default_simulation :: simulation_parameters where
  "default_simulation =
     \<lparr>mp_enabled = False, mp_speed_factor = 1000,
      mp_seed_file = ''seeds/default_100_nodes.json'', mp_auto_generate_users = True,
      mp_users_per_iteration_mean = f64_of_nat 80,
      mp_users_per_iteration_stddev = f64_of_nat 15,
      mp_tx_per_active_wallet_mean = f64_of_nat 5\<rparr>"

record system_parameters =
  p_economy :: economy_parameters
  p_growth :: growth_parameters
  p_consensus :: consensus_parameters
  p_iteration :: iteration_parameters
  p_storage :: storage_parameters
  p_security :: security_parameters
  p_simulation :: simulation_parameters

definition default_parameters :: system_parameters where
  "default_parameters =
     \<lparr>p_economy = default_economy, p_growth = default_growth, p_consensus = default_consensus,
      p_iteration = default_iteration, p_storage = default_storage,
      p_security = default_security, p_simulation = default_simulation\<rparr>"

section \<open>Seed files\<close>

datatype scripted_event =
    SpawnWallets iteration_id u64 "micro_agc option"
  | TransferBurst iteration_id u64 "f64 option"
  | ChargeBurst iteration_id micro_agc u64
  | WealthShock iteration_id f64
  | UnknownEvent

record seed_wallet =
  sw_public_key :: public_key
  sw_initial_balance :: "micro_agc option"

record seed_file =
  sf_metadata :: json_text
  sf_initial_wallets :: "seed_wallet list"
  sf_scripted_events :: "scripted_event list"

section \<open>Requests and responses\<close>

record wallet_create_request =
  wr_public_key :: public_key
  wr_captcha_token :: bytes
  wr_timestamp :: timestamp
  wr_metadata :: json_text

record charge_request =
  cr_to :: wallet_id
  cr_amount :: micro_agc
  cr_eur_amount :: u64
  cr_timestamp :: timestamp

record transfer_request =
  tr_from :: wallet_id
  tr_to :: wallet_id
  tr_amount :: micro_agc
  tr_nonce :: nonce
  tr_timestamp :: timestamp
  tr_sender_pubkey :: public_key
  tr_user_sig :: signature

record burn_request =
  br_from :: wallet_id
  br_amount :: micro_agc
  br_nonce :: nonce
  br_timestamp :: timestamp
  br_sender_pubkey :: public_key
  br_user_sig :: signature

record wallet_create_response =
  wcr_wallet_id :: wallet_id
  wcr_public_key :: public_key
  wcr_balance :: micro_agc
  wcr_created_at_tick :: tick
  wcr_tx_id :: hash

record tx_accepted_response =
  ta_tx_id :: hash
  ta_tick :: tick

record stats_response =
  sr_current_tick :: tick
  sr_current_iteration :: iteration_id
  sr_total_supply :: micro_agc
  sr_n_wallets :: u64
  sr_n_active_wallets :: u64
  sr_gini :: f64
  sr_last_poh_hash :: hash
  sr_last_inflation :: f64

record supply_point =
  sup_iteration :: iteration_id
  sup_supply :: micro_agc
  sup_burned :: micro_agc
  sup_faucet_from_mint :: micro_agc

record gini_point =
  gin_iteration :: iteration_id
  gin_gini :: f64

record simulation_status =
  sim_running :: bool
  sim_mode :: bytes
  sim_iterations_executed :: u64

end
