(* ===== verification/Crypto.thy ===== *)
theory Crypto
  imports Types
begin

text \<open>
  \<open>crates/aggora-crypto/src/lib.rs\<close>: hashing, decoding and normalising of keys, signing messages,
  Merkle roots.  The crates it calls (\<open>blake3\<close>, \<open>hex\<close>, \<open>base64\<close>, \<open>ed25519-dalek\<close>,
  \<open>serde_json\<close>) are the fields of \<open>crypto_lib\<close>, a parameter of every definition that uses them;
  \<open>hex_laws\<close> names what the theorems rely on of their documented behaviour.  An \<open>anyhow\<close> error is
  its message.
\<close>

section \<open>The libraries\<close>

text \<open>The structs the code serializes only to hash them.\<close>

datatype json_payload =
    MintPayload wallet_id micro_agc u64 operator_id u64 timestamp bytes
  | TransferPayload wallet_id wallet_id micro_agc nonce timestamp bytes
  | BurnPayload wallet_id micro_agc nonce timestamp bytes
  | CommitPayload u64 u64 u64 u64 f64 f64 f64 "(wallet_id \<times> u64) list"
      "(wallet_id \<times> u64) list" u64 u64 u64 "wallet_id list" u64

record crypto_lib =
  cl_blake3 :: "bytes \<Rightarrow> bytes"
  cl_hex_encode :: "bytes \<Rightarrow> bytes"
  cl_hex_decode :: "bytes \<Rightarrow> bytes option"
  cl_b64_standard :: "bytes \<Rightarrow> bytes option"
  cl_b64_url_no_pad :: "bytes \<Rightarrow> bytes option"
  cl_ed_public :: "bytes \<Rightarrow> bytes"
  cl_ed_sign :: "bytes \<Rightarrow> bytes \<Rightarrow> bytes"
  cl_ed_key_valid :: "bytes \<Rightarrow> bool"
  cl_ed_verify :: "bytes \<Rightarrow> bytes \<Rightarrow> bytes \<Rightarrow> bool"
  cl_to_vec :: "json_payload \<Rightarrow> bytes option"

definition ascii_hexdigit :: "char \<Rightarrow> bool" where
  "ascii_hexdigit c \<longleftrightarrow> c \<in> set ''0123456789abcdefABCDEF''"

text \<open>
  Documented behaviour of \<open>hex\<close> and \<open>blake3\<close>: encoding is two lower-case digits per byte and
  decoding inverts it, every even-length digit string decodes, a digest has 32 bytes.
\<close>

definition hex_laws :: "crypto_lib \<Rightarrow> bool" where
  "hex_laws C \<longleftrightarrow>
     (\<forall>b. cl_hex_decode C (cl_hex_encode C b) = Some b) \<and>
     (\<forall>b. length (cl_hex_encode C b) = 2 * length b) \<and>
     (\<forall>b. list_all ascii_hexdigit (cl_hex_encode C b)) \<and>
     (\<forall>b. length (cl_blake3 C b) = 32)"

section \<open>Trimming and decoding\<close>

text \<open>\<open>str::trim\<close> removes Unicode white space; the list holds its UTF-8 encodings.\<close>

definition byte_str :: "nat list \<Rightarrow> bytes" where
  "byte_str ns = map char_of ns"

definition unicode_ws :: "bytes list" where
  "unicode_ws = map byte_str
     ([[9], [10], [11], [12], [13], [32], [194, 133], [194, 160], [225, 154, 128],
       [226, 128, 128], [226, 128, 129], [226, 128, 130], [226, 128, 131], [226, 128, 132],
       [226, 128, 133], [226, 128, 134], [226, 128, 135], [226, 128, 136], [226, 128, 137],
       [226, 128, 138], [226, 128, 168], [226, 128, 169], [226, 128, 175], [226, 129, 159],
       [227, 128, 128]])"

definition ws_prefix_len :: "bytes list \<Rightarrow> bytes \<Rightarrow> nat" where
  "ws_prefix_len ws s = (case find (\<lambda>w. take (length w) s = w) ws of None \<Rightarrow> 0 | Some w \<Rightarrow> length w)"

function strip_ws :: "bytes list \<Rightarrow> bytes \<Rightarrow> bytes" where
  "strip_ws ws s =
     (if s = [] \<or> ws_prefix_len ws s = 0 then s else strip_ws ws (drop (ws_prefix_len ws s) s))"
  by pat_completeness auto
termination
  by (relation "measure (\<lambda>(ws, s). length s)") auto

declare strip_ws.simps [simp del]

definition trim :: "bytes \<Rightarrow> bytes" where
  "trim s = rev (strip_ws (map rev unicode_ws) (rev (strip_ws unicode_ws s)))"

definition ZERO_HASH_HEX :: hash where
  "ZERO_HASH_HEX = replicate 64 (CHR ''0'')"

definition blake3_hex :: "crypto_lib \<Rightarrow> bytes \<Rightarrow> bytes" where
  "blake3_hex C b = cl_hex_encode C (cl_blake3 C b)"

definition hash_serializable :: "crypto_lib \<Rightarrow> json_payload \<Rightarrow> bytes + bytes" where
  "hash_serializable C v =
     (case cl_to_vec C v of
        None \<Rightarrow> Inl ''canonical JSON serialization failed''
      | Some b \<Rightarrow> Inr (blake3_hex C b))"

definition decode_bytes :: "crypto_lib \<Rightarrow> bytes \<Rightarrow> bytes + bytes" where
  "decode_bytes C input =
     (let trimmed = trim input
      in if trimmed = [] then Inl ''empty bytes''
         else if even (length trimmed) \<and> list_all ascii_hexdigit trimmed
         then ok_or ''hex decode failed'' (cl_hex_decode C trimmed)
         else ok_or ''base64 decode failed''
                (case cl_b64_standard C trimmed of
                   Some b \<Rightarrow> Some b
                 | None \<Rightarrow> cl_b64_url_no_pad C trimmed))"

definition len_error :: "nat \<Rightarrow> nat \<Rightarrow> bytes" where
  "len_error expected got =
     ''expected '' @ show_nat expected @ '' bytes, got '' @ show_nat got"

definition normalize_bytes_to_hex :: "crypto_lib \<Rightarrow> bytes \<Rightarrow> nat \<Rightarrow> bytes + bytes" where
  "normalize_bytes_to_hex C input expected_len =
     and_then (decode_bytes C input) (\<lambda>bytes.
       if length bytes \<noteq> expected_len then Inl (len_error expected_len (length bytes))
       else Inr (cl_hex_encode C bytes))"

definition fixed_32 :: "crypto_lib \<Rightarrow> bytes \<Rightarrow> bytes + bytes" where
  "fixed_32 C input =
     and_then (decode_bytes C input) (\<lambda>bytes.
       if length bytes = 32 then Inr bytes else Inl (len_error 32 (length bytes)))"

definition fixed_64 :: "crypto_lib \<Rightarrow> bytes \<Rightarrow> bytes + bytes" where
  "fixed_64 C input =
     and_then (decode_bytes C input) (\<lambda>bytes.
       if length bytes = 64 then Inr bytes else Inl (len_error 64 (length bytes)))"

section \<open>Keys, signatures and identifiers\<close>

definition public_key_from_secret_hex :: "crypto_lib \<Rightarrow> bytes \<Rightarrow> bytes + bytes" where
  "public_key_from_secret_hex C secret =
     and_then (fixed_32 C secret) (\<lambda>sk. Inr (cl_hex_encode C (cl_ed_public C sk)))"

definition sign_with_secret_hex :: "crypto_lib \<Rightarrow> bytes \<Rightarrow> bytes \<Rightarrow> bytes + bytes" where
  "sign_with_secret_hex C secret message =
     and_then (fixed_32 C secret) (\<lambda>sk. Inr (cl_hex_encode C (cl_ed_sign C sk message)))"

definition verify_ed25519 :: "crypto_lib \<Rightarrow> bytes \<Rightarrow> bytes \<Rightarrow> bytes \<Rightarrow> bytes + bool" where
  "verify_ed25519 C public_key message sig =
     and_then (fixed_32 C public_key) (\<lambda>pk.
     and_then (fixed_64 C sig) (\<lambda>sg.
       if cl_ed_key_valid C pk then Inr (cl_ed_verify C pk message sg)
       else Inl ''invalid Ed25519 public key''))"

definition wallet_id_from_public_key :: "crypto_lib \<Rightarrow> bytes \<Rightarrow> bytes + bytes" where
  "wallet_id_from_public_key C public_key =
     and_then (normalize_bytes_to_hex C public_key 32) (\<lambda>pubkey_hex.
     and_then (ok_or ''hex decode failed'' (cl_hex_decode C pubkey_hex)) (\<lambda>pubkey_bytes.
       Inr (blake3_hex C pubkey_bytes)))"

definition operator_id_from_public_key :: "crypto_lib \<Rightarrow> bytes \<Rightarrow> bytes + bytes" where
  "operator_id_from_public_key C public_key = wallet_id_from_public_key C public_key"

definition validator_id_from_public_key :: "crypto_lib \<Rightarrow> bytes \<Rightarrow> bytes + bytes" where
  "validator_id_from_public_key C public_key = wallet_id_from_public_key C public_key"

definition tx_signing_message :: "crypto_lib \<Rightarrow> bytes \<Rightarrow> bytes + bytes" where
  "tx_signing_message C tx_id_hex =
     and_then (decode_bytes C tx_id_hex) (\<lambda>bytes.
       if length bytes \<noteq> 32 then Inl ''tx id must be 32 bytes'' else Inr bytes)"

definition ascii_upper :: "char \<Rightarrow> char" where
  "ascii_upper c =
     (if 97 \<le> (of_char c :: nat) \<and> (of_char c :: nat) \<le> 122 then char_of ((of_char c :: nat) - 32) else c)"

definition newline :: char where
  "newline = char_of (10 :: nat)"

definition canonical_request_message :: "bytes \<Rightarrow> bytes \<Rightarrow> i64 \<Rightarrow> bytes \<Rightarrow> bytes" where
  "canonical_request_message method path timestamp_ms body =
     map ascii_upper method @ [newline] @ path @ [newline] @ show_i64 timestamp_ms @ [newline] @ body"

section \<open>Merkle roots\<close>

definition merkle_leaf :: "crypto_lib \<Rightarrow> bytes \<Rightarrow> bytes" where
  "merkle_leaf C b = cl_blake3 C (char_of (0 :: nat) # b)"

definition merkle_node :: "crypto_lib \<Rightarrow> bytes \<Rightarrow> bytes \<Rightarrow> bytes" where
  "merkle_node C l r = cl_blake3 C (char_of (1 :: nat) # l @ r)"

text \<open>One pass of the \<open>while\<close> loop: \<open>chunks(2)\<close>, an odd last node being paired with itself.\<close>

fun merkle_layer :: "crypto_lib \<Rightarrow> bytes list \<Rightarrow> bytes list" where
  "merkle_layer C [] = []"
| "merkle_layer C [a] = [merkle_node C a a]"
| "merkle_layer C (a # b # xs) = merkle_node C a b # merkle_layer C xs"

lemma length_merkle_layer: "length (merkle_layer C xs) = (length xs + 1) div 2"
  by (induction C xs rule: merkle_layer.induct) auto

function merkle_loop :: "crypto_lib \<Rightarrow> bytes list \<Rightarrow> bytes list" where
  "merkle_loop C layer = (if 1 < length layer then merkle_loop C (merkle_layer C layer) else layer)"
  by pat_completeness auto
termination
  by (relation "measure (\<lambda>(C, layer). length layer)") (auto simp: length_merkle_layer)

declare merkle_loop.simps [simp del]

text \<open>Collecting an iterator of results stops at the first error.\<close>

fun collect_results :: "('e + 'a) list \<Rightarrow> 'e + 'a list" where
  "collect_results [] = Inr []"
| "collect_results (r # rs) =
     and_then r (\<lambda>a. and_then (collect_results rs) (\<lambda>as. Inr (a # as)))"

definition merkle_root_hex :: "crypto_lib \<Rightarrow> bytes list \<Rightarrow> bytes + bytes" where
  "merkle_root_hex C tx_ids =
     (if tx_ids = [] then Inr ZERO_HASH_HEX
      else and_then (collect_results
                       (map (\<lambda>t. and_then (decode_bytes C t) (\<lambda>b. Inr (merkle_leaf C b))) tx_ids))
             (\<lambda>layer. Inr (cl_hex_encode C (merkle_loop C layer ! 0))))"

end
