(* ===== verification/Crypto_Props.thy ===== *)
theory Crypto_Props
  imports Crypto
begin

text \<open>
  What the crypto layer guarantees: keys have one canonical spelling, digests are themselves
  decodable 32-byte values, signing messages are unambiguous, Merkle roots bind the transaction
  list up to a digest collision, and the known ambiguity of duplicated last leaves.
\<close>

section \<open>Hex strings are decoded as hex\<close>

lemma unicode_ws_ends:
  "list_all (\<lambda>w. w \<noteq> [] \<and> \<not> ascii_hexdigit (hd w) \<and> \<not> ascii_hexdigit (last w)) unicode_ws"
  by code_simp

lemma hexdigit_not_ws:
  "w \<in> set unicode_ws \<Longrightarrow> w \<noteq> [] \<and> \<not> ascii_hexdigit (hd w) \<and> \<not> ascii_hexdigit (last w)"
  using unicode_ws_ends by (auto simp: list_all_iff)

lemma ws_prefix_len_0:
  assumes "list_all ascii_hexdigit s"
    and "\<And>w. w \<in> set ws \<Longrightarrow> w \<noteq> [] \<and> \<not> ascii_hexdigit (hd w)"
  shows "ws_prefix_len ws s = 0"
proof -
  have "take (length w) s \<noteq> w" if w: "w \<in> set ws" for w
  proof
    assume eq: "take (length w) s = w"
    have "hd w \<in> set w" using assms(2) [OF w] by simp
    then have "hd w \<in> set s" using eq set_take_subset [of "length w" s] by auto
    then show False using assms(1) assms(2) [OF w] by (auto simp: list_all_iff)
  qed
  then have "find (\<lambda>w. take (length w) s = w) ws = None"
    by (auto simp: find_None_iff)
  then show ?thesis by (simp add: ws_prefix_len_def)
qed

lemma trim_hex:
  assumes "list_all ascii_hexdigit s"
  shows "trim s = s"
proof -
  have "strip_ws unicode_ws s = s"
    using ws_prefix_len_0 [OF assms, of unicode_ws] hexdigit_not_ws
    by (subst strip_ws.simps) auto
  moreover have "ws_prefix_len (map rev unicode_ws) (rev s) = 0"
    using assms hexdigit_not_ws
    by (intro ws_prefix_len_0) (auto simp: hd_rev list_all_iff)
  then have "strip_ws (map rev unicode_ws) (rev s) = rev s"
    by (subst strip_ws.simps) auto
  ultimately show ?thesis by (simp add: trim_def)
qed

lemma hex_encode_nonempty: "hex_laws C \<Longrightarrow> b \<noteq> [] \<Longrightarrow> cl_hex_encode C b \<noteq> []"
  by (metis hex_laws_def length_0_conv mult_is_0 zero_neq_numeral)

lemma decode_bytes_hex:
  assumes "hex_laws C" and "b \<noteq> []"
  shows "decode_bytes C (cl_hex_encode C b) = Inr b"
  using assms hex_encode_nonempty [OF assms]
  by (simp add: decode_bytes_def trim_hex hex_laws_def Let_def)

lemma hex_encode_inject:
  "hex_laws C \<Longrightarrow> cl_hex_encode C a = cl_hex_encode C b \<longleftrightarrow> a = b"
  by (metis hex_laws_def option.inject)

section \<open>Canonical keys\<close>

lemma normalize_Inr:
  "normalize_bytes_to_hex C s n = Inr h \<longleftrightarrow>
     (\<exists>b. decode_bytes C s = Inr b \<and> length b = n \<and> h = cl_hex_encode C b)"
  by (auto simp: normalize_bytes_to_hex_def step_simps split: if_splits)

lemma normalize_hex:
  "hex_laws C \<Longrightarrow> 0 < length b \<Longrightarrow>
     normalize_bytes_to_hex C (cl_hex_encode C b) (length b) = Inr (cl_hex_encode C b)"
  by (auto simp: normalize_Inr decode_bytes_hex)

lemma wallet_id_Inr:
  "hex_laws C \<Longrightarrow> wallet_id_from_public_key C s = Inr i \<longleftrightarrow>
     (\<exists>b. decode_bytes C s = Inr b \<and> length b = 32 \<and> i = blake3_hex C b)"
  by (auto simp: wallet_id_from_public_key_def step_simps normalize_Inr hex_laws_def)

lemma blake3_hex_decodes: "hex_laws C \<Longrightarrow> decode_bytes C (blake3_hex C x) = Inr (cl_blake3 C x)"
  unfolding blake3_hex_def
  by (rule decode_bytes_hex) (auto simp: hex_laws_def dest!: spec [of _ x])

lemma hash_serializable_decodes:
  assumes "hex_laws C" and "hash_serializable C v = Inr h"
  shows "\<exists>b. decode_bytes C h = Inr b \<and> length b = 32"
  using assms blake3_hex_decodes [OF assms(1)]
  by (auto simp: hash_serializable_def hex_laws_def split: option.splits)

lemma length_blake3_hex: "hex_laws C \<Longrightarrow> length (blake3_hex C x) = 64"
  by (simp add: blake3_hex_def hex_laws_def)

lemma length_normalized: "hex_laws C \<Longrightarrow> normalize_bytes_to_hex C s n = Inr h \<Longrightarrow> length h = 2 * n"
  by (auto simp: normalize_Inr hex_laws_def)

section \<open>Merkle layers\<close>

lemma merkle_layer_dup:
  "even (length xs) \<Longrightarrow> merkle_layer C (xs @ [a]) = merkle_layer C (xs @ [a, a])"
  by (induction C xs rule: merkle_layer.induct) auto

lemma merkle_loop_single: "xs \<noteq> [] \<Longrightarrow> length (merkle_loop C xs) = 1"
proof (induction C xs rule: merkle_loop.induct)
  case (1 C layer)
  show ?case
  proof (cases "1 < length layer")
    case True
    then have "0 < length (merkle_layer C layer)" by (simp add: length_merkle_layer)
    then show ?thesis using 1 True by (simp add: merkle_loop.simps [of C layer])
  next
    case False
    then have "length layer = 1" using "1.prems" by (cases layer) auto
    then show ?thesis by (simp add: merkle_loop.simps [of C layer])
  qed
qed

lemma merkle_loop_dup:
  assumes "even (length xs)" and "xs \<noteq> []"
  shows "merkle_loop C (xs @ [a]) = merkle_loop C (xs @ [a, a])"
  using assms merkle_layer_dup [OF assms(1), of C a]
  by (subst (1 2) merkle_loop.simps) (simp add: Suc_le_eq flip: length_greater_0_conv)

text \<open>
  A collision among a given finite list of inputs.  (That some collision exists at all is no
  information: the digest has 32 bytes.)  The lists below are the inputs a computation really hashes.
\<close>

definition collision_among :: "crypto_lib \<Rightarrow> bytes list \<Rightarrow> bool" where
  "collision_among C xs \<longleftrightarrow> (\<exists>x\<in>set xs. \<exists>y\<in>set xs. x \<noteq> y \<and> cl_blake3 C x = cl_blake3 C y)"

lemma blake3_inject:
  "\<not> collision_among C xs \<Longrightarrow> x \<in> set xs \<Longrightarrow> y \<in> set xs \<Longrightarrow> cl_blake3 C x = cl_blake3 C y \<longleftrightarrow> x = y"
  by (auto simp: collision_among_def)

lemma collision_mono: "\<not> collision_among C ys \<Longrightarrow> set xs \<subseteq> set ys \<Longrightarrow> \<not> collision_among C xs"
  by (auto simp: collision_among_def)

definition leaf_input :: "bytes \<Rightarrow> bytes" where
  "leaf_input b = char_of (0 :: nat) # b"

definition node_input :: "bytes \<Rightarrow> bytes \<Rightarrow> bytes" where
  "node_input l r = char_of (1 :: nat) # l @ r"

fun layer_inputs :: "bytes list \<Rightarrow> bytes list" where
  "layer_inputs [] = []"
| "layer_inputs [a] = [node_input a a]"
| "layer_inputs (a # b # xs) = node_input a b # layer_inputs xs"

function loop_inputs :: "crypto_lib \<Rightarrow> bytes list \<Rightarrow> bytes list" where
  "loop_inputs C layer =
     (if 1 < length layer then layer_inputs layer @ loop_inputs C (merkle_layer C layer) else [])"
  by pat_completeness auto
termination
  by (relation "measure (\<lambda>(C, layer). length layer)") (auto simp: length_merkle_layer)

declare loop_inputs.simps [simp del]

text \<open>Everything \<open>merkle_root_hex\<close> hashes for a list of transaction ids.\<close>

definition merkle_inputs :: "crypto_lib \<Rightarrow> bytes list \<Rightarrow> bytes list" where
  "merkle_inputs C ts =
     (case collect_results (map (decode_bytes C) ts) of
        Inl e \<Rightarrow> []
      | Inr bs \<Rightarrow> map leaf_input bs @ loop_inputs C (map (merkle_leaf C) bs))"

definition digests :: "bytes list \<Rightarrow> bool" where
  "digests xs \<longleftrightarrow> list_all (\<lambda>x. length x = 32) xs"

lemma merkle_node_inject:
  assumes "\<not> collision_among C [node_input a b, node_input c d]" and "length a = length c"
    and "merkle_node C a b = merkle_node C c d"
  shows "a = c \<and> b = d"
proof -
  have "cl_blake3 C (node_input a b) = cl_blake3 C (node_input c d)"
    using assms(3) by (simp add: merkle_node_def node_input_def)
  then have "node_input a b = node_input c d" using blake3_inject [OF assms(1)] by simp
  then show ?thesis using assms(2) by (simp add: node_input_def)
qed

lemma digests_layer: "hex_laws C \<Longrightarrow> digests (merkle_layer C xs)"
  by (induction C xs rule: merkle_layer.induct)
    (simp_all add: digests_def merkle_node_def hex_laws_def)

lemma merkle_layer_inject:
  "\<not> collision_among C (layer_inputs xs @ layer_inputs ys) \<Longrightarrow> length xs = length ys \<Longrightarrow> digests xs \<Longrightarrow>
    digests ys \<Longrightarrow> merkle_layer C xs = merkle_layer C ys \<Longrightarrow> xs = ys"
proof (induction C xs arbitrary: ys rule: merkle_layer.induct)
  case (1 C)
  then show ?case by simp
next
  case (2 C a)
  then obtain c where c: "ys = [c]" by (cases ys) auto
  have "\<not> collision_among C [node_input a a, node_input c c]"
    using 2 c by (intro collision_mono [OF "2.prems"(1)]) auto
  moreover have "length a = length c" "merkle_node C a a = merkle_node C c c"
    using 2 c by (simp_all add: digests_def)
  ultimately show ?case using merkle_node_inject [of C a a c c] c by simp
next
  case (3 C a b xs)
  then obtain c d zs where ys: "ys = c # d # zs" by (metis length_Suc_conv)
  have node: "\<not> collision_among C [node_input a b, node_input c d]"
    using ys by (intro collision_mono [OF "3.prems"(1)]) auto
  have rest: "\<not> collision_among C (layer_inputs xs @ layer_inputs zs)"
    using ys by (intro collision_mono [OF "3.prems"(1)]) auto
  have "merkle_node C a b = merkle_node C c d" "merkle_layer C xs = merkle_layer C zs"
    "length a = length c" using 3 ys by (auto simp: digests_def)
  moreover from this have "a = c \<and> b = d" using merkle_node_inject [OF node] by simp
  ultimately show ?case using "3.IH" [OF rest] "3.prems" ys by (simp add: digests_def)
qed

lemma merkle_loop_inject:
  "hex_laws C \<Longrightarrow> \<not> collision_among C (loop_inputs C xs @ loop_inputs C ys) \<Longrightarrow> length xs = length ys \<Longrightarrow>
    digests xs \<Longrightarrow> digests ys \<Longrightarrow> merkle_loop C xs = merkle_loop C ys \<Longrightarrow> xs = ys"
proof (induction C xs arbitrary: ys rule: merkle_loop.induct)
  case (1 C layer)
  show ?case
  proof (cases "1 < length layer")
    case True
    then have len: "1 < length ys" using "1.prems"(3) by simp
    have in1: "loop_inputs C layer = layer_inputs layer @ loop_inputs C (merkle_layer C layer)"
      "loop_inputs C ys = layer_inputs ys @ loop_inputs C (merkle_layer C ys)"
      using True len loop_inputs.simps [of C layer] loop_inputs.simps [of C ys] by simp_all
    have nc: "\<not> collision_among C (layer_inputs layer @ layer_inputs ys)"
      by (rule collision_mono [OF "1.prems"(2)]) (auto simp: in1)
    have nc2: "\<not> collision_among C (loop_inputs C (merkle_layer C layer) @ loop_inputs C (merkle_layer C ys))"
      by (rule collision_mono [OF "1.prems"(2)]) (auto simp: in1)
    have "merkle_loop C (merkle_layer C layer) = merkle_loop C (merkle_layer C ys)"
      using "1.prems" True by (simp add: merkle_loop.simps [of C layer] merkle_loop.simps [of C ys])
    then have "merkle_layer C layer = merkle_layer C ys"
      using "1.IH" [OF True "1.prems"(1) nc2] "1.prems" digests_layer [of C]
      by (simp add: length_merkle_layer)
    then show ?thesis using merkle_layer_inject [OF nc "1.prems"(3-5)] by blast
  next
    case False
    then show ?thesis
      using "1.prems" by (simp add: merkle_loop.simps [of C layer] merkle_loop.simps [of C ys])
  qed
qed

section \<open>Properties of the crypto layer\<close>

lemma collect_results_Inr: "collect_results rs = Inr as \<longleftrightarrow> rs = map Inr as"
  by (induction rs arbitrary: as) (auto simp: step_simps Cons_eq_map_conv)

lemma collect_results_ok [simp]: "collect_results (map Inr as) = Inr as"
  by (simp add: collect_results_Inr)

lemma collect_results_map:
  "collect_results (map (\<lambda>t. and_then (f t) (\<lambda>b. Inr (g b))) ts) =
     and_then (collect_results (map f ts)) (\<lambda>bs. Inr (map g bs))"
  by (induction ts) (auto simp: and_then_def split: sum.splits)

lemma collect_results_twice:
  "collect_results (rs @ [r, r]) =
     and_then (collect_results (rs @ [r])) (\<lambda>as. Inr (as @ [last as]))"
proof (induction rs)
  case Nil
  then show ?case by (cases r) simp_all
next
  case (Cons q rs)
  then show ?case
    by (cases q; cases "collect_results (rs @ [r])")
      (auto dest: collect_results_Inr [THEN iffD1])
qed

lemma merkle_root_alt:
  "merkle_root_hex C ts =
     (if ts = [] then Inr ZERO_HASH_HEX
      else and_then (collect_results (map (decode_bytes C) ts))
             (\<lambda>bs. Inr (cl_hex_encode C (merkle_loop C (map (merkle_leaf C) bs) ! 0))))"
  using collect_results_map [of "decode_bytes C" "merkle_leaf C" ts]
  by (cases "collect_results (map (decode_bytes C) ts)") (simp_all add: merkle_root_hex_def)

lemma merkle_root_Inr:
  assumes "ts \<noteq> []"
  shows "merkle_root_hex C ts = Inr r \<longleftrightarrow>
    (\<exists>bs. map (decode_bytes C) ts = map Inr bs \<and>
          r = cl_hex_encode C (merkle_loop C (map (merkle_leaf C) bs) ! 0))"
  using assms by (auto simp: merkle_root_alt step_simps collect_results_Inr)

lemma merkle_leaves_inject:
  assumes nc: "\<not> collision_among C (map leaf_input bs @ map leaf_input cs)"
    and eq: "map (merkle_leaf C) bs = map (merkle_leaf C) cs"
  shows "bs = cs"
proof (rule nth_equalityI)
  show len: "length bs = length cs" using eq by (metis length_map)
  fix i assume i: "i < length bs"
  then have "cl_blake3 C (leaf_input (bs ! i)) = cl_blake3 C (leaf_input (cs ! i))"
    using arg_cong [OF eq, of "\<lambda>xs. xs ! i"] len by (simp add: merkle_leaf_def leaf_input_def)
  then have "leaf_input (bs ! i) = leaf_input (cs ! i)" using blake3_inject [OF nc] i len by simp
  then show "bs ! i = cs ! i" by (simp add: leaf_input_def)
qed

text \<open>
  C18. Two transaction lists of the same length with the same Merkle root decode to the same
  transaction identifiers, or two of the inputs hashed on the way to the two roots collide: the root
  in a PoH entry binds the list.
\<close>

theorem merkle_root_binding:
  assumes "hex_laws C" and "length ts = length us"
    and "merkle_root_hex C ts = Inr r" and "merkle_root_hex C us = Inr r"
  shows "map (decode_bytes C) ts = map (decode_bytes C) us
    \<or> collision_among C (merkle_inputs C ts @ merkle_inputs C us)"
proof (cases "ts = [] \<or> collision_among C (merkle_inputs C ts @ merkle_inputs C us)")
  case True
  then show ?thesis using assms(2) by auto
next
  case False
  then have nc: "\<not> collision_among C (merkle_inputs C ts @ merkle_inputs C us)" and ne: "ts \<noteq> []" "us \<noteq> []" using assms(2) by auto
  obtain bs where bs: "map (decode_bytes C) ts = map Inr bs"
    "r = cl_hex_encode C (merkle_loop C (map (merkle_leaf C) bs) ! 0)"
    using assms(3) merkle_root_Inr [OF ne(1)] by blast
  obtain cs where cs: "map (decode_bytes C) us = map Inr cs"
    "r = cl_hex_encode C (merkle_loop C (map (merkle_leaf C) cs) ! 0)"
    using assms(4) merkle_root_Inr [OF ne(2)] by blast
  have lens: "length ts = length bs" "length us = length cs"
    using bs(1) cs(1) by (metis length_map)+
  let ?bs = "map (merkle_leaf C) bs" and ?cs = "map (merkle_leaf C) cs"
  have len: "length ?bs = length ?cs" "?bs \<noteq> []" "?cs \<noteq> []"
    using assms(2) ne lens by auto
  have "merkle_loop C ?bs ! 0 = merkle_loop C ?cs ! 0"
    using bs(2) cs(2) by (simp add: hex_encode_inject [OF assms(1)])
  then have "merkle_loop C ?bs = merkle_loop C ?cs"
    using merkle_loop_single [OF len(2)] merkle_loop_single [OF len(3)]
    by (metis One_nat_def length_0_conv length_Suc_conv nth_Cons_0)
  moreover have "digests ?bs" "digests ?cs"
    using assms(1) by (simp_all add: digests_def merkle_leaf_def hex_laws_def list_all_iff)
  moreover have inputs: "merkle_inputs C ts = map leaf_input bs @ loop_inputs C ?bs"
    "merkle_inputs C us = map leaf_input cs @ loop_inputs C ?cs"
    by (simp_all add: merkle_inputs_def bs(1) cs(1))
  moreover have nl: "\<not> collision_among C (loop_inputs C ?bs @ loop_inputs C ?cs)"
    by (rule collision_mono [OF nc]) (auto simp: inputs)
  ultimately have "?bs = ?cs" using merkle_loop_inject [OF assms(1) nl len(1)] by blast
  moreover have "\<not> collision_among C (map leaf_input bs @ map leaf_input cs)"
    by (rule collision_mono [OF nc]) (auto simp: inputs)
  ultimately have "bs = cs" using merkle_leaves_inject lens assms(2) by blast
  then show ?thesis using bs(1) cs(1) by simp
qed

text \<open>
  C29. The root does not bind the length: a list of odd length of at least three (an even number of ids,
  at least two, and a last one) and the same list with its last id repeated have the same root,
  because an odd last node is paired with itself.  A list of one id is different: its root is the
  hash of a leaf, the one of the repeated id the hash of a node.
\<close>

theorem merkle_root_duplicate_last:
  assumes "even (length ts)" and "ts \<noteq> []"
  shows "merkle_root_hex C (ts @ [t]) = merkle_root_hex C (ts @ [t, t])"
proof -
  have eq: "merkle_loop C (map (merkle_leaf C) bs) = merkle_loop C (map (merkle_leaf C) (bs @ [last bs]))"
    if "map (decode_bytes C) (ts @ [t]) = map Inr bs" for bs :: "bytes list"
  proof -
    have "length bs = Suc (length ts)" using that by (metis length_map length_append_singleton)
    then obtain as b where bs: "bs = as @ [b]" "length as = length ts"
      by (metis length_Suc_conv_rev)
    then show ?thesis
      using merkle_loop_dup [of "map (merkle_leaf C) as" C "merkle_leaf C b"] assms
      by (auto simp flip: length_greater_0_conv)
  qed
  show ?thesis
    using collect_results_twice [of "map (decode_bytes C) ts" "decode_bytes C t"] eq
    by (cases "collect_results (map (decode_bytes C) ts @ [decode_bytes C t])")
      (simp_all add: merkle_root_alt collect_results_Inr [THEN iffD1])
qed

text \<open>
  C27. Every spelling of a key has one canonical form: normalising succeeds with the lower-case hex
  of the decoded bytes, normalising again changes nothing, and the wallet id (the digest of the
  decoded bytes) of the input and of its canonical form are the same 64-character string.
\<close>

theorem normalize_canonical:
  assumes "hex_laws C" and "normalize_bytes_to_hex C s 32 = Inr h"
  shows "normalize_bytes_to_hex C h 32 = Inr h \<and> length h = 64 \<and>
     (\<exists>i. wallet_id_from_public_key C s = Inr i \<and> wallet_id_from_public_key C h = Inr i \<and>
          length i = 64)"
proof -
  from assms(2) obtain b where b: "decode_bytes C s = Inr b" "length b = 32" "h = cl_hex_encode C b"
    by (auto simp: normalize_Inr)
  then have "b \<noteq> []" by auto
  then have h: "decode_bytes C h = Inr b" using b decode_bytes_hex [OF assms(1), of b] by simp
  then have "normalize_bytes_to_hex C h 32 = Inr h" using b by (simp add: normalize_Inr)
  moreover have "length h = 64" using b assms(1) by (simp add: hex_laws_def)
  ultimately show ?thesis
    using b h length_blake3_hex [OF assms(1), of b] by (simp add: wallet_id_Inr [OF assms(1)])
qed

lemma show_i64_no_newline: "newline \<notin> set (show_i64 t)"
proof -
  have "c \<noteq> newline" if "dec_digit c" for c
    using dec_digit_code [OF that] by (auto simp: newline_def)
  then have "newline \<notin> set (show_nat n)" for n
    using show_nat_digits [of n] by (auto simp: list_all_iff)
  moreover have "newline \<noteq> CHR ''-''" by (simp add: newline_def char_of_def)
  ultimately show ?thesis by (simp add: show_i64_def)
qed

lemma split_at_newline:
  assumes "newline \<notin> set a" and "newline \<notin> set b"
  shows "a @ newline # x = b @ newline # y \<longleftrightarrow> a = b \<and> x = y"
  using assms
proof (induction a arbitrary: b)
  case Nil
  then show ?case by (cases b) auto
next
  case (Cons c a)
  then show ?case by (cases b) auto
qed

lemma of_char_newline: "(of_char newline :: nat) = 10"
  by (simp add: newline_def)

lemma ascii_upper_newline: "ascii_upper c = newline \<longleftrightarrow> c = newline"
proof -
  define n where "n = (of_char c :: nat)"
  show ?thesis
  proof (cases "97 \<le> n \<and> n \<le> 122")
    case True
    then have "ascii_upper c = char_of (n - 32)" by (simp add: ascii_upper_def n_def)
    then have u: "(of_char (ascii_upper c) :: nat) = (n - 32) mod 256"
      by (simp only: of_char_of)
    have "n - 32 < 256" "n - 32 \<noteq> 10" "n \<noteq> 10" using True by arith+
    then have "(of_char (ascii_upper c) :: nat) \<noteq> 10" "n \<noteq> 10"
      unfolding u by (simp_all only: mod_less not_False_eq_True)
    then show ?thesis using of_char_newline by (auto simp only: n_def)
  next
    case False
    then show ?thesis by (simp only: ascii_upper_def n_def if_False)
  qed
qed

text \<open>
  C26. The canonical message an operator signs is unambiguous: two requests whose methods and paths
  hold no line break have the same message only if they agree on the upper-cased method, the path,
  the timestamp and the body, so a signature for one request is never one for another.
\<close>

theorem canonical_request_injective:
  assumes "newline \<notin> set m" and "newline \<notin> set m'" and "newline \<notin> set p" and "newline \<notin> set p'"
    and "canonical_request_message m p t b = canonical_request_message m' p' t' b'"
  shows "map ascii_upper m = map ascii_upper m' \<and> p = p' \<and> t = t' \<and> b = b'"
proof -
  have "newline \<notin> set (map ascii_upper m)" "newline \<notin> set (map ascii_upper m')"
    using assms(1,2) ascii_upper_newline by (metis (no_types) imageE set_map)+
  then show ?thesis
    using assms(3-5) show_i64_no_newline
    by (simp add: canonical_request_message_def split_at_newline show_i64_inject)
qed

end
