(* ===== verification/Poh.thy ===== *)
theory Poh
  imports Crypto_Props
begin

text \<open>
  \<open>crates/aggora-poh/src/lib.rs\<close>: the digest of a proof-of-history entry, its construction and its
  verification.  The wall clock read by \<open>now_ms()\<close> is an argument.
\<close>

text \<open>\<open>u64::to_le_bytes\<close>.\<close>

definition to_le_bytes :: "u64 \<Rightarrow> bytes" where
  "to_le_bytes n = map (\<lambda>i. char_of (unat n div 256 ^ i)) [0..<8]"

definition poh_hash :: "crypto_lib \<Rightarrow> hash \<Rightarrow> tick \<Rightarrow> hash \<Rightarrow> validator_id \<Rightarrow> bytes" where
  "poh_hash C prev_hash tick tx_root leader_id =
     blake3_hex C (prev_hash @ to_le_bytes tick @ tx_root @ leader_id)"

definition build_entry ::
  "crypto_lib \<Rightarrow> timestamp \<Rightarrow> tick \<Rightarrow> hash \<Rightarrow> hash list \<Rightarrow> validator_id \<Rightarrow> bytes option \<Rightarrow> bytes + poh_entry"
where
  "build_entry C now tick prev_hash tx_ids leader_id leader_secret_hex =
     and_then (merkle_root_hex C tx_ids) (\<lambda>tx_root.
       let h = poh_hash C prev_hash tick tx_root leader_id;
           signing_payload = show_u64 tick @ '':'' @ h @ '':'' @ tx_root
       in and_then
            (case leader_secret_hex of
               Some secret \<Rightarrow> sign_with_secret_hex C secret signing_payload
             | None \<Rightarrow> Inr [])
            (\<lambda>leader_sig.
              Inr \<lparr>pe_tick = tick, pe_prev_hash = prev_hash, pe_hash = h, pe_tx_root = tx_root,
                   pe_tx_ids = tx_ids, pe_leader_id = leader_id, pe_leader_sig = leader_sig,
                   pe_wall_clock = now\<rparr>))"

definition verify_chain :: "crypto_lib \<Rightarrow> hash \<Rightarrow> poh_entry \<Rightarrow> bytes + bool" where
  "verify_chain C prev_hash entry =
     (if pe_prev_hash entry \<noteq> prev_hash then Inr False
      else and_then (merkle_root_hex C (pe_tx_ids entry)) (\<lambda>expected_root.
        if expected_root \<noteq> pe_tx_root entry then Inr False
        else Inr (poh_hash C (pe_prev_hash entry) (pe_tick entry) (pe_tx_root entry) (pe_leader_id entry)
                  = pe_hash entry)))"

text \<open>A run of entries, each verified against the digest of the one before; the last digest.\<close>

fun chain_from :: "crypto_lib \<Rightarrow> hash \<Rightarrow> poh_entry list \<Rightarrow> bool" where
  "chain_from C prev [] = True"
| "chain_from C prev (e # es) = (verify_chain C prev e = Inr True \<and> chain_from C (pe_hash e) es)"

fun chain_end :: "hash \<Rightarrow> poh_entry list \<Rightarrow> hash" where
  "chain_end prev [] = prev"
| "chain_end prev (e # es) = chain_end (pe_hash e) es"

lemma chain_from_append:
  "chain_from C prev (es @ fs) \<longleftrightarrow> chain_from C prev es \<and> chain_from C (chain_end prev es) fs"
  by (induction es arbitrary: prev) auto

lemma chain_end_append: "chain_end prev (es @ fs) = chain_end (chain_end prev es) fs"
  by (induction es arbitrary: prev) auto

lemma build_entry_Inr:
  "build_entry C now t prev ids leader sec = Inr e \<Longrightarrow>
     pe_tick e = t \<and> pe_prev_hash e = prev \<and> pe_tx_ids e = ids \<and> pe_leader_id e = leader \<and>
     pe_wall_clock e = now \<and> merkle_root_hex C ids = Inr (pe_tx_root e) \<and>
     pe_hash e = poh_hash C prev t (pe_tx_root e) leader"
  by (auto simp: build_entry_def step_simps Let_def)

lemma verify_chain_True:
  "verify_chain C prev e = Inr True \<longleftrightarrow>
     pe_prev_hash e = prev \<and> merkle_root_hex C (pe_tx_ids e) = Inr (pe_tx_root e) \<and>
     pe_hash e = poh_hash C prev (pe_tick e) (pe_tx_root e) (pe_leader_id e)"
  by (auto simp: verify_chain_def step_simps)

lemma digests_loop: "hex_laws C \<Longrightarrow> digests xs \<Longrightarrow> digests (merkle_loop C xs)"
proof (induction C xs rule: merkle_loop.induct)
  case (1 C layer)
  then show ?case
    by (cases "1 < length layer") (simp_all add: merkle_loop.simps [of C layer] digests_layer)
qed

lemma merkle_root_length:
  assumes "hex_laws C" and "merkle_root_hex C ts = Inr r"
  shows "length r = 64"
proof (cases "ts = []")
  case True
  then show ?thesis using assms(2) by (auto simp: merkle_root_hex_def ZERO_HASH_HEX_def)
next
  case False
  then obtain bs where bs: "map (decode_bytes C) ts = map Inr bs"
    "r = cl_hex_encode C (merkle_loop C (map (merkle_leaf C) bs) ! 0)"
    using assms(2) merkle_root_Inr by blast
  then have ne: "map (merkle_leaf C) bs \<noteq> []" using False by auto
  have "digests (map (merkle_leaf C) bs)"
    using assms(1) by (simp add: digests_def merkle_leaf_def hex_laws_def list_all_iff)
  then have "digests (merkle_loop C (map (merkle_leaf C) bs))"
    by (rule digests_loop [OF assms(1)])
  moreover have "length (merkle_loop C (map (merkle_leaf C) bs)) = 1"
    by (rule merkle_loop_single [OF ne])
  ultimately have "length (merkle_loop C (map (merkle_leaf C) bs) ! 0) = 32"
    by (simp add: digests_def list_all_length)
  then show ?thesis using assms(1) bs(2) by (simp add: hex_laws_def)
qed

lemma length_to_le_bytes [simp]: "length (to_le_bytes n) = 8"
  by (simp add: to_le_bytes_def)

lemma to_le_bytes_inject: "to_le_bytes a = to_le_bytes b \<longleftrightarrow> a = b"
proof
  assume eq: "to_le_bytes a = to_le_bytes b"
  have "unat a div 256 ^ i mod 256 = unat b div 256 ^ i mod 256" if "i < 8" for i
  proof -
    have "(char_of (unat a div 256 ^ i) :: char) = char_of (unat b div 256 ^ i)"
      using eq that by (auto simp: to_le_bytes_def)
    then show ?thesis by (metis of_char_of)
  qed
  then have "unat a = unat b"
    by (rule base256_inject [OF unat_u64_less unat_u64_less])
  then show "a = b" by (rule unsigned_word_eqI)
qed simp

section \<open>Properties of the chain\<close>

text \<open>
  C28. An entry that \<open>build_entry\<close> returns verifies against the digest it was built on: the chain
  check accepts every entry the node makes.
\<close>

theorem build_entry_verifies:
  assumes "build_entry C now t prev ids leader sec = Inr e"
  shows "verify_chain C prev e = Inr True"
  using build_entry_Inr [OF assms] by (simp add: verify_chain_True)

text \<open>The input of an entry's digest, and those of a run.\<close>

definition poh_input :: "hash \<Rightarrow> tick \<Rightarrow> hash \<Rightarrow> validator_id \<Rightarrow> bytes" where
  "poh_input p t r l = p @ to_le_bytes t @ r @ l"

definition chain_inputs :: "poh_entry list \<Rightarrow> bytes list" where
  "chain_inputs es = map (\<lambda>e. poh_input (pe_prev_hash e) (pe_tick e) (pe_tx_root e) (pe_leader_id e)) es"

lemma poh_hash_inject:
  assumes "hex_laws C" and "\<not> collision_among C [poh_input p t r l, poh_input p' t' r' l']" and "length p = length p'" and "length r = length r'"
    and "poh_hash C p t r l = poh_hash C p' t' r' l'"
  shows "p = p' \<and> t = t' \<and> r = r' \<and> l = l'"
proof -
  have "cl_blake3 C (poh_input p t r l) = cl_blake3 C (poh_input p' t' r' l')"
    using assms(5) by (simp add: poh_hash_def blake3_hex_def hex_encode_inject [OF assms(1)] poh_input_def)
  then have "poh_input p t r l = poh_input p' t' r' l'" using blake3_inject [OF assms(2)] by simp
  then show ?thesis using assms(3,4) by (simp add: poh_input_def to_le_bytes_inject)
qed

definition entry_content :: "poh_entry \<Rightarrow> hash \<times> tick \<times> hash \<times> validator_id \<times> hash" where
  "entry_content e = (pe_prev_hash e, pe_tick e, pe_tx_root e, pe_leader_id e, pe_hash e)"

lemma length_poh_hash: "hex_laws C \<Longrightarrow> length (poh_hash C p t r l) = 64"
  by (simp add: poh_hash_def length_blake3_hex)

lemma chain_end_length:
  "hex_laws C \<Longrightarrow> length prev = 64 \<Longrightarrow> chain_from C prev es \<Longrightarrow> length (chain_end prev es) = 64"
  by (induction es arbitrary: prev) (auto simp: verify_chain_True length_poh_hash)

text \<open>
  C19. The last digest of a verified run of entries determines what the run hashes: two runs of the
  same length from the same 64-character digest that end in the same digest agree in every entry's
  predecessor, tick, transaction root, leader and digest, or two of the inputs hashed for the two
  runs collide.  Not determined are what no digest covers: the leader's signature and the wall clock
  of an entry and its list of transaction ids beyond their root.  That the runs are equally long is
  assumed.
\<close>

theorem chain_anchor_binding:
  assumes "hex_laws C" and "length prev = 64" and "length es = length fs"
    and "chain_from C prev es" and "chain_from C prev fs"
    and "chain_end prev es = chain_end prev fs"
  shows "map entry_content es = map entry_content fs
    \<or> collision_among C (chain_inputs es @ chain_inputs fs)"
proof (cases "collision_among C (chain_inputs es @ chain_inputs fs)")
  case False
  have "map entry_content es = map entry_content fs"
    using False assms(3-6)
  proof (induction es arbitrary: fs rule: rev_induct)
    case Nil
    then show ?case by simp
  next
    case (snoc e es)
    then obtain gs g where fs: "fs = gs @ [g]" "length gs = length es"
      by (metis length_append_singleton length_Suc_conv_rev)
    let ?p = "chain_end prev es" and ?q = "chain_end prev gs"
    have ce: "chain_from C prev es" "chain_from C prev gs"
      and e: "verify_chain C ?p e = Inr True" and g: "verify_chain C ?q g = Inr True"
      and h: "pe_hash e = pe_hash g"
      using snoc.prems fs by (auto simp: chain_from_append chain_end_append)
    have len: "length ?p = length ?q" "length (pe_tx_root e) = length (pe_tx_root g)"
      using chain_end_length [OF assms(1,2)] ce e g merkle_root_length [OF assms(1)]
      by (auto simp: verify_chain_True)
    have "poh_hash C ?p (pe_tick e) (pe_tx_root e) (pe_leader_id e) =
        poh_hash C ?q (pe_tick g) (pe_tx_root g) (pe_leader_id g)"
      using e g h by (simp add: verify_chain_True)
    moreover have "\<not> collision_among C [poh_input ?p (pe_tick e) (pe_tx_root e) (pe_leader_id e),
        poh_input ?q (pe_tick g) (pe_tx_root g) (pe_leader_id g)]"
      using e g fs by (intro collision_mono [OF snoc.prems(1)]) (simp add: chain_inputs_def verify_chain_True)
    ultimately have "?p = ?q \<and> pe_tick e = pe_tick g \<and> pe_tx_root e = pe_tx_root g \<and> pe_leader_id e = pe_leader_id g"
      using poh_hash_inject [OF assms(1) _ len] by blast
    moreover have "\<not> collision_among C (chain_inputs es @ chain_inputs gs)"
      using fs by (intro collision_mono [OF snoc.prems(1)]) (auto simp: chain_inputs_def)
    moreover from calculation have "map entry_content es = map entry_content gs"
      using snoc.IH [of gs] fs(2) ce by simp
    moreover have "entry_content e = entry_content g"
      using calculation e g h by (simp add: entry_content_def verify_chain_True)
    ultimately show ?case by (simp add: fs(1))
  qed
  then show ?thesis ..
qed simp

end
