(* ===== verification/Storage.thy ===== *)
theory Storage
  imports Poh "HOL-Library.Char_ord" "HOL-Library.List_Lexorder" "HOL-Library.Sublist"
begin

text \<open>
  \<open>crates/aggora-storage/src/lib.rs\<close>: the typed wrapper over the eight sled trees.  The database
  (\<open>sled\<close>), the JSON codec (\<open>serde_json\<close>) and the file system are the fields of \<open>store_lib\<close>, a
  parameter: a tree is a value of an abstract type \<open>'t\<close>, a stored value of an abstract type \<open>'b\<close>,
  every operation may fail with a message, and a failed write leaves the trees written before it
  as they are.  \<open>store_laws\<close> names what the theorems rely on of their documented behaviour.
\<close>

section \<open>The libraries\<close>

record snapshot =
  sn_iteration_id :: iteration_id
  sn_tick :: tick
  sn_timestamp :: timestamp
  sn_parameters :: system_parameters
  sn_system_state :: system_state
  sn_wallets :: "wallet list"
  sn_poh_anchor :: "hash option"

record ('t, 'b) store_lib =
  sl_open :: "bytes \<Rightarrow> bytes \<Rightarrow> bytes + 't"
  sl_get :: "'t \<Rightarrow> bytes \<Rightarrow> bytes + 'b option"
  sl_insert :: "'t \<Rightarrow> bytes \<Rightarrow> 'b \<Rightarrow> bytes + 't"
  sl_remove :: "'t \<Rightarrow> bytes \<Rightarrow> bytes + 't"
  sl_iter :: "'t \<Rightarrow> (bytes + (bytes \<times> 'b)) list"
  sl_scan_prefix :: "'t \<Rightarrow> bytes \<Rightarrow> (bytes + (bytes \<times> 'b)) list"
  sl_flush :: "'t list \<Rightarrow> bytes + unit"
  sl_create_dir_all :: "bytes \<Rightarrow> bytes + unit"
  sl_write_snapshot :: "bytes \<Rightarrow> snapshot \<Rightarrow> bytes + unit"
  sl_raw :: "bytes \<Rightarrow> 'b"
  sl_from_utf8 :: "'b \<Rightarrow> bytes + bytes"
  js_wallet :: "wallet \<Rightarrow> bytes + 'b"
  jd_wallet :: "'b \<Rightarrow> bytes + wallet"
  js_operator :: "operator \<Rightarrow> bytes + 'b"
  jd_operator :: "'b \<Rightarrow> bytes + operator"
  js_validator :: "validator \<Rightarrow> bytes + 'b"
  jd_validator :: "'b \<Rightarrow> bytes + validator"
  js_transaction :: "transaction \<Rightarrow> bytes + 'b"
  jd_transaction :: "'b \<Rightarrow> bytes + transaction"
  js_poh_entry :: "poh_entry \<Rightarrow> bytes + 'b"
  jd_poh_entry :: "'b \<Rightarrow> bytes + poh_entry"
  js_commit :: "iteration_commit \<Rightarrow> bytes + 'b"
  jd_commit :: "'b \<Rightarrow> bytes + iteration_commit"
  js_state :: "system_state \<Rightarrow> bytes + 'b"
  jd_state :: "'b \<Rightarrow> bytes + system_state"
  js_parameters :: "system_parameters \<Rightarrow> bytes + 'b"
  jd_parameters :: "'b \<Rightarrow> bytes + system_parameters"

section \<open>The storage handle\<close>

record 't coin_storage =
  cs_wallets :: 't
  cs_operators :: 't
  cs_validators :: 't
  cs_transactions :: 't
  cs_poh_log :: 't
  cs_tx_by_wallet :: 't
  cs_iterations :: 't
  cs_system :: 't
  cs_snapshot_path :: bytes

definition storage_open ::
  "('t, 'b) store_lib \<Rightarrow> bytes \<Rightarrow> bytes \<Rightarrow> bytes + 't coin_storage"
where
  "storage_open E db_path snapshot_path =
     and_then (sl_open E db_path ''wallets'') (\<lambda>w.
     and_then (sl_open E db_path ''operators'') (\<lambda>o'.
     and_then (sl_open E db_path ''validators'') (\<lambda>v.
     and_then (sl_open E db_path ''transactions'') (\<lambda>t.
     and_then (sl_open E db_path ''poh_log'') (\<lambda>p.
     and_then (sl_open E db_path ''tx_by_wallet'') (\<lambda>x.
     and_then (sl_open E db_path ''iterations'') (\<lambda>i.
     and_then (sl_open E db_path ''system'') (\<lambda>s.
     and_then (sl_create_dir_all E snapshot_path) (\<lambda>_.
       Inr \<lparr>cs_wallets = w, cs_operators = o', cs_validators = v, cs_transactions = t,
            cs_poh_log = p, cs_tx_by_wallet = x, cs_iterations = i, cs_system = s,
            cs_snapshot_path = snapshot_path\<rparr>)))))))))"

definition storage_flush :: "('t, 'b) store_lib \<Rightarrow> ('t coin_storage, bytes, unit) comp" where
  "storage_flush E = (\<lambda>st. liftE (sl_flush E
     [cs_wallets st, cs_operators st, cs_validators st, cs_transactions st,
      cs_poh_log st, cs_tx_by_wallet st, cs_iterations st, cs_system st]) st)"

section \<open>JSON values in trees\<close>

definition put_json ::
  "('t, 'b) store_lib \<Rightarrow> ('v \<Rightarrow> bytes + 'b) \<Rightarrow> 't \<Rightarrow> bytes \<Rightarrow> 'v \<Rightarrow> bytes + 't"
where
  "put_json E enc tree key v = and_then (enc v) (sl_insert E tree key)"

definition get_json ::
  "('t, 'b) store_lib \<Rightarrow> ('b \<Rightarrow> bytes + 'v) \<Rightarrow> 't \<Rightarrow> bytes \<Rightarrow> bytes + 'v option"
where
  "get_json E dec tree key =
     and_then (sl_get E tree key) (\<lambda>r.
       case r of
         None \<Rightarrow> Inr None
       | Some b \<Rightarrow> and_then (map_err (\<lambda>_. ''decode sled JSON value'') (dec b)) (\<lambda>v. Inr (Some v)))"

definition scan_values ::
  "('t, 'b) store_lib \<Rightarrow> ('b \<Rightarrow> bytes + 'v) \<Rightarrow> 't \<Rightarrow> bytes + 'v list"
where
  "scan_values E dec tree =
     collect_results (map (\<lambda>item. and_then item (\<lambda>kv. dec (snd kv))) (sl_iter E tree))"

section \<open>Wallets, operators and validators\<close>

definition get_wallet :: "('t, 'b) store_lib \<Rightarrow> 't coin_storage \<Rightarrow> wallet_id \<Rightarrow> bytes + wallet option" where
  "get_wallet E st wid = get_json E (jd_wallet E) (cs_wallets st) wid"

definition put_wallet :: "('t, 'b) store_lib \<Rightarrow> wallet \<Rightarrow> ('t coin_storage, bytes, unit) comp" where
  "put_wallet E w st =
     (case put_json E (js_wallet E) (cs_wallets st) (w_id w) w of
        Inl e \<Rightarrow> (Inl e, st) | Inr t \<Rightarrow> (Inr (), st\<lparr>cs_wallets := t\<rparr>))"

definition remove_wallet :: "('t, 'b) store_lib \<Rightarrow> wallet_id \<Rightarrow> ('t coin_storage, bytes, unit) comp" where
  "remove_wallet E wid st =
     (case sl_remove E (cs_wallets st) wid of
        Inl e \<Rightarrow> (Inl e, st) | Inr t \<Rightarrow> (Inr (), st\<lparr>cs_wallets := t\<rparr>))"

definition list_wallets :: "('t, 'b) store_lib \<Rightarrow> 't coin_storage \<Rightarrow> bytes + wallet list" where
  "list_wallets E st = scan_values E (jd_wallet E) (cs_wallets st)"

definition put_operator :: "('t, 'b) store_lib \<Rightarrow> operator \<Rightarrow> ('t coin_storage, bytes, unit) comp" where
  "put_operator E op st =
     (case put_json E (js_operator E) (cs_operators st) (op_id op) op of
        Inl e \<Rightarrow> (Inl e, st) | Inr t \<Rightarrow> (Inr (), st\<lparr>cs_operators := t\<rparr>))"

definition get_operator :: "('t, 'b) store_lib \<Rightarrow> 't coin_storage \<Rightarrow> operator_id \<Rightarrow> bytes + operator option" where
  "get_operator E st oid = get_json E (jd_operator E) (cs_operators st) oid"

definition list_operators :: "('t, 'b) store_lib \<Rightarrow> 't coin_storage \<Rightarrow> bytes + operator list" where
  "list_operators E st = scan_values E (jd_operator E) (cs_operators st)"

definition put_validator :: "('t, 'b) store_lib \<Rightarrow> validator \<Rightarrow> ('t coin_storage, bytes, unit) comp" where
  "put_validator E v st =
     (case put_json E (js_validator E) (cs_validators st) (val_id v) v of
        Inl e \<Rightarrow> (Inl e, st) | Inr t \<Rightarrow> (Inr (), st\<lparr>cs_validators := t\<rparr>))"

definition list_validators :: "('t, 'b) store_lib \<Rightarrow> 't coin_storage \<Rightarrow> bytes + validator list" where
  "list_validators E st = scan_values E (jd_validator E) (cs_validators st)"

section \<open>Transactions and the wallet index\<close>

definition index_key :: "wallet_id \<Rightarrow> tick \<Rightarrow> hash \<Rightarrow> bytes" where
  "index_key wid tick txid = wid @ '':'' @ pad_left 20 (show_u64 tick) @ '':'' @ txid"

fun put_index ::
  "('t, 'b) store_lib \<Rightarrow> hash \<Rightarrow> tick \<Rightarrow> wallet_id list \<Rightarrow> ('t coin_storage, bytes, unit) comp"
where
  "put_index E txid tick [] st = (Inr (), st)"
| "put_index E txid tick (wid # wids) st =
     (case sl_insert E (cs_tx_by_wallet st) (index_key wid tick txid) (sl_raw E txid) of
        Inl e \<Rightarrow> (Inl e, st)
      | Inr t \<Rightarrow> put_index E txid tick wids (st\<lparr>cs_tx_by_wallet := t\<rparr>))"

definition put_transaction ::
  "('t, 'b) store_lib \<Rightarrow> transaction \<Rightarrow> tick \<Rightarrow> ('t coin_storage, bytes, unit) comp"
where
  "put_transaction E tx tick st =
     (case put_json E (js_transaction E) (cs_transactions st) (tx_id tx) tx of
        Inl e \<Rightarrow> (Inl e, st)
      | Inr t \<Rightarrow> put_index E (tx_id tx) tick (wallet_ids tx) (st\<lparr>cs_transactions := t\<rparr>))"

definition get_transaction :: "('t, 'b) store_lib \<Rightarrow> 't coin_storage \<Rightarrow> hash \<Rightarrow> bytes + transaction option" where
  "get_transaction E st txid = get_json E (jd_transaction E) (cs_transactions st) txid"

definition list_transactions_for_wallet ::
  "('t, 'b) store_lib \<Rightarrow> 't coin_storage \<Rightarrow> wallet_id \<Rightarrow> nat \<Rightarrow> bytes + transaction list"
where
  "list_transactions_for_wallet E st wid limit =
     and_then (collect_results
                 (map (\<lambda>item. and_then item (\<lambda>kv. sl_from_utf8 E (snd kv)))
                    (sl_scan_prefix E (cs_tx_by_wallet st) (wid @ '':''))))
       (\<lambda>tx_ids.
          and_then (collect_results
                      (map (get_transaction E st) (take limit (rev (sort tx_ids)))))
            (\<lambda>txs. Inr (List.map_filter id txs)))"

section \<open>The proof-of-history log and iterations\<close>

definition to_be_bytes :: "u64 \<Rightarrow> bytes" where
  "to_be_bytes n = rev (to_le_bytes n)"

definition put_poh_entry :: "('t, 'b) store_lib \<Rightarrow> poh_entry \<Rightarrow> ('t coin_storage, bytes, unit) comp" where
  "put_poh_entry E entry st =
     (case put_json E (js_poh_entry E) (cs_poh_log st) (to_be_bytes (pe_tick entry)) entry of
        Inl e \<Rightarrow> (Inl e, st) | Inr t \<Rightarrow> (Inr (), st\<lparr>cs_poh_log := t\<rparr>))"

definition latest_poh_entries ::
  "('t, 'b) store_lib \<Rightarrow> 't coin_storage \<Rightarrow> nat \<Rightarrow> bytes + poh_entry list"
where
  "latest_poh_entries E st limit =
     collect_results (map (\<lambda>item. and_then item (\<lambda>kv. jd_poh_entry E (snd kv)))
       (take limit (rev (sl_iter E (cs_poh_log st)))))"

definition put_iteration ::
  "('t, 'b) store_lib \<Rightarrow> iteration_commit \<Rightarrow> ('t coin_storage, bytes, unit) comp"
where
  "put_iteration E commit st =
     (case put_json E (js_commit E) (cs_iterations st) (to_be_bytes (ic_iteration_id commit)) commit of
        Inl e \<Rightarrow> (Inl e, st) | Inr t \<Rightarrow> (Inr (), st\<lparr>cs_iterations := t\<rparr>))"

definition get_iteration ::
  "('t, 'b) store_lib \<Rightarrow> 't coin_storage \<Rightarrow> iteration_id \<Rightarrow> bytes + iteration_commit option"
where
  "get_iteration E st i = get_json E (jd_commit E) (cs_iterations st) (to_be_bytes i)"

definition list_iterations :: "('t, 'b) store_lib \<Rightarrow> 't coin_storage \<Rightarrow> bytes + iteration_commit list" where
  "list_iterations E st = scan_values E (jd_commit E) (cs_iterations st)"

section \<open>System state, parameters, history and snapshots\<close>

definition load_state :: "('t, 'b) store_lib \<Rightarrow> 't coin_storage \<Rightarrow> bytes + system_state option" where
  "load_state E st = get_json E (jd_state E) (cs_system st) ''state''"

definition store_state :: "('t, 'b) store_lib \<Rightarrow> system_state \<Rightarrow> ('t coin_storage, bytes, unit) comp" where
  "store_state E sys st =
     (case put_json E (js_state E) (cs_system st) ''state'' sys of
        Inl e \<Rightarrow> (Inl e, st) | Inr t \<Rightarrow> (Inr (), st\<lparr>cs_system := t\<rparr>))"

definition load_parameters :: "('t, 'b) store_lib \<Rightarrow> 't coin_storage \<Rightarrow> bytes + system_parameters option" where
  "load_parameters E st = get_json E (jd_parameters E) (cs_system st) ''parameters''"

definition store_parameters ::
  "('t, 'b) store_lib \<Rightarrow> system_parameters \<Rightarrow> ('t coin_storage, bytes, unit) comp"
where
  "store_parameters E params st =
     (case put_json E (js_parameters E) (cs_system st) ''parameters'' params of
        Inl e \<Rightarrow> (Inl e, st) | Inr t \<Rightarrow> (Inr (), st\<lparr>cs_system := t\<rparr>))"

definition supply_history :: "('t, 'b) store_lib \<Rightarrow> 't coin_storage \<Rightarrow> bytes + supply_point list" where
  "supply_history E st =
     and_then (list_iterations E st) (\<lambda>commits. Inr (map (\<lambda>c.
       \<lparr>sup_iteration = ic_iteration_id c, sup_supply = ic_post_supply c,
        sup_burned = ic_burned c, sup_faucet_from_mint = ic_faucet_from_mint c\<rparr>) commits))"

definition gini_history :: "('t, 'b) store_lib \<Rightarrow> 't coin_storage \<Rightarrow> bytes + gini_point list" where
  "gini_history E st =
     and_then (list_iterations E st) (\<lambda>commits. Inr (map (\<lambda>c.
       \<lparr>gin_iteration = ic_iteration_id c, gin_gini = ic_snapshot_gini c\<rparr>) commits))"

definition write_snapshot ::
  "('t, 'b) store_lib \<Rightarrow> iteration_id \<Rightarrow> snapshot \<Rightarrow> ('t coin_storage, bytes, bytes) comp"
where
  "write_snapshot E iteration_id payload = (\<lambda>st.
     let path = cs_snapshot_path st @ ''/iter_'' @ show_u64 iteration_id @ ''.json''
     in liftE (and_then (sl_create_dir_all E (cs_snapshot_path st)) (\<lambda>_.
               and_then (sl_write_snapshot E path payload) (\<lambda>_. Inr path))) st)"

end
