(* ===== verification/Economy.thy ===== *)
theory Economy
  imports Crypto
begin

text \<open>
  \<open>crates/aggora-economy/src/lib.rs\<close>: the Gini coefficient and the economics of one iteration.
  \<open>execute_iteration\<close> is one long Rust function; it is composed here from one definition per
  paragraph of its body, in the order of the body.  A vector of pairs built in the order of the
  wallets is split into the wallet ids and the list of amounts until the commit is assembled.  A
  panic (\<open>f64::clamp\<close> with its bounds in the wrong order) is \<open>None\<close>, an \<open>Err\<close> is \<open>Some (Inl _)\<close>.
  Sums of \<open>u64\<close> and \<open>u128\<close> iterators wrap around, as in a release build.
\<close>

section \<open>Gini coefficient\<close>

definition micro_seed :: "system_parameters \<Rightarrow> u64" where
  "micro_seed parameters = sat_mul (ep_initial_seed_agc (p_economy parameters)) MICRO_AGC_PER_AGC"

text \<open>\<open>x.clamp(0.0, 1.0)\<close>, whose bounds are in order (\<open>clamp_unit\<close> below).\<close>

definition f64_clamp_unit :: "f64 \<Rightarrow> f64" where
  "f64_clamp_unit x =
     (let y = (if f64_lt x f64_zero then f64_zero else x) in if f64_lt f64_one y then f64_one else y)"

lemma f64_one_eq: "f64_one = Fin False (2 ^ 52) (-52)"
  by (simp add: f64_one_def f64_eval)

lemma clamp_unit: "f64_clamp x f64_zero f64_one = Some (f64_clamp_unit x)"
proof -
  have "f64_le f64_zero f64_one"
    by (simp add: f64_le_def f64_one_eq f64_zero_def aligned_def signed_mag_def scale_up_def)
  then show ?thesis by (simp add: f64_clamp_def f64_clamp_unit_def)
qed

text \<open>The two integer sums, and the coefficient computed from them.\<close>

definition balance_total :: "u64 list \<Rightarrow> u128" where
  "balance_total bs = sum_list (map (\<lambda>b. ucast b) bs)"

definition weighted_total :: "u64 list \<Rightarrow> u128" where
  "weighted_total bs =
     sum_list (map (\<lambda>(idx, b). (of_nat idx + 1) * ucast b) (enumerate 0 bs))"

definition compute_gini_from_balances :: "u64 list \<Rightarrow> f64" where
  "compute_gini_from_balances balances =
     (if balances = [] then f64_zero
      else let bs = sort balances; total = balance_total bs
           in if total = 0 then f64_zero
              else let n = f64_of_nat (length bs); weighted_sum = weighted_total bs
                   in f64_clamp_unit
                        (f64_sub (f64_div (f64_mul (f64_of_nat 2) (f64_of_u128 weighted_sum))
                                          (f64_mul n (f64_of_u128 total)))
                                 (f64_div (f64_add n f64_one) n)))"

definition compute_gini :: "wallet list \<Rightarrow> f64" where
  "compute_gini wallets = compute_gini_from_balances (map w_balance wallets)"

section \<open>Inflation and the adaptive burn rate\<close>

definition iteration_inflation :: "system_state \<Rightarrow> f64" where
  "iteration_inflation state =
     (if 0 < ss_previous_iteration_start_supply state
      then f64_div (f64_sub (f64_of_u64 (ss_previous_iteration_supply state))
                            (f64_of_u64 (ss_previous_iteration_start_supply state)))
                   (f64_of_u64 (ss_previous_iteration_start_supply state))
      else f64_zero)"

definition burn_rate :: "economy_parameters \<Rightarrow> f64 \<Rightarrow> f64 option" where
  "burn_rate ec inflation =
     f64_clamp (f64_add (ep_burn_base ec)
                  (f64_mul (ep_burn_sensitivity ec)
                     (f64_sub inflation (ep_target_inflation_per_iter ec))))
       (ep_burn_min ec) (ep_burn_max ec)"

section \<open>Penalties\<close>

definition max_balance :: "u64 list \<Rightarrow> u64" where
  "max_balance bs = fold max bs 0"

definition penalty_denominator :: "float_lib \<Rightarrow> u64 \<Rightarrow> u64 \<Rightarrow> f64" where
  "penalty_denominator F seed b_max =
     (if 0 < b_max \<and> 0 < seed
      then fl_ln F (f64_add f64_one (f64_div (f64_of_u64 b_max) (f64_of_u64 seed)))
      else f64_zero)"

definition base_penalty :: "float_lib \<Rightarrow> economy_parameters \<Rightarrow> u64 \<Rightarrow> f64 \<Rightarrow> u64 \<Rightarrow> u64" where
  "base_penalty F ec seed denominator balance =
     (if balance = 0 \<or> f64_le denominator f64_epsilon then 0
      else let numerator =
                 fl_ln F (f64_add f64_one (f64_div (f64_of_u64 balance) (f64_of_u64 (max seed 1))))
           in f64_to_u64 (f64_floor (f64_div
                (f64_mul (f64_mul (ep_penalty_rate ec) (f64_of_u64 balance)) numerator) denominator)))"

definition raw_penalties :: "float_lib \<Rightarrow> economy_parameters \<Rightarrow> u64 \<Rightarrow> u64 list \<Rightarrow> u64 list" where
  "raw_penalties F ec seed balances =
     (let denominator = penalty_denominator F seed (max_balance balances)
      in map (\<lambda>b. min (base_penalty F ec seed denominator b) b) balances)"

definition target_penalty :: "economy_parameters \<Rightarrow> u64 \<Rightarrow> u64" where
  "target_penalty ec supply =
     f64_to_u64 (f64_floor (f64_mul (ep_target_penalty_share_of_supply ec) (f64_of_u64 supply)))"

text \<open>Rescaling towards the target when the total is more than a fifth away from it.\<close>

definition scale_penalty :: "u64 \<Rightarrow> u64 \<Rightarrow> u64 \<Rightarrow> u64 \<Rightarrow> u64" where
  "scale_penalty target tot penalty balance =
     min (f64_to_u64 (f64_floor (f64_mul (f64_of_u64 penalty)
            (f64_div (f64_of_u64 target) (f64_of_u64 tot))))) balance"

definition normalize_penalties :: "economy_parameters \<Rightarrow> u64 \<Rightarrow> u64 list \<Rightarrow> u64 list \<Rightarrow> u64 list" where
  "normalize_penalties ec supply balances ps =
     (let tot = sum_list ps; target = target_penalty ec supply
      in if 0 < tot \<and> 0 < target
           \<and> f64_lt (f64_lit 20 100) (f64_div (f64_of_u64 (abs_diff tot target)) (f64_of_u64 target))
         then map2 (scale_penalty target tot) ps balances
         else ps)"

definition penalties :: "float_lib \<Rightarrow> economy_parameters \<Rightarrow> u64 \<Rightarrow> u64 \<Rightarrow> u64 list \<Rightarrow> u64 list" where
  "penalties F ec seed supply balances =
     normalize_penalties ec supply balances (raw_penalties F ec seed balances)"

section \<open>Allocation of the penalty pool\<close>

definition planned_new_wallets :: "growth_parameters \<Rightarrow> u64 \<Rightarrow> u64" where
  "planned_new_wallets gp n =
     min (f64_to_u64 (f64_floor (f64_mul (gp_growth_factor_per_iteration gp) (f64_of_u64 n))))
         (gp_max_new_wallets_per_iter gp)"

record pool_split =
  ps_faucet_needed :: u64
  ps_faucet_from_penalty :: u64
  ps_burned_base :: u64
  ps_redistribution_pool :: u64
  ps_faucet_from_mint :: u64

definition split_pool :: "economy_parameters \<Rightarrow> f64 \<Rightarrow> u64 \<Rightarrow> u64 \<Rightarrow> u64 \<Rightarrow> pool_split" where
  "split_pool ec beta planned seed penalty_total =
     (let faucet_needed = sat_mul planned seed;
          faucet_share_cap =
            f64_to_u64 (f64_floor (f64_mul (ep_faucet_share_of_penalty ec) (f64_of_u64 penalty_total)));
          faucet_from_penalty = min (min faucet_needed faucet_share_cap) penalty_total;
          pool_after_faucet = penalty_total - faucet_from_penalty;
          burned_base = min (f64_to_u64 (f64_floor (f64_mul beta (f64_of_u64 penalty_total)))) pool_after_faucet
      in \<lparr>ps_faucet_needed = faucet_needed, ps_faucet_from_penalty = faucet_from_penalty,
          ps_burned_base = burned_base, ps_redistribution_pool = pool_after_faucet - burned_base,
          ps_faucet_from_mint = sat_sub faucet_needed faucet_from_penalty\<rparr>)"

section \<open>Activity, weights and rewards\<close>

definition raw_activity :: "economy_parameters \<Rightarrow> wallet \<Rightarrow> f64" where
  "raw_activity ec w =
     (if ep_activity_min_tx_count ec \<le> w_iteration_tx_count w
         \<and> ep_activity_min_counterparties ec \<le> of_nat (card (w_iteration_counterparties w))
      then f64_one else f64_zero)"

definition apply_penalty :: "economy_parameters \<Rightarrow> wallet \<Rightarrow> u64 \<Rightarrow> wallet" where
  "apply_penalty ec w p =
     (let lambda = f64_clamp_unit (ep_activity_ema_lambda ec)
      in w\<lparr>w_activity_score := f64_add (f64_mul lambda (raw_activity ec w))
                                 (f64_mul (f64_sub f64_one lambda) (w_activity_score w)),
           w_balance := sat_sub (w_balance w) p\<rparr>)"

definition reward_weight :: "float_lib \<Rightarrow> economy_parameters \<Rightarrow> wallet \<Rightarrow> f64" where
  "reward_weight F ec w =
     (let alpha = f64_add (ep_redistribution_active_min ec)
                    (f64_mul (f64_sub (ep_redistribution_active_max ec) (ep_redistribution_active_min ec))
                             (f64_clamp_unit (w_activity_score w)));
          inverse = (if f64_lt f64_zero (ep_inverse_balance_weight ec)
                     then fl_powf F (f64_add f64_one (f64_of_u64 (w_balance w)))
                            (f64_neg (ep_inverse_balance_weight ec))
                     else f64_one)
      in f64_mul (f64_max alpha f64_zero) inverse)"

definition reward_of :: "u64 \<Rightarrow> f64 \<Rightarrow> f64 \<Rightarrow> u64" where
  "reward_of pool total_weight weight =
     (if 0 < pool \<and> f64_lt f64_zero total_weight
      then f64_to_u64 (f64_floor (f64_div (f64_mul (f64_of_u64 pool) weight) total_weight))
      else 0)"

definition rewards_of :: "u64 \<Rightarrow> f64 list \<Rightarrow> u64 list" where
  "rewards_of pool weights = map (reward_of pool (f64_sum weights)) weights"

definition apply_reward :: "wallet \<Rightarrow> u64 \<Rightarrow> wallet" where
  "apply_reward w r =
     w\<lparr>w_balance := sat_add (w_balance w) r, w_iteration_tx_count := 0, w_iteration_counterparties := {}\<rparr>"

text \<open>The undistributed residual: the wallets, the rewards and the burned amount after it.\<close>

definition settle_residual ::
  "residual_policy \<Rightarrow> u64 \<Rightarrow> u64 \<Rightarrow> wallet list \<Rightarrow> u64 list \<Rightarrow> wallet list \<times> u64 list \<times> u64"
where
  "settle_residual policy residual burned ws rs =
     (case policy of
        BurnResidual \<Rightarrow> (ws, rs, sat_add burned residual)
      | GenesisWallet \<Rightarrow>
          (case ws of
             [] \<Rightarrow> (ws, rs, sat_add burned residual)
           | w # ws' \<Rightarrow>
               (w\<lparr>w_balance := sat_add (w_balance w) residual\<rparr> # ws',
                (case rs of [] \<Rightarrow> [] | r # rs' \<Rightarrow> sat_add r residual # rs'), burned)))"

section \<open>Faucet wallets\<close>

definition faucet_pubkey :: "crypto_lib \<Rightarrow> iteration_id \<Rightarrow> nat \<Rightarrow> public_key" where
  "faucet_pubkey C iteration_id idx =
     take 64 (blake3_hex C (''aggora-faucet:'' @ show_u64 iteration_id @ '':'' @ show_nat idx))"

definition faucet_wallet ::
  "crypto_lib \<Rightarrow> system_state \<Rightarrow> operator_id \<Rightarrow> iteration_id \<Rightarrow> u64 \<Rightarrow> nat \<Rightarrow> bytes + wallet"
where
  "faucet_wallet C state operator_id iteration_id seed idx =
     and_then (wallet_id_from_public_key C (faucet_pubkey C iteration_id idx)) (\<lambda>wid.
       Inr \<lparr>w_id = wid, w_pubkey = faucet_pubkey C iteration_id idx, w_balance = seed, w_nonce = 0,
            w_created_at_tick = ss_current_tick state, w_created_at_iteration = iteration_id,
            w_created_by_operator = operator_id, w_iteration_tx_count = 0,
            w_iteration_counterparties = {}, w_last_active_iteration = iteration_id,
            w_activity_score = f64_one\<rparr>)"

definition faucet_wallets ::
  "crypto_lib \<Rightarrow> system_state \<Rightarrow> operator_id \<Rightarrow> iteration_id \<Rightarrow> u64 \<Rightarrow> u64 \<Rightarrow> bytes + wallet list"
where
  "faucet_wallets C state operator_id iteration_id seed planned =
     collect_results (map (faucet_wallet C state operator_id iteration_id seed) [0..<unat planned])"

section \<open>One iteration\<close>

record iteration_result =
  ir_commit :: iteration_commit
  ir_wallets :: "wallet list"

definition iteration_commit_hash :: "crypto_lib \<Rightarrow> iteration_commit \<Rightarrow> bytes + bytes" where
  "iteration_commit_hash C c = hash_serializable C
     (CommitPayload (ic_iteration_id c) (ic_triggered_at_tick c) (ic_snapshot_supply c)
        (ic_snapshot_n_wallets c) (ic_snapshot_gini c) (ic_inflation c) (ic_burn_rate c)
        (ic_penalties c) (ic_rewards c) (ic_burned c) (ic_faucet_from_penalty c)
        (ic_faucet_from_mint c) (ic_new_wallets c) (ic_post_supply c))"

text \<open>Penalties, activity, redistribution and residual: everything between snapshot and faucet.\<close>

record redistribution =
  rd_penalties :: "u64 list"
  rd_split :: pool_split
  rd_wallets :: "wallet list"
  rd_rewards :: "u64 list"
  rd_burned :: u64

definition redistribute ::
  "float_lib \<Rightarrow> system_parameters \<Rightarrow> f64 \<Rightarrow> wallet list \<Rightarrow> redistribution"
where
  "redistribute F parameters beta wallets =
     (let ec = p_economy parameters;
          seed = micro_seed parameters;
          balances = map w_balance wallets;
          pens = penalties F ec seed (sum_list balances) balances;
          split = split_pool ec beta
                    (planned_new_wallets (p_growth parameters) (of_nat (length wallets))) seed (sum_list pens);
          pool = ps_redistribution_pool split;
          wallets1 = map2 (apply_penalty ec) wallets pens;
          rs = rewards_of pool (map (reward_weight F ec) wallets1);
          wallets2 = map2 apply_reward wallets1 rs;
          residual = sat_sub pool (fold (\<lambda>r d. sat_add d r) rs 0);
          (wallets3, rs3, burned) =
            settle_residual (ep_residual_policy ec) residual (ps_burned_base split) wallets2 rs
      in \<lparr>rd_penalties = pens, rd_split = split, rd_wallets = wallets3, rd_rewards = rs3,
          rd_burned = burned\<rparr>)"

definition execute_iteration ::
  "float_lib \<Rightarrow> crypto_lib \<Rightarrow> wallet list \<Rightarrow> system_parameters \<Rightarrow> system_state \<Rightarrow> operator_id
     \<Rightarrow> (bytes + iteration_result) option"
where
  "execute_iteration F C wallets parameters state operator_id =
     (let iteration_id = ss_current_iteration state + 1;
          n_wallets = of_nat (length wallets);
          inflation = iteration_inflation state;
          seed = micro_seed parameters;
          planned = planned_new_wallets (p_growth parameters) n_wallets
      in case burn_rate (p_economy parameters) inflation of
           None \<Rightarrow> None
         | Some beta \<Rightarrow>
             let rd = redistribute F parameters beta wallets
             in Some (and_then (faucet_wallets C state operator_id iteration_id seed planned) (\<lambda>new.
                  let wallets' = rd_wallets rd @ new;
                      commit =
                        \<lparr>ic_tx_id = [], ic_iteration_id = iteration_id,
                         ic_triggered_at_tick = ss_current_tick state,
                         ic_snapshot_supply = sum_list (map w_balance wallets),
                         ic_snapshot_n_wallets = n_wallets,
                         ic_snapshot_gini = compute_gini wallets,
                         ic_inflation = inflation, ic_burn_rate = beta,
                         ic_penalties = zip (map w_id wallets) (rd_penalties rd),
                         ic_rewards = zip (map w_id wallets) (rd_rewards rd),
                         ic_burned = rd_burned rd,
                         ic_faucet_from_penalty = ps_faucet_from_penalty (rd_split rd),
                         ic_faucet_from_mint = ps_faucet_from_mint (rd_split rd),
                         ic_new_wallets = map w_id new,
                         ic_post_supply = sum_list (map w_balance wallets'),
                         ic_validator_sigs = []\<rparr>
                  in and_then (iteration_commit_hash C commit) (\<lambda>h.
                       Inr \<lparr>ir_commit = commit\<lparr>ic_tx_id := h\<rparr>, ir_wallets = wallets'\<rparr>))))"

end
