(* ===== verification/Economy_Props.thy ===== *)
theory Economy_Props
  imports Economy Crypto_Props
begin

text \<open>
  Integer accounting of one iteration: penalties are covered by the balances they are taken from,
  the penalty pool is split without remainder, and the supply equation of the specification (D.11)
  holds whenever the rewards fit into the redistribution pool.  When they do is a question about
  floating-point rounding, answered in \<open>Rewards\<close>.
\<close>

abbreviation usum :: "'a::len word list \<Rightarrow> nat" where
  "usum xs \<equiv> sum_list (map unat xs)"

section \<open>Sums\<close>

lemma usum_le_all2: "list_all2 (\<le>) xs ys \<Longrightarrow> usum xs \<le> usum (ys :: 'a::len word list)"
  by (induction rule: list_all2_induct) (auto simp: word_le_nat_alt)

lemma unat_sum_list: "usum xs < 2 ^ LENGTH('a) \<Longrightarrow> unat (sum_list xs) = usum (xs :: 'a::len word list)"
  by (rule unat_sum_list_small)

lemma unat_sat_fold:
  "unat (fold (\<lambda>r d. sat_add d r) rs d) = min (2 ^ LENGTH('a) - 1) (unat d + usum (rs :: 'a::len word list))"
proof (induction rs arbitrary: d)
  case Nil
  have "unat d \<le> 2 ^ LENGTH('a) - 1" using unsigned_less [of d, where ?'a = nat] by linarith
  then show ?case by (simp add: min_absorb2)
next
  case (Cons r rs)
  then show ?case by (simp add: unat_sat_add)
qed

lemma usum_member_le: "x \<in> set xs \<Longrightarrow> unat x \<le> usum (xs :: 'a::len word list)"
  by (rule member_le_sum_list) simp_all

section \<open>Penalties\<close>

lemma raw_penalties_bounded: "list_all2 (\<le>) (raw_penalties F ec seed bs) bs"
  by (simp add: raw_penalties_def list_all2_conv_all_nth)

lemma normalize_penalties_bounded:
  "list_all2 (\<le>) ps bs \<Longrightarrow> list_all2 (\<le>) (normalize_penalties ec supply bs ps) bs"
  by (auto simp: normalize_penalties_def scale_penalty_def Let_def list_all2_conv_all_nth)

lemma penalties_bounded: "list_all2 (\<le>) (penalties F ec seed supply bs) bs"
  by (simp add: penalties_def normalize_penalties_bounded raw_penalties_bounded)

lemma length_penalties [simp]: "length (penalties F ec seed supply bs) = length bs"
  using penalties_bounded list_all2_lengthD by blast

section \<open>The penalty pool\<close>

lemma split_pool_exact:
  fixes ec beta planned seed total
  defines "sp \<equiv> split_pool ec beta planned seed total"
  shows "unat (ps_faucet_from_penalty sp) + unat (ps_burned_base sp) + unat (ps_redistribution_pool sp)
     = unat total"
    and "unat (ps_faucet_from_mint sp) + unat (ps_faucet_from_penalty sp) = unat (ps_faucet_needed sp)"
proof -
  have le: "ps_faucet_from_penalty sp \<le> total" "ps_faucet_from_penalty sp \<le> ps_faucet_needed sp"
    "ps_burned_base sp \<le> total - ps_faucet_from_penalty sp"
    by (simp_all add: sp_def split_pool_def Let_def min.coboundedI1)
  have rp: "ps_redistribution_pool sp = total - ps_faucet_from_penalty sp - ps_burned_base sp"
    by (simp add: sp_def split_pool_def Let_def)
  show "unat (ps_faucet_from_penalty sp) + unat (ps_burned_base sp) + unat (ps_redistribution_pool sp)
     = unat total"
    using le(1,3) by (simp add: rp unat_sub_small word_le_nat_alt)
  have "ps_faucet_from_mint sp = sat_sub (ps_faucet_needed sp) (ps_faucet_from_penalty sp)"
    by (simp add: sp_def split_pool_def Let_def)
  then show "unat (ps_faucet_from_mint sp) + unat (ps_faucet_from_penalty sp) = unat (ps_faucet_needed sp)"
    using le(2) by (simp add: unat_sat_sub word_le_nat_alt)
qed

section \<open>Redistribution\<close>

definition penalized :: "float_lib \<Rightarrow> system_parameters \<Rightarrow> wallet list \<Rightarrow> wallet list" where
  "penalized F parameters wallets =
     (let ec = p_economy parameters; balances = map w_balance wallets
      in map2 (apply_penalty ec) wallets
           (penalties F ec (micro_seed parameters) (sum_list balances) balances))"

definition reward_weights :: "float_lib \<Rightarrow> system_parameters \<Rightarrow> wallet list \<Rightarrow> f64 list" where
  "reward_weights F parameters wallets =
     map (reward_weight F (p_economy parameters)) (penalized F parameters wallets)"

definition penalty_sum :: "float_lib \<Rightarrow> system_parameters \<Rightarrow> wallet list \<Rightarrow> u64" where
  "penalty_sum F parameters wallets =
     sum_list (penalties F (p_economy parameters) (micro_seed parameters)
       (sum_list (map w_balance wallets)) (map w_balance wallets))"

definition iteration_split :: "float_lib \<Rightarrow> system_parameters \<Rightarrow> f64 \<Rightarrow> wallet list \<Rightarrow> pool_split" where
  "iteration_split F parameters beta wallets =
     split_pool (p_economy parameters) beta
       (planned_new_wallets (p_growth parameters) (of_nat (length wallets)))
       (micro_seed parameters) (penalty_sum F parameters wallets)"

definition raw_rewards :: "float_lib \<Rightarrow> system_parameters \<Rightarrow> f64 \<Rightarrow> wallet list \<Rightarrow> u64 list" where
  "raw_rewards F parameters beta wallets =
     rewards_of (ps_redistribution_pool (iteration_split F parameters beta wallets))
       (reward_weights F parameters wallets)"

lemma rewards_of_length [simp]: "length (rewards_of pool ws) = length ws"
  by (simp add: rewards_of_def)

lemma length_penalized [simp]: "length (penalized F parameters wallets) = length wallets"
  by (simp add: penalized_def Let_def)

lemma length_raw_rewards [simp]: "length (raw_rewards F parameters beta wallets) = length wallets"
  by (simp add: raw_rewards_def reward_weights_def)

lemma redistribute_parts:
  fixes F parameters beta wallets
  defines "sp \<equiv> iteration_split F parameters beta wallets"
    and "rs \<equiv> raw_rewards F parameters beta wallets"
  defines "settled \<equiv> settle_residual (ep_residual_policy (p_economy parameters))
     (sat_sub (ps_redistribution_pool sp) (fold (\<lambda>r d. sat_add d r) rs 0)) (ps_burned_base sp)
     (map2 apply_reward (penalized F parameters wallets) rs) rs"
  shows "rd_split (redistribute F parameters beta wallets) = sp"
    and "rd_wallets (redistribute F parameters beta wallets) = fst settled"
    and "rd_rewards (redistribute F parameters beta wallets) = fst (snd settled)"
    and "rd_burned (redistribute F parameters beta wallets) = snd (snd settled)"
  unfolding settled_def rs_def sp_def
  by (simp_all add: redistribute_def penalized_def iteration_split_def raw_rewards_def
      reward_weights_def penalty_sum_def Let_def split: prod.splits)

text \<open>What the three passes do to the balances, when nothing saturates.\<close>

lemma penalized_balances:
  assumes "list_all2 (\<le>) ps (map w_balance ws)"
  shows "usum (map w_balance (map2 (apply_penalty ec) ws ps)) + usum ps = usum (map w_balance ws)"
  using assms
proof (induction ps "map w_balance ws" arbitrary: ws rule: list_all2_induct)
  case Nil
  then show ?case by simp
next
  case (Cons p ps b bs)
  then obtain w ws' where ws: "ws = w # ws'" "b = w_balance w" "bs = map w_balance ws'"
    by (cases ws) auto
  then have "usum (map w_balance (map2 (apply_penalty ec) ws' ps)) + usum ps = usum (map w_balance ws')"
    using Cons by blast
  moreover have "w_balance (apply_penalty ec w p) = sat_sub (w_balance w) p"
    by (simp add: apply_penalty_def Let_def)
  ultimately show ?case using Cons(1) ws by (simp add: unat_sat_sub word_le_nat_alt)
qed

lemma rewarded_balances:
  "length rs = length ws \<Longrightarrow> usum (map w_balance ws) + usum rs < 2 ^ 64 \<Longrightarrow>
     usum (map w_balance (map2 apply_reward ws rs)) = usum (map w_balance ws) + usum rs"
proof (induction rs ws rule: list_induct2)
  case Nil
  then show ?case by simp
next
  case (Cons r rs w ws)
  then show ?case by (simp add: apply_reward_def unat_sat_add)
qed

lemma settle_residual_accounting:
  assumes "settle_residual policy residual burned ws rs = (ws', rs', burned')"
    and "usum (map w_balance ws) + unat residual + unat burned < 2 ^ 64"
  shows "usum (map w_balance ws') + unat burned' = usum (map w_balance ws) + unat residual + unat burned"
  using assms
  by (auto simp: settle_residual_def unat_sat_add split: residual_policy.splits list.splits)

lemma redistribute_accounting:
  fixes F parameters beta wallets
  defines "sp \<equiv> iteration_split F parameters beta wallets"
  assumes small: "usum (map w_balance wallets) < 2 ^ 64"
    and fit: "usum (raw_rewards F parameters beta wallets) \<le> unat (ps_redistribution_pool sp)"
  shows "usum (map w_balance (rd_wallets (redistribute F parameters beta wallets)))
     + unat (rd_burned (redistribute F parameters beta wallets)) + unat (ps_faucet_from_penalty sp)
     = usum (map w_balance wallets)"
proof -
  let ?ec = "p_economy parameters" and ?bs = "map w_balance wallets"
  let ?ps = "penalties F ?ec (micro_seed parameters) (sum_list ?bs) ?bs"
  let ?ws = "penalized F parameters wallets" and ?rs = "raw_rewards F parameters beta wallets"
  let ?res = "sat_sub (ps_redistribution_pool sp) (fold (\<lambda>r d. sat_add d r) ?rs 0)"
  have pen: "usum (map w_balance ?ws) + usum ?ps = usum ?bs"
    unfolding penalized_def Let_def by (rule penalized_balances [OF penalties_bounded])
  then have psum: "unat (penalty_sum F parameters wallets) = usum ?ps"
    using small unfolding penalty_sum_def by (intro unat_sum_list) simp
  have split: "unat (ps_faucet_from_penalty sp) + unat (ps_burned_base sp)
      + unat (ps_redistribution_pool sp) = usum ?ps"
    unfolding sp_def iteration_split_def psum [symmetric] by (rule split_pool_exact)
  have rew: "usum (map w_balance (map2 apply_reward ?ws ?rs)) = usum (map w_balance ?ws) + usum ?rs"
    using pen split fit small by (intro rewarded_balances) simp_all
  have "usum ?rs < 2 ^ 64" using pen split fit small by simp
  then have res: "unat ?res + usum ?rs = unat (ps_redistribution_pool sp)"
    using fit by (simp add: unat_sat_sub unat_sat_fold)
  obtain ws' rs' burned' where st: "settle_residual (ep_residual_policy ?ec) ?res (ps_burned_base sp)
      (map2 apply_reward ?ws ?rs) ?rs = (ws', rs', burned')" by (metis prod_cases3)
  have "usum (map w_balance ws') + unat burned'
      = usum (map w_balance (map2 apply_reward ?ws ?rs)) + unat ?res + unat (ps_burned_base sp)"
    using rew res pen split small by (intro settle_residual_accounting [OF st]) simp
  moreover have "rd_wallets (redistribute F parameters beta wallets) = ws'"
    and "rd_burned (redistribute F parameters beta wallets) = burned'"
    using st by (simp_all add: redistribute_parts sp_def)
  ultimately show ?thesis using rew res pen split by simp
qed

section \<open>The result of an iteration\<close>

definition iteration_planned :: "system_parameters \<Rightarrow> wallet list \<Rightarrow> u64" where
  "iteration_planned parameters wallets =
     planned_new_wallets (p_growth parameters) (of_nat (length wallets))"

lemma execute_iteration_Inr:
  assumes "execute_iteration F C wallets parameters state op = Some (Inr r)"
  obtains beta new where
    "burn_rate (p_economy parameters) (iteration_inflation state) = Some beta"
    "faucet_wallets C state op (ss_current_iteration state + 1) (micro_seed parameters)
       (iteration_planned parameters wallets) = Inr new"
    "ir_wallets r = rd_wallets (redistribute F parameters beta wallets) @ new"
    "ic_iteration_id (ir_commit r) = ss_current_iteration state + 1"
    "ic_snapshot_supply (ir_commit r) = sum_list (map w_balance wallets)"
    "ic_snapshot_gini (ir_commit r) = compute_gini wallets"
    "ic_burn_rate (ir_commit r) = beta"
    "ic_burned (ir_commit r) = rd_burned (redistribute F parameters beta wallets)"
    "ic_penalties (ir_commit r) =
       zip (map w_id wallets) (rd_penalties (redistribute F parameters beta wallets))"
    "ic_rewards (ir_commit r) =
       zip (map w_id wallets) (rd_rewards (redistribute F parameters beta wallets))"
    "ic_faucet_from_penalty (ir_commit r) =
       ps_faucet_from_penalty (iteration_split F parameters beta wallets)"
    "ic_faucet_from_mint (ir_commit r) =
       ps_faucet_from_mint (iteration_split F parameters beta wallets)"
    "ic_new_wallets (ir_commit r) = map w_id new"
    "ic_post_supply (ir_commit r) = sum_list (map w_balance (ir_wallets r))"
    "iteration_commit_hash C (ir_commit r \<lparr>ic_tx_id := []\<rparr>) = Inr (ic_tx_id (ir_commit r))"
  using assms
  by (auto simp: execute_iteration_def iteration_planned_def Let_def step_simps redistribute_parts(1)
      split: option.splits)

lemma faucet_wallets_balances:
  assumes "faucet_wallets C state op it seed planned = Inr new"
  shows "usum (map w_balance new) = unat planned * unat seed" and "length new = unat planned"
    and "\<forall>w\<in>set new. w_balance w = seed \<and> w_nonce w = 0 \<and> w_created_at_iteration w = it
           \<and> w_last_active_iteration w = it"
proof -
  have len: "length new = unat planned"
    using assms collect_results_Inr [of _ new] unfolding faucet_wallets_def
    by (metis length_map length_upt diff_zero)
  have all: "\<forall>w\<in>set new. w_balance w = seed \<and> w_nonce w = 0 \<and> w_created_at_iteration w = it
           \<and> w_last_active_iteration w = it"
  proof
    fix w assume "w \<in> set new"
    then have "Inr w \<in> Inr ` set new" by (rule imageI)
    also have "Inr ` set new = set (map (faucet_wallet C state op it seed) [0..<unat planned])"
      using assms collect_results_Inr unfolding faucet_wallets_def by (metis list.set_map)
    finally obtain i where "faucet_wallet C state op it seed i = Inr w" by auto
    then show "w_balance w = seed \<and> w_nonce w = 0 \<and> w_created_at_iteration w = it
           \<and> w_last_active_iteration w = it"
      by (auto simp: faucet_wallet_def step_simps)
  qed
  have "map w_balance new = replicate (unat planned) seed"
    using all len by (intro replicate_eqI) auto
  then show "usum (map w_balance new) = unat planned * unat seed"
    by (simp add: sum_list_replicate)
  show "length new = unat planned" by (rule len)
  show "\<forall>w\<in>set new. w_balance w = seed \<and> w_nonce w = 0 \<and> w_created_at_iteration w = it
           \<and> w_last_active_iteration w = it" by (rule all)
qed

lemma iteration_supply_equation:
  assumes run: "execute_iteration F C wallets parameters state op = Some (Inr r)"
    and small: "usum (map w_balance wallets)
      + unat (iteration_planned parameters wallets) * unat (micro_seed parameters) < 2 ^ 64"
    and fit: "\<And>beta. burn_rate (p_economy parameters) (iteration_inflation state) = Some beta \<Longrightarrow>
      usum (raw_rewards F parameters beta wallets)
        \<le> unat (ps_redistribution_pool (iteration_split F parameters beta wallets))"
  shows "unat (ic_post_supply (ir_commit r)) + unat (ic_burned (ir_commit r))
     = unat (ic_snapshot_supply (ir_commit r)) + unat (ic_faucet_from_mint (ir_commit r))"
proof -
  obtain beta new where b: "burn_rate (p_economy parameters) (iteration_inflation state) = Some beta"
    and new: "faucet_wallets C state op (ss_current_iteration state + 1) (micro_seed parameters)
       (iteration_planned parameters wallets) = Inr new"
    and r: "ir_wallets r = rd_wallets (redistribute F parameters beta wallets) @ new"
      "ic_snapshot_supply (ir_commit r) = sum_list (map w_balance wallets)"
      "ic_burned (ir_commit r) = rd_burned (redistribute F parameters beta wallets)"
      "ic_faucet_from_mint (ir_commit r) =
         ps_faucet_from_mint (iteration_split F parameters beta wallets)"
      "ic_post_supply (ir_commit r) = sum_list (map w_balance (ir_wallets r))"
    by (rule execute_iteration_Inr [OF run])
  let ?sp = "iteration_split F parameters beta wallets"
  have acc: "usum (map w_balance (rd_wallets (redistribute F parameters beta wallets)))
     + unat (rd_burned (redistribute F parameters beta wallets)) + unat (ps_faucet_from_penalty ?sp)
     = usum (map w_balance wallets)"
    using small fit [OF b] by (intro redistribute_accounting) simp_all
  have needed: "unat (ps_faucet_needed ?sp)
      = unat (iteration_planned parameters wallets) * unat (micro_seed parameters)"
    using small by (simp add: iteration_split_def split_pool_def Let_def unat_sat_mul iteration_planned_def)
  have mint: "unat (ps_faucet_from_mint ?sp) + unat (ps_faucet_from_penalty ?sp) = unat (ps_faucet_needed ?sp)"
    unfolding iteration_split_def by (rule split_pool_exact)
  have post: "unat (ic_post_supply (ir_commit r)) = usum (map w_balance (ir_wallets r))"
    using small acc faucet_wallets_balances(1) [OF new] r(1) unfolding r(5)
    by (intro unat_sum_list) simp
  have snap: "unat (ic_snapshot_supply (ir_commit r)) = usum (map w_balance wallets)"
    using small unfolding r(2) by (intro unat_sum_list) simp
  show ?thesis
    using acc needed mint faucet_wallets_balances(1) [OF new] r(1,3,4) post snap by simp
qed

end
