(* ===== verification/Storage_Props.thy ===== *)
theory Storage_Props
  imports Storage
begin

text \<open>
  What the storage promises.  \<open>store_laws\<close> states the documented behaviour of sled and serde_json
  that the theorems rely on, through a view: the sorted key-value pairs of a tree and the value a
  stored blob stands for.  All laws are conditional on success, so a library whose every call fails
  satisfies them; floating-point fields are exempt, because serde_json prints and reads them without
  guaranteeing the last bit.  The locale \<open>keyed_store\<close> is the interface between the trees and the
  ledger.
\<close>

section \<open>The documented behaviour of the libraries\<close>

definition wallet_core :: "wallet \<Rightarrow> wallet" where
  "wallet_core w = w\<lparr>w_activity_score := f64_zero\<rparr>"

definition commit_core :: "iteration_commit \<Rightarrow> iteration_commit" where
  "commit_core c = c\<lparr>ic_snapshot_gini := f64_zero, ic_inflation := f64_zero, ic_burn_rate := f64_zero\<rparr>"

fun tx_core :: "transaction \<Rightarrow> transaction" where
  "tx_core (IterationCommit c) = IterationCommit (commit_core c)"
| "tx_core tx = tx"

definition state_core :: "system_state \<Rightarrow> system_state" where
  "state_core s = s\<lparr>ss_last_inflation := f64_zero, ss_last_gini := f64_zero\<rparr>"

record ('t, 'b) store_view =
  vw_tree :: "'t \<Rightarrow> (bytes \<times> 'b) list"
  vw_wallet :: "'b \<Rightarrow> wallet option"
  vw_operator :: "'b \<Rightarrow> operator option"
  vw_transaction :: "'b \<Rightarrow> transaction option"
  vw_poh :: "'b \<Rightarrow> poh_entry option"
  vw_commit :: "'b \<Rightarrow> iteration_commit option"
  vw_state :: "'b \<Rightarrow> system_state option"
  vw_text :: "'b \<Rightarrow> bytes option"

text \<open>Encoding and decoding agree with the value a blob stands for.\<close>

definition codec_law :: "('v \<Rightarrow> bytes + 'b) \<Rightarrow> ('b \<Rightarrow> bytes + 'v) \<Rightarrow> ('v \<Rightarrow> 'v) \<Rightarrow> ('b \<Rightarrow> 'v option) \<Rightarrow> bool" where
  "codec_law enc dec core val \<longleftrightarrow>
     (\<forall>v b. enc v = Inr b \<longrightarrow> val b = Some (core v)) \<and> (\<forall>b v. dec b = Inr v \<longrightarrow> val b = Some (core v))"

text \<open>An iterator yields the pairs in order; an item may be an error instead.\<close>

definition yields :: "(bytes + 'a) list \<Rightarrow> 'a list \<Rightarrow> bool" where
  "yields rs xs \<longleftrightarrow> list_all2 (\<lambda>r x. \<forall>y. r = Inr y \<longrightarrow> y = x) rs xs"

definition sorted_keys :: "(bytes \<times> 'b) list \<Rightarrow> bool" where
  "sorted_keys kvs \<longleftrightarrow> sorted_wrt (<) (map fst kvs)"

abbreviation tree_map :: "('t, 'b) store_view \<Rightarrow> 't \<Rightarrow> bytes \<rightharpoonup> 'b" where
  "tree_map V t \<equiv> map_of (vw_tree V t)"

definition tree_laws :: "('t, 'b) store_lib \<Rightarrow> ('t, 'b) store_view \<Rightarrow> bool" where
  "tree_laws E V \<longleftrightarrow>
     (\<forall>t. sorted_keys (vw_tree V t)) \<and>
     (\<forall>t k r. sl_get E t k = Inr r \<longrightarrow> r = tree_map V t k) \<and>
     (\<forall>t k b t'. sl_insert E t k b = Inr t' \<longrightarrow> tree_map V t' = (tree_map V t)(k \<mapsto> b)) \<and>
     (\<forall>t k t'. sl_remove E t k = Inr t' \<longrightarrow> tree_map V t' = (tree_map V t)(k := None)) \<and>
     (\<forall>t. yields (sl_iter E t) (vw_tree V t)) \<and>
     (\<forall>t p. yields (sl_scan_prefix E t p) (filter (\<lambda>(k, b). prefix p k) (vw_tree V t)))"

definition codec_laws :: "('t, 'b) store_lib \<Rightarrow> ('t, 'b) store_view \<Rightarrow> bool" where
  "codec_laws E V \<longleftrightarrow>
     codec_law (js_wallet E) (jd_wallet E) wallet_core (vw_wallet V) \<and>
     codec_law (js_operator E) (jd_operator E) id (vw_operator V) \<and>
     codec_law (js_transaction E) (jd_transaction E) tx_core (vw_transaction V) \<and>
     codec_law (js_poh_entry E) (jd_poh_entry E) id (vw_poh V) \<and>
     codec_law (js_commit E) (jd_commit E) commit_core (vw_commit V) \<and>
     codec_law (js_state E) (jd_state E) state_core (vw_state V) \<and>
     codec_law (\<lambda>s. Inr (sl_raw E s)) (sl_from_utf8 E) id (vw_text V)"

definition store_laws :: "('t, 'b) store_lib \<Rightarrow> ('t, 'b) store_view \<Rightarrow> bool" where
  "store_laws E V \<longleftrightarrow> tree_laws E V \<and> codec_laws E V"

section \<open>Keyed JSON trees\<close>

lemma get_json_view:
  assumes "tree_laws E V" "codec_law enc dec core val" "get_json E dec t k = Inr r"
  shows "map_option core r = Option.bind (tree_map V t k) val"
proof -
  obtain g where g1: "sl_get E t k = Inr g"
    using assms(3) by (cases "sl_get E t k") (simp_all add: get_json_def)
  have "tree_map V t k = g" using assms(1) g1 unfolding tree_laws_def by metis
  note g = g1 this
  show ?thesis
  proof (cases g)
    case None
    then show ?thesis using g assms(3) by (simp add: get_json_def)
  next
    case (Some b)
    then obtain v where "dec b = Inr v" "r = Some v"
      using g assms(3) by (auto simp: get_json_def step_simps)
    then show ?thesis using g Some assms(2) by (simp add: codec_law_def)
  qed
qed

lemma put_json_view:
  assumes "tree_laws E V" "codec_law enc dec core val" "put_json E enc t k v = Inr t'"
  shows "\<exists>b. tree_map V t' = (tree_map V t)(k \<mapsto> b) \<and> val b = Some (core v)"
  using assms by (auto simp: put_json_def tree_laws_def codec_law_def step_simps)

lemma yields_collect:
  "yields rs xs \<Longrightarrow> collect_results (map (\<lambda>r. and_then r f) rs) = Inr ys \<Longrightarrow>
     list_all2 (\<lambda>x y. f x = Inr y) xs ys"
proof (induction rs arbitrary: xs ys)
  case Nil
  then show ?case by (auto simp: yields_def)
next
  case (Cons r rs)
  then show ?case by (fastforce simp: yields_def list_all2_Cons1 step_simps)
qed

lemma scan_values_view:
  assumes "tree_laws E V" "codec_law enc dec core val" "scan_values E dec t = Inr vs"
  shows "map (\<lambda>kb. val (snd kb)) (vw_tree V t) = map (\<lambda>v. Some (core v)) vs"
proof -
  have "list_all2 (\<lambda>kb v. dec (snd kb) = Inr v) (vw_tree V t) vs"
    using assms(1,3) yields_collect unfolding scan_values_def tree_laws_def by blast
  then show ?thesis
  proof (induction rule: list_all2_induct)
    case (Cons kb v kbs vs)
    then show ?case using assms(2) by (simp add: codec_law_def)
  qed simp
qed

lemma sorted_keys_distinct: "sorted_keys kvs \<Longrightarrow> distinct (map fst kvs)"
  by (simp add: sorted_keys_def strict_sorted_iff)

section \<open>The interface of a keyed store\<close>

text \<open>
  \<open>laws e v\<close> says that the library \<open>e\<close> behaves as documented under the view \<open>v\<close>; \<open>contents v s\<close>
  is the map a store \<open>s\<close> holds; \<open>core\<close> forgets what the encoding does not guarantee.
\<close>

locale keyed_store =
  fixes laws :: "'e \<Rightarrow> 'v \<Rightarrow> bool"
    and get :: "'e \<Rightarrow> 's \<Rightarrow> 'k \<Rightarrow> bytes + 'a option"
    and put :: "'e \<Rightarrow> 'a \<Rightarrow> ('s, bytes, unit) comp"
    and key :: "'a \<Rightarrow> 'k"
    and core :: "'a \<Rightarrow> 'a"
    and contents :: "'v \<Rightarrow> 's \<Rightarrow> 'k \<rightharpoonup> 'a"
  assumes get_contents: "laws e v \<Longrightarrow> get e s k = Inr r \<Longrightarrow> contents v s k = map_option core r"
    and put_contents: "laws e v \<Longrightarrow> put e a s = (Inr (), s') \<Longrightarrow>
      contents v s' = (contents v s)(key a \<mapsto> core a)"
    and put_failed: "put e a s = (Inl m, s') \<Longrightarrow> s' = s"
begin

text \<open>Read your writes, and nobody else's.\<close>

lemma get_after_put:
  assumes "laws e v" "put e a s = (Inr (), s')" "get e s' k = Inr r" "get e s k = Inr r0"
  shows "map_option core r = (if k = key a then Some (core a) else map_option core r0)"
  using get_contents [OF assms(1,3)] get_contents [OF assms(1,4)] put_contents [OF assms(1,2)]
  by (metis fun_upd_apply)

lemma get_SomeD: "laws e v \<Longrightarrow> get e s k = Inr (Some a) \<Longrightarrow> contents v s k = Some (core a)"
  using get_contents by fastforce

lemma get_NoneD: "laws e v \<Longrightarrow> get e s k = Inr None \<Longrightarrow> contents v s k = None"
  using get_contents by fastforce

lemma put_dom: "laws e v \<Longrightarrow> put e a s = (Inr (), s') \<Longrightarrow> dom (contents v s') = insert (key a) (dom (contents v s))"
  using put_contents by fastforce

end

definition wallet_contents :: "('t, 'b) store_view \<Rightarrow> 't coin_storage \<Rightarrow> wallet_id \<rightharpoonup> wallet" where
  "wallet_contents V st k = Option.bind (tree_map V (cs_wallets st) k) (vw_wallet V)"

definition operator_contents :: "('t, 'b) store_view \<Rightarrow> 't coin_storage \<Rightarrow> operator_id \<rightharpoonup> operator" where
  "operator_contents V st k = Option.bind (tree_map V (cs_operators st) k) (vw_operator V)"

definition iteration_contents ::
  "('t, 'b) store_view \<Rightarrow> 't coin_storage \<Rightarrow> iteration_id \<rightharpoonup> iteration_commit"
where
  "iteration_contents V st i = Option.bind (tree_map V (cs_iterations st) (to_be_bytes i)) (vw_commit V)"

definition poh_contents :: "('t, 'b) store_view \<Rightarrow> 't coin_storage \<Rightarrow> tick \<rightharpoonup> poh_entry" where
  "poh_contents V st t = Option.bind (tree_map V (cs_poh_log st) (to_be_bytes t)) (vw_poh V)"

definition tx_contents :: "('t, 'b) store_view \<Rightarrow> 't coin_storage \<Rightarrow> hash \<rightharpoonup> transaction" where
  "tx_contents V st k = Option.bind (tree_map V (cs_transactions st) k) (vw_transaction V)"

lemma to_be_bytes_inject [simp]: "to_be_bytes a = to_be_bytes b \<longleftrightarrow> a = b"
  by (simp add: to_be_bytes_def to_le_bytes_inject)

lemma store_lawsD:
  assumes "store_laws E V"
  shows "tree_laws E V"
    and "codec_law (js_wallet E) (jd_wallet E) wallet_core (vw_wallet V)"
    and "codec_law (js_operator E) (jd_operator E) id (vw_operator V)"
    and "codec_law (js_transaction E) (jd_transaction E) tx_core (vw_transaction V)"
    and "codec_law (js_poh_entry E) (jd_poh_entry E) id (vw_poh V)"
    and "codec_law (js_commit E) (jd_commit E) commit_core (vw_commit V)"
    and "codec_law (js_state E) (jd_state E) state_core (vw_state V)"
    and "codec_law (\<lambda>s. Inr (sl_raw E s)) (sl_from_utf8 E) id (vw_text V)"
  using assms by (simp_all add: store_laws_def codec_laws_def)

lemma put_wallet_cases:
  assumes "put_wallet E w st = (r, st')"
  shows "(\<exists>e. r = Inl e \<and> st' = st) \<or>
    (\<exists>t. r = Inr () \<and> put_json E (js_wallet E) (cs_wallets st) (w_id w) w = Inr t \<and> st' = st\<lparr>cs_wallets := t\<rparr>)"
  using assms by (auto simp: put_wallet_def split: sum.splits)

interpretation wallets: keyed_store store_laws get_wallet put_wallet w_id wallet_core wallet_contents
proof
  fix E :: "('t, 'b) store_lib" and V st k r
  assume laws: "store_laws E V" and get: "get_wallet E st k = Inr r"
  then show "wallet_contents V st k = map_option wallet_core r"
    using get_json_view [OF store_lawsD(1) [OF laws] store_lawsD(2) [OF laws] get [unfolded get_wallet_def]]
    by (simp add: wallet_contents_def)
next
  fix E :: "('t, 'b) store_lib" and V w st st'
  assume laws: "store_laws E V" and "put_wallet E w st = (Inr (), st')"
  then show "wallet_contents V st' = (wallet_contents V st)(w_id w \<mapsto> wallet_core w)"
    using put_json_view [OF store_lawsD(1) [OF laws] store_lawsD(2) [OF laws]]
    by (fastforce dest!: put_wallet_cases simp: wallet_contents_def)
qed (auto dest!: put_wallet_cases)

interpretation operators: keyed_store store_laws get_operator put_operator op_id id operator_contents
proof
  fix E :: "('t, 'b) store_lib" and V st k r
  assume laws: "store_laws E V" and get: "get_operator E st k = Inr r"
  then show "operator_contents V st k = map_option id r"
    using get_json_view [OF store_lawsD(1) [OF laws] store_lawsD(3) [OF laws] get [unfolded get_operator_def]]
    by (simp add: operator_contents_def)
next
  fix E :: "('t, 'b) store_lib" and V and op :: operator and st st'
  assume laws: "store_laws E V" and "put_operator E op st = (Inr (), st')"
  then show "operator_contents V st' = (operator_contents V st)(op_id op \<mapsto> id op)"
    using put_json_view [OF store_lawsD(1) [OF laws] store_lawsD(3) [OF laws]]
    by (fastforce simp: operator_contents_def put_operator_def split: sum.splits)
qed (auto simp: put_operator_def split: sum.splits)

interpretation iterations: keyed_store store_laws get_iteration put_iteration ic_iteration_id commit_core
  iteration_contents
proof
  fix E :: "('t, 'b) store_lib" and V st k r
  assume laws: "store_laws E V" and get: "get_iteration E st k = Inr r"
  then show "iteration_contents V st k = map_option commit_core r"
    using get_json_view [OF store_lawsD(1) [OF laws] store_lawsD(6) [OF laws] get [unfolded get_iteration_def]]
    by (simp add: iteration_contents_def)
next
  fix E :: "('t, 'b) store_lib" and V c st st'
  assume laws: "store_laws E V" and "put_iteration E c st = (Inr (), st')"
  then show "iteration_contents V st' = (iteration_contents V st)(ic_iteration_id c \<mapsto> commit_core c)"
    using put_json_view [OF store_lawsD(1) [OF laws] store_lawsD(6) [OF laws]]
    by (fastforce simp: iteration_contents_def put_iteration_def split: sum.splits)
qed (auto simp: put_iteration_def split: sum.splits)

end
