(* ===== verification/Rate_Limits.thy ===== *)
theory Rate_Limits
  imports Prelude "HOL-Library.Sublist"
begin

text \<open>
  The in-memory guards of \<open>crates/aggora-state/src/lib.rs\<close>: the sliding windows of
  \<open>check_wallet_rate_limit\<close> and \<open>check_transfer_rate_limit\<close>, which share their body, the replay
  guard of \<open>guard_operator_replay\<close>, and the clock drift test of \<open>verify_operator_request\<close>.  A
  timestamp is an \<open>i64\<close>; its subtraction and \<open>abs\<close> wrap around in a release build.  The locale
  \<open>sliding_window\<close> is what the two rate limiters have in common.
\<close>

section \<open>Signed time\<close>

definition i64_abs :: "i64 \<Rightarrow> i64" where
  "i64_abs x = (if sint x < 0 then - x else x)"

definition i64_gt :: "i64 \<Rightarrow> i64 \<Rightarrow> bool" where
  "i64_gt a b \<longleftrightarrow> sint b < sint a"

definition i64_max :: "i64 \<Rightarrow> i64 \<Rightarrow> i64" where
  "i64_max a b = (if i64_gt a b then a else b)"

text \<open>\<open>(now_ms() - timestamp).abs() > drift\<close>, the test that rejects a request.\<close>

definition drifted :: "i64 \<Rightarrow> i64 \<Rightarrow> i64 \<Rightarrow> bool" where
  "drifted drift now ts \<longleftrightarrow> i64_gt (i64_abs (now - ts)) drift"

section \<open>The guards\<close>

definition window_prune :: "i64 \<Rightarrow> i64 \<Rightarrow> i64 list \<Rightarrow> i64 list" where
  "window_prune window_ms now q = dropWhile (\<lambda>ts. i64_gt (now - ts) window_ms) q"

text \<open>One check of one key: whether the request is admitted, and the queue afterwards.\<close>

definition window_check :: "u64 \<Rightarrow> i64 \<Rightarrow> i64 \<Rightarrow> i64 list \<Rightarrow> bool \<times> i64 list" where
  "window_check limit window_ms now q =
     (let q' = window_prune window_ms now q
      in if limit \<le> of_nat (length q') then (False, q') else (True, q' @ [now]))"

text \<open>The replay guard: expired signatures are dropped, a known one is refused, a new one recorded.\<close>

definition replay_check ::
  "i64 \<Rightarrow> i64 \<Rightarrow> bytes \<Rightarrow> i64 \<Rightarrow> (bytes \<rightharpoonup> i64) \<Rightarrow> bool \<times> (bytes \<rightharpoonup> i64)"
where
  "replay_check drift now sig ts seen =
     (let kept = (\<lambda>s. case seen s of None \<Rightarrow> None | Some t \<Rightarrow> if drifted drift now t then None else Some t)
      in if kept sig \<noteq> None then (False, kept) else (True, kept(sig \<mapsto> ts)))"

definition wallet_window_ms :: i64 where
  "wallet_window_ms = 24 * 60 * 60 * 1000"

definition tx_window_ms :: i64 where
  "tx_window_ms = 60 * 1000"

section \<open>Time without wrap-around\<close>

text \<open>A clock reading in milliseconds that is positive and far from the end of the range.\<close>

definition sane_time :: "i64 \<Rightarrow> bool" where
  "sane_time t \<longleftrightarrow> 0 \<le> sint t \<and> sint t < 2 ^ 62"

lemma sint_diff_sane:
  assumes "sane_time a" "sane_time b"
  shows "sint (a - b) = sint a - sint b"
proof -
  have "- (2 ^ 63) \<le> sint a - sint b" "sint a - sint b < 2 ^ 63"
    using assms by (simp_all add: sane_time_def)
  then show ?thesis unfolding sint_word_diff by (simp add: signed_take_bit_int_eq_self)
qed

lemma drifted_sane:
  assumes "sane_time a" "sane_time b"
  shows "drifted d a b \<longleftrightarrow> sint d < \<bar>sint a - sint b\<bar>"
proof -
  have "- (a - b) = b - a" by simp
  then have "sint (- (a - b)) = sint b - sint a" using sint_diff_sane assms by metis
  then show ?thesis
    using sint_diff_sane [OF assms] by (auto simp: drifted_def i64_gt_def i64_abs_def)
qed

section \<open>Sliding windows\<close>

text \<open>The requests a window admits among a sequence of request times.\<close>

fun admitted :: "('t \<Rightarrow> 'q \<Rightarrow> bool \<times> 'q) \<Rightarrow> 'q \<Rightarrow> 't list \<Rightarrow> 't list" where
  "admitted check q [] = []"
| "admitted check q (t # ts) =
     (if fst (check t q) then t # admitted check (snd (check t q)) ts
      else admitted check (snd (check t q)) ts)"

definition in_window :: "int \<Rightarrow> int \<Rightarrow> i64 \<Rightarrow> bool" where
  "in_window w t a \<longleftrightarrow> t - w \<le> sint a \<and> sint a \<le> t"

definition recent :: "int \<Rightarrow> i64 \<Rightarrow> i64 list \<Rightarrow> i64 list" where
  "recent w now q = filter (\<lambda>a. sint now - w \<le> sint a) q"

lemma length_recent: "length (recent w t h) \<le> length h"
  by (simp add: recent_def)

definition history :: "i64 list \<Rightarrow> i64 \<Rightarrow> bool" where
  "history h t \<longleftrightarrow> sorted (map sint h) \<and> list_all (\<lambda>a. sane_time a \<and> sint a \<le> sint t) h"

text \<open>The window after a sequence of request times.\<close>

fun queue_after :: "('t \<Rightarrow> 'q \<Rightarrow> bool \<times> 'q) \<Rightarrow> 'q \<Rightarrow> 't list \<Rightarrow> 'q" where
  "queue_after check q [] = q"
| "queue_after check q (t # ts) = queue_after check (snd (check t q)) ts"

locale sliding_window =
  fixes check :: "i64 \<Rightarrow> i64 list \<Rightarrow> bool \<times> i64 list" and limit :: nat and window :: int
  assumes window_nonneg: "0 \<le> window"
    and check_spec: "history q now \<Longrightarrow> sane_time now \<Longrightarrow> length q < 2 ^ 63 \<Longrightarrow>
      check now q = (if length (recent window now q) < limit then (True, recent window now q @ [now])
                     else (False, recent window now q))"
begin

lemma recent_recent:
  "sint s \<le> sint t \<Longrightarrow> recent window t (recent window s h) = recent window t h"
  unfolding recent_def by (simp add: filter_filter) (rule filter_cong, auto)

lemma history_recent: "history h t \<Longrightarrow> history (recent window s h) t"
  unfolding history_def recent_def list_all_iff by (auto intro: sorted_filter)

lemma history_later: "history h s \<Longrightarrow> sint s \<le> sint t \<Longrightarrow> history h t"
  unfolding history_def list_all_iff by fastforce

lemma history_snoc: "history h t \<Longrightarrow> sane_time t \<Longrightarrow> history (h @ [t]) t"
  unfolding history_def list_all_iff by (auto simp: sorted_append)

text \<open>One more admitted request keeps the bound.\<close>

lemma bound_step:
  assumes h: "history h t" and short: "length (recent window t h) < limit"
    and bound: "\<And>u. length (filter (in_window window u) h) \<le> limit"
  shows "length (filter (in_window window u) (h @ [t])) \<le> limit"
proof (cases "sint t \<le> u")
  case False
  then show ?thesis using bound [of u] by (simp add: in_window_def)
next
  case True
  have "filter (in_window window u) h = filter (in_window window u) (recent window t h)"
    unfolding recent_def filter_filter using True by (intro filter_cong) (auto simp: in_window_def)
  then have "length (filter (in_window window u) h) < limit"
    using short le_less_trans [OF length_filter_le] by metis
  then show ?thesis by simp
qed

lemma admitted_bound:
  assumes "history h s" "sorted (map sint (s # ts))" "list_all sane_time ts"
    and "length h + length ts < 2 ^ 63"
    and "\<And>u. length (filter (in_window window u) h) \<le> limit"
  shows "length (filter (in_window window u) (h @ admitted check (recent window s h) ts)) \<le> limit"
  using assms
proof (induction ts arbitrary: h s)
  case Nil
  then show ?case by simp
next
  case (Cons t ts)
  have st: "sint s \<le> sint t" "sorted (map sint (t # ts))" and t: "sane_time t"
    using Cons.prems(2,3) by simp_all
  have ht: "history h t" by (rule history_later [OF Cons.prems(1) st(1)])
  have len: "length (recent window s h) < 2 ^ 63"
    using Cons.prems(4) length_recent [of window s h] by simp
  have c: "check t (recent window s h) =
      (if length (recent window t h) < limit then (True, recent window t h @ [t])
       else (False, recent window t h))"
    using check_spec [OF history_recent [OF ht] t len] by (simp add: recent_recent [OF st(1)])
  show ?case
  proof (cases "length (recent window t h) < limit")
    case True
    have "recent window t (h @ [t]) = recent window t h @ [t]"
      using window_nonneg by (simp add: recent_def)
    moreover have "length (filter (in_window window u) ((h @ [t]) @ admitted check (recent window t (h @ [t])) ts)) \<le> limit"
      using Cons.prems(3,4) st(2) history_snoc [OF ht t] bound_step [OF ht True Cons.prems(5)]
      by (intro Cons.IH) simp_all
    ultimately show ?thesis using c True by simp
  next
    case False
    have "length (filter (in_window window u) (h @ admitted check (recent window t h) ts)) \<le> limit"
      using Cons.prems(3-5) st(2) ht by (intro Cons.IH) simp_all
    then show ?thesis using c False by simp
  qed
qed

lemma at_most_limit:
  assumes "sorted (map sint ts)" "list_all sane_time ts" "length ts < 2 ^ 63"
  shows "length (filter (in_window window u) (admitted check [] ts)) \<le> limit"
proof (cases ts)
  case Nil
  then show ?thesis by simp
next
  case (Cons t ts')
  have "recent window t [] = []" by (simp add: recent_def)
  then show ?thesis
    using admitted_bound [of "[]" t ts u] assms Cons by (simp add: history_def)
qed

text \<open>The window holds the admitted requests that are still recent, and so decides the next one.\<close>

lemma queue_recent:
  assumes "history h s" "sorted (map sint (s # ts))" "list_all sane_time ts" "length h + length ts < 2 ^ 63"
  shows "queue_after check (recent window s h) ts
      = recent window (last (s # ts)) (h @ admitted check (recent window s h) ts)
    \<and> history (h @ admitted check (recent window s h) ts) (last (s # ts))"
  using assms
proof (induction ts arbitrary: h s)
  case Nil
  then show ?case by simp
next
  case (Cons t ts)
  have st: "sint s \<le> sint t" "sorted (map sint (t # ts))" and t: "sane_time t" "list_all sane_time ts"
    using Cons.prems(2,3) by simp_all
  have ht: "history h t" by (rule history_later [OF Cons.prems(1) st(1)])
  have len: "length (recent window s h) < 2 ^ 63"
    using Cons.prems(4) length_recent [of window s h] by simp
  have c: "check t (recent window s h) =
      (if length (recent window t h) < limit then (True, recent window t h @ [t])
       else (False, recent window t h))"
    using check_spec [OF history_recent [OF ht] t(1) len] by (simp add: recent_recent [OF st(1)])
  have yes: "recent window t (h @ [t]) = recent window t h @ [t]" using window_nonneg by (simp add: recent_def)
  have h1: "history (h @ [t]) t" by (rule history_snoc [OF ht t(1)])
  have l: "length (h @ [t]) + length ts < 2 ^ 63" "length h + length ts < 2 ^ 63" using Cons.prems(4) by simp_all
  show ?case
    using Cons.IH [OF h1 st(2) t(2) l(1)] Cons.IH [OF ht st(2) t(2) l(2)] c h1 ht
    by (cases "ts = []") (simp_all add: yes)
qed

lemma next_admitted:
  assumes "sorted (map sint (ts @ [t]))" "list_all sane_time (ts @ [t])" "length ts < 2 ^ 63"
  shows "fst (check t (queue_after check [] ts)) \<longleftrightarrow>
    length (filter (in_window window (sint t)) (admitted check [] ts)) < limit"
proof -
  have exact: "fst (check t (recent window s h)) \<longleftrightarrow> length (filter (in_window window (sint t)) h) < limit"
    if "history h s" "sint s \<le> sint t" "length h < 2 ^ 63" for h s
  proof -
    have ht: "history h t" by (rule history_later [OF that(1,2)])
    have len: "length (recent window s h) < 2 ^ 63" using that(3) length_recent [of window s h] by simp
    have "filter (in_window window (sint t)) h = recent window t h"
      using ht unfolding recent_def by (intro filter_cong) (auto simp: history_def list_all_iff in_window_def)
    then show ?thesis
      using check_spec [OF history_recent [OF ht] _ len] assms(2) by (simp add: recent_recent [OF that(2)])
  qed
  show ?thesis
  proof (cases ts)
    case Nil
    have "recent window t [] = []" by (simp add: recent_def)
    then show ?thesis using exact [of "[]" t] Nil by (simp add: history_def)
  next
    case (Cons t0 ts')
    have r: "recent window t0 [] = []" by (simp add: recent_def)
    have q: "queue_after check [] ts = recent window (last (t0 # ts)) (admitted check [] ts)"
      "history (admitted check [] ts) (last (t0 # ts))"
      using queue_recent [of "[]" t0 ts] assms Cons by (auto simp: r history_def sorted_append)
    have "length (admitted check q us) \<le> length us" for q us
      by (induction us arbitrary: q) (simp_all add: le_SucI)
    then have len: "length (admitted check [] ts) < 2 ^ 63" using assms(3) le_less_trans by blast
    have "sint (last (t0 # ts)) \<le> sint t" using assms(1) Cons by (simp add: sorted_append)
    then show ?thesis using exact [OF q(2) _ len] q(1) by simp
  qed
qed

end

text \<open>The code's window is one: the entries it drops from the front are all the expired ones.\<close>

lemma dropWhile_sorted:
  "sorted (map f xs) \<Longrightarrow> dropWhile (\<lambda>x. f x < c) xs = filter (\<lambda>x. c \<le> f x) (xs :: 'a list)"
  for f :: "'a \<Rightarrow> int"
proof (induction xs)
  case (Cons x xs)
  then show ?case by (cases "f x < c") (auto intro!: filter_True [symmetric] simp: filter_id_conv)
qed simp

lemma window_prune_recent:
  assumes "history q now" "sane_time now"
  shows "window_prune w now q = recent (sint w) now q"
proof -
  have "dropWhile (\<lambda>ts. i64_gt (now - ts) w) q = dropWhile (\<lambda>ts. sint ts < sint now - sint w) q"
    using assms by (intro dropWhile_cong refl) (auto simp: i64_gt_def sint_diff_sane history_def list_all_iff)
  then show ?thesis
    using assms by (simp add: window_prune_def recent_def dropWhile_sorted history_def)
qed

lemma window_check_spec:
  assumes "history q now" "sane_time now" "length q < 2 ^ 63"
  shows "window_check l w now q =
    (if length (recent (sint w) now q) < unat l then (True, recent (sint w) now q @ [now])
     else (False, recent (sint w) now q))"
proof -
  let ?k = "recent (sint w) now q"
  have "length ?k < 2 ^ 64" using assms(3) length_recent [of "sint w" now q] by simp
  then have "unat (of_nat (length ?k) :: u64) = length ?k"
    by (simp add: unsigned_of_nat take_bit_nat_eq_self)
  then show ?thesis
    using window_prune_recent [OF assms(1,2)] by (auto simp: window_check_def word_le_nat_alt Let_def)
qed

interpretation wallet_window: sliding_window "window_check l wallet_window_ms" "unat l" 86400000 for l
  using window_check_spec [of _ _ l wallet_window_ms]
  by unfold_locales (simp_all add: wallet_window_ms_def)

interpretation tx_window: sliding_window "window_check l tx_window_ms" "unat l" 60000 for l
  using window_check_spec [of _ _ l tx_window_ms]
  by unfold_locales (simp_all add: tx_window_ms_def)

section \<open>The replay guard and the drift test\<close>

text \<open>What one check makes of a signature: a new one is recorded, a recorded one refused and kept.\<close>

lemma replay_records: "replay_check drift now sig ts seen = (True, seen') \<Longrightarrow> seen' sig = Some ts"
  by (auto simp: replay_check_def Let_def split: if_splits)

lemma replay_refuses: "seen sig = Some ts \<Longrightarrow> fst (replay_check drift now sig ts' seen) \<longleftrightarrow> drifted drift now ts"
  by (simp add: replay_check_def Let_def)

lemma replay_keeps:
  "seen sig = Some ts \<Longrightarrow> \<not> drifted drift now ts \<Longrightarrow> snd (replay_check drift now sig' ts' seen) sig = Some ts"
  by (auto simp: replay_check_def Let_def)

text \<open>
  C30. The drift test rejects a timestamp further than the drift from a sane clock, but accepts the one
  half the range away, whose distance has no absolute value in 64 bits.
\<close>

theorem drift_test:
  assumes "sane_time now" "0 \<le> sint drift"
  shows "(\<forall>ts. sane_time ts \<longrightarrow> drifted drift now ts = (sint drift < \<bar>sint now - sint ts\<bar>)) \<and>
    \<not> drifted drift now (now - 0x8000000000000000)"
proof -
  have "now - (now - 0x8000000000000000) = (0x8000000000000000 :: i64)" by simp
  then have "\<not> drifted drift now (now - 0x8000000000000000)"
    using assms(2) by (simp add: drifted_def i64_gt_def i64_abs_def)
  then show ?thesis using drifted_sane [OF assms(1)] by blast
qed

end
