(* ===== verification/Node.thy ===== *)
theory Node
  imports Economy Storage Rate_Limits
begin

text \<open>
  \<open>crates/aggora-state/src/lib.rs\<close>: the node, its start, its authentication and the append of one
  transaction to the proof-of-history log.  A \<open>node\<close> is \<open>Inner\<close> without its locks; a method is a
  computation on it.  What a method changes through the write guard of \<open>system\<close> stays changed when
  it returns early with an error, so a failing computation returns the node it failed in.  The
  clock is an argument, the process environment is a function.
\<close>

section \<open>Errors\<close>

datatype state_error =
    InvalidSignature
  | InvalidNonce
  | InsufficientBalance
  | WalletNotFound
  | OperatorUnauthorized
  | WalletAlreadyExists
  | IterationInProgress
  | RateLimitExceeded
  | BadRequest bytes
  | Internal bytes

fun error_code :: "state_error \<Rightarrow> bytes" where
  "error_code InvalidSignature = ''INVALID_SIGNATURE''"
| "error_code InvalidNonce = ''INVALID_NONCE''"
| "error_code InsufficientBalance = ''INSUFFICIENT_BALANCE''"
| "error_code WalletNotFound = ''WALLET_NOT_FOUND''"
| "error_code OperatorUnauthorized = ''OPERATOR_UNAUTHORIZED''"
| "error_code WalletAlreadyExists = ''WALLET_ALREADY_EXISTS''"
| "error_code IterationInProgress = ''ITERATION_IN_PROGRESS''"
| "error_code RateLimitExceeded = ''RATE_LIMIT_EXCEEDED''"
| "error_code (BadRequest m) = ''BAD_REQUEST''"
| "error_code (Internal m) = ''INTERNAL_ERROR''"

fun is_internal :: "state_error \<Rightarrow> bool" where
  "is_internal (Internal m) = True"
| "is_internal _ = False"

section \<open>The node\<close>

type_synonym ip_addr = bytes

record node_config =
  nc_parameters :: system_parameters
  nc_db_path :: bytes
  nc_snapshot_path :: bytes
  nc_operator_secret :: "bytes option"
  nc_operator_public_key :: "bytes option"
  nc_validator_endpoint :: bytes

definition from_parameters :: "system_parameters \<Rightarrow> node_config" where
  "from_parameters ps =
     \<lparr>nc_parameters = ps, nc_db_path = st_db_path (p_storage ps),
      nc_snapshot_path = st_snapshot_path (p_storage ps), nc_operator_secret = None,
      nc_operator_public_key = None, nc_validator_endpoint = ''127.0.0.1:8080''\<rparr>"

record 't node =
  n_storage :: "'t coin_storage"
  n_parameters :: system_parameters
  n_system :: system_state
  n_operator_secret :: "bytes option"
  n_operator_public_key :: bytes
  n_operator_id :: operator_id
  n_validator_id :: validator_id
  n_simulation :: simulation_status
  n_seen_operator_sigs :: "bytes \<rightharpoonup> i64"
  n_rate_wallet_create :: "ip_addr \<rightharpoonup> i64 list"
  n_rate_wallet_tx :: "wallet_id \<rightharpoonup> i64 list"

type_synonym ('t, 'a) handler = "('t node, state_error, 'a) comp"

text \<open>A storage call inside a method: \<open>?\<close> turns its message into \<open>Internal\<close>.\<close>

definition store :: "('t coin_storage, bytes, 'a) comp \<Rightarrow> ('t, 'a) handler" where
  "store m n = (case m (n_storage n) of (r, st) \<Rightarrow> (map_err Internal r, n\<lparr>n_storage := st\<rparr>))"

definition fetch :: "('t coin_storage \<Rightarrow> bytes + 'a) \<Rightarrow> ('t, 'a) handler" where
  "fetch f n = (map_err Internal (f (n_storage n)), n)"

definition set_system :: "(system_state \<Rightarrow> system_state) \<Rightarrow> ('t, unit) handler" where
  "set_system f = modifyE (\<lambda>n. n\<lparr>n_system := f (n_system n)\<rparr>)"

section \<open>Start\<close>

definition DEV_OPERATOR_SECRET :: bytes where
  "DEV_OPERATOR_SECRET = ''000102030405060708090a0b0c0d0e0f101112131415161718191a1b1c1d1e1f''"

definition or_else :: "'a option \<Rightarrow> 'a option \<Rightarrow> 'a option" where
  "or_else x y = (case x of None \<Rightarrow> y | Some a \<Rightarrow> Some a)"

definition ok_of :: "'e + 'a \<Rightarrow> 'a option" where
  "ok_of r = (case r of Inl e \<Rightarrow> None | Inr a \<Rightarrow> Some a)"

definition operator_secret_of ::
  "(bytes \<Rightarrow> bytes option) \<Rightarrow> node_config \<Rightarrow> system_parameters \<Rightarrow> bytes option"
where
  "operator_secret_of env config ps =
     or_else (nc_operator_secret config)
       (or_else (env (sp_operator_secret_env (p_security ps)))
         (or_else (env ''AGGORA_COIN_OPERATOR_SECRET'') (Some DEV_OPERATOR_SECRET)))"

definition operator_key_of ::
  "crypto_lib \<Rightarrow> (bytes \<Rightarrow> bytes option) \<Rightarrow> node_config \<Rightarrow> system_parameters \<Rightarrow> bytes option \<Rightarrow> bytes + bytes"
where
  "operator_key_of C env config ps secret =
     and_then
       (ok_or ''operator public key could not be derived''
         (or_else (nc_operator_public_key config)
           (or_else (env (sp_operator_pubkey_env (p_security ps)))
             (or_else (env ''AGGORA_COIN_OPERATOR_PUBKEY'')
               (case secret of None \<Rightarrow> None | Some s \<Rightarrow> ok_of (public_key_from_secret_hex C s))))))
       (\<lambda>key. normalize_bytes_to_hex C key 32)"

definition genesis_operator :: "operator_id \<Rightarrow> public_key \<Rightarrow> operator" where
  "genesis_operator oid key =
     \<lparr>op_id = oid, op_pubkey = key, op_role = Genesis, op_authorized_at = 0, op_authorized_by = oid,
      op_revoked_at = None, op_metadata = ''Aggora Coin Genesis Operator''\<rparr>"

definition genesis_validator :: "validator_id \<Rightarrow> public_key \<Rightarrow> bytes \<Rightarrow> tick \<Rightarrow> validator" where
  "genesis_validator vid key endpoint tick =
     \<lparr>val_id = vid, val_pubkey = key, val_endpoint = endpoint, val_is_genesis = True,
      val_registered_at = 0, val_active = True, val_last_seen_tick = tick\<rparr>"

text \<open>Everything \<open>CoinState::open\<close> does once the trees are open.\<close>

definition boot ::
  "('t, 'b) store_lib \<Rightarrow> crypto_lib \<Rightarrow> (bytes \<Rightarrow> bytes option) \<Rightarrow> node_config
     \<Rightarrow> ('t coin_storage, bytes, 't node) comp"
where
  "boot E C env config =
     bindE (\<lambda>st. (load_parameters E st, st)) (\<lambda>loaded.
     let ps = (case loaded of None \<Rightarrow> nc_parameters config | Some p \<Rightarrow> p) in
     bindE (store_parameters E ps) (\<lambda>_.
     let secret = operator_secret_of env config ps in
     bindE (liftE (operator_key_of C env config ps secret)) (\<lambda>key.
     bindE (liftE (operator_id_from_public_key C key)) (\<lambda>oid.
     bindE (liftE (validator_id_from_public_key C key)) (\<lambda>vid.
     bindE (\<lambda>st. (load_state E st, st)) (\<lambda>loaded_state.
     let sys0 = (case loaded_state of None \<Rightarrow> default_system_state | Some s \<Rightarrow> s);
         sys = (if ss_last_poh_hash sys0 = [] then sys0\<lparr>ss_last_poh_hash := ZERO_HASH_HEX\<rparr> else sys0) in
     bindE (store_state E sys) (\<lambda>_.
     bindE (put_operator E (genesis_operator oid key)) (\<lambda>_.
     bindE (put_validator E (genesis_validator vid key (nc_validator_endpoint config) (ss_current_tick sys))) (\<lambda>_.
     bindE (storage_flush E) (\<lambda>_.
     (\<lambda>st. (Inr \<lparr>n_storage = st, n_parameters = ps, n_system = sys, n_operator_secret = secret,
                n_operator_public_key = key, n_operator_id = oid, n_validator_id = vid,
                n_simulation = \<lparr>sim_running = False, sim_mode = ''idle'', sim_iterations_executed = 0\<rparr>,
                n_seen_operator_sigs = Map.empty, n_rate_wallet_create = Map.empty,
                n_rate_wallet_tx = Map.empty\<rparr>, st))))))))))))"

definition open_node ::
  "('t, 'b) store_lib \<Rightarrow> crypto_lib \<Rightarrow> (bytes \<Rightarrow> bytes option) \<Rightarrow> node_config \<Rightarrow> bytes + 't node"
where
  "open_node E C env config =
     and_then (storage_open E (nc_db_path config) (nc_snapshot_path config)) (\<lambda>st.
       fst (boot E C env config st))"

definition update_parameters ::
  "('t, 'b) store_lib \<Rightarrow> system_parameters \<Rightarrow> ('t, unit) handler"
where
  "update_parameters E ps =
     bindE (store (store_parameters E ps)) (\<lambda>_. modifyE (\<lambda>n. n\<lparr>n_parameters := ps\<rparr>))"

section \<open>Authentication\<close>

definition request_public_key ::
  "('t, 'b) store_lib \<Rightarrow> crypto_lib \<Rightarrow> 't coin_storage \<Rightarrow> bytes option \<Rightarrow> bytes option
     \<Rightarrow> state_error + bytes"
where
  "request_public_key E C st operator_id_header operator_public_header =
     (case operator_public_header of
        Some key \<Rightarrow> map_err (\<lambda>_. InvalidSignature) (normalize_bytes_to_hex C key 32)
      | None \<Rightarrow>
          (case operator_id_header of
             Some oid \<Rightarrow>
               and_then (map_err Internal (get_operator E st oid)) (\<lambda>o'.
               and_then (ok_or OperatorUnauthorized o') (\<lambda>op. Inr (op_pubkey op)))
           | None \<Rightarrow> Inl OperatorUnauthorized))"

definition ensure :: "bool \<Rightarrow> 'e \<Rightarrow> 'e + unit" where
  "ensure b e = (if b then Inr () else Inl e)"

definition verify_operator_request ::
  "('t, 'b) store_lib \<Rightarrow> crypto_lib \<Rightarrow> i64 \<Rightarrow> bytes \<Rightarrow> bytes \<Rightarrow> bytes \<Rightarrow> i64 option \<Rightarrow> bytes option
     \<Rightarrow> bytes option \<Rightarrow> bytes option \<Rightarrow> bool \<Rightarrow> 't node \<Rightarrow> state_error + operator"
where
  "verify_operator_request E C now method path body timestamp sig operator_id_header
     operator_public_header admin_only n =
     (let security = p_security (n_parameters n); st = n_storage n
      in if sp_dev_auth_bypass security \<and> sig = None
         then and_then (map_err Internal (get_operator E st (n_operator_id n))) (ok_or OperatorUnauthorized)
         else
           and_then (ok_or InvalidSignature timestamp) (\<lambda>ts.
           and_then (ensure (\<not> drifted (sp_timestamp_drift_ms security) now ts) InvalidSignature) (\<lambda>_.
           and_then (ok_or InvalidSignature sig) (\<lambda>sg.
           and_then (request_public_key E C st operator_id_header operator_public_header) (\<lambda>public_key.
           and_then (map_err (\<lambda>_. InvalidSignature) (operator_id_from_public_key C public_key)) (\<lambda>oid.
           and_then (ensure (case operator_id_header of None \<Rightarrow> True | Some h \<Rightarrow> h = oid) OperatorUnauthorized) (\<lambda>_.
           and_then (map_err Internal (get_operator E st oid)) (\<lambda>o'.
           and_then (ok_or OperatorUnauthorized o') (\<lambda>op.
           and_then (ensure (operator_active op \<and> op_pubkey op = public_key) OperatorUnauthorized) (\<lambda>_.
           and_then (ensure (admin_only \<longrightarrow> op_role op = Genesis) OperatorUnauthorized) (\<lambda>_.
           and_then (map_err (\<lambda>_. InvalidSignature)
                       (verify_ed25519 C public_key (canonical_request_message method path ts body) sg)) (\<lambda>valid.
           and_then (ensure valid InvalidSignature) (\<lambda>_. Inr op)))))))))))))"

definition verify_user_signature ::
  "crypto_lib \<Rightarrow> security_parameters \<Rightarrow> bytes \<Rightarrow> bytes \<Rightarrow> bytes \<Rightarrow> state_error + unit"
where
  "verify_user_signature C security public_key txid sig =
     (if sp_dev_auth_bypass security \<and> trim sig = [] then Inr ()
      else and_then (map_err (\<lambda>_. InvalidSignature) (tx_signing_message C txid)) (\<lambda>message.
           and_then (map_err (\<lambda>_. InvalidSignature) (verify_ed25519 C public_key message sig)) (\<lambda>valid.
           ensure valid InvalidSignature)))"

section \<open>Guards\<close>

definition check_wallet_rate_limit :: "i64 \<Rightarrow> ip_addr option \<Rightarrow> ('t, unit) handler" where
  "check_wallet_rate_limit now ip n =
     (case ip of
        None \<Rightarrow> (Inr (), n)
      | Some addr \<Rightarrow>
          let limit = sp_rate_limit_wallet_per_ip_per_day (p_security (n_parameters n))
          in if limit = 0 then (Inr (), n)
             else let q = (case n_rate_wallet_create n addr of None \<Rightarrow> [] | Some q \<Rightarrow> q);
                      (ok, q') = window_check limit wallet_window_ms now q;
                      n' = n\<lparr>n_rate_wallet_create := (n_rate_wallet_create n)(addr \<mapsto> q')\<rparr>
                  in (if ok then (Inr (), n') else (Inl RateLimitExceeded, n')))"

definition check_transfer_rate_limit :: "i64 \<Rightarrow> wallet_id \<Rightarrow> ('t, unit) handler" where
  "check_transfer_rate_limit now wid n =
     (let limit = sp_rate_limit_tx_per_wallet_per_minute (p_security (n_parameters n))
      in if limit = 0 then (Inr (), n)
         else let q = (case n_rate_wallet_tx n wid of None \<Rightarrow> [] | Some q \<Rightarrow> q);
                  (ok, q') = window_check limit tx_window_ms now q;
                  n' = n\<lparr>n_rate_wallet_tx := (n_rate_wallet_tx n)(wid \<mapsto> q')\<rparr>
              in (if ok then (Inr (), n') else (Inl RateLimitExceeded, n')))"

definition guard_operator_replay :: "i64 \<Rightarrow> bytes \<Rightarrow> i64 \<Rightarrow> ('t, unit) handler" where
  "guard_operator_replay now sig timestamp n =
     (let drift = i64_max (sp_timestamp_drift_ms (p_security (n_parameters n))) 0;
          (ok, seen) = replay_check drift now sig timestamp (n_seen_operator_sigs n);
          n' = n\<lparr>n_seen_operator_sigs := seen\<rparr>
      in (if ok then (Inr (), n') else (Inl InvalidSignature, n')))"

section \<open>Appending a transaction\<close>

definition append_tx_locked ::
  "('t, 'b) store_lib \<Rightarrow> crypto_lib \<Rightarrow> i64 \<Rightarrow> transaction \<Rightarrow> ('t, unit) handler"
where
  "append_tx_locked E C now tx =
     bindE (set_system (\<lambda>s. s\<lparr>ss_current_tick := sat_add (ss_current_tick s) 1\<rparr>)) (\<lambda>_.
     bindE (\<lambda>n. (map_err Internal
                  (build_entry C now (ss_current_tick (n_system n)) (ss_last_poh_hash (n_system n))
                     [tx_id tx] (n_validator_id n) (n_operator_secret n)), n)) (\<lambda>entry.
     bindE (set_system (\<lambda>s. s\<lparr>ss_last_poh_hash := pe_hash entry\<rparr>)) (\<lambda>_.
     bindE (\<lambda>n. store (put_transaction E tx (ss_current_tick (n_system n))) n) (\<lambda>_.
     store (put_poh_entry E entry)))))"

section \<open>Transaction ids\<close>

definition mint_tx_id ::
  "crypto_lib \<Rightarrow> wallet_id \<Rightarrow> micro_agc \<Rightarrow> u64 \<Rightarrow> operator_id \<Rightarrow> u64 \<Rightarrow> timestamp \<Rightarrow> bytes
     \<Rightarrow> state_error + bytes"
where
  "mint_tx_id C to amount eur_amount oid nonce timestamp category =
     map_err Internal (hash_serializable C (MintPayload to amount eur_amount oid nonce timestamp category))"

definition transfer_tx_id :: "crypto_lib \<Rightarrow> transfer_request \<Rightarrow> state_error + bytes" where
  "transfer_tx_id C r =
     and_then (map_err (\<lambda>_. InvalidSignature) (normalize_bytes_to_hex C (tr_sender_pubkey r) 32)) (\<lambda>key.
       map_err Internal (hash_serializable C
         (TransferPayload (tr_from r) (tr_to r) (tr_amount r) (tr_nonce r) (tr_timestamp r) key)))"

definition burn_tx_id :: "crypto_lib \<Rightarrow> burn_request \<Rightarrow> state_error + bytes" where
  "burn_tx_id C r =
     and_then (map_err (\<lambda>_. InvalidSignature) (normalize_bytes_to_hex C (br_sender_pubkey r) 32)) (\<lambda>key.
       map_err Internal (hash_serializable C
         (BurnPayload (br_from r) (br_amount r) (br_nonce r) (br_timestamp r) key)))"

end
