(* ===== verification/Ledger.thy ===== *)
theory Ledger
  imports Node
begin

text \<open>
  \<open>crates/aggora-state/src/lib.rs\<close>: the methods of \<open>CoinState\<close> that change the ledger.  Each has a
  part outside the lock, which only reads parameters and computes (\<open>prepare_...\<close>), and a part that
  holds the write half of \<open>system\<close> (\<open>..._locked\<close>).  The method is their composition; concurrent
  requests interleave between the two parts, never inside the second.
\<close>

section \<open>Shared steps\<close>

definition check_unlocked :: "('t, unit) handler" where
  "check_unlocked n = requireE (\<not> ss_iteration_lock (n_system n)) IterationInProgress n"

definition need_wallet :: "('t, 'b) store_lib \<Rightarrow> wallet_id \<Rightarrow> ('t, wallet) handler" where
  "need_wallet E wid =
     bindE (fetch (\<lambda>st. get_wallet E st wid)) (\<lambda>w. liftE (ok_or WalletNotFound w))"

definition store_system :: "('t, 'b) store_lib \<Rightarrow> ('t, unit) handler" where
  "store_system E n = store (store_state E (n_system n)) n"

definition next_tick :: "'t node \<Rightarrow> tick" where
  "next_tick n = ss_current_tick (n_system n) + 1"

definition fresh_wallet ::
  "wallet_id \<Rightarrow> public_key \<Rightarrow> micro_agc \<Rightarrow> tick \<Rightarrow> iteration_id \<Rightarrow> operator_id \<Rightarrow> wallet"
where
  "fresh_wallet wid key amount tick it oid =
     \<lparr>w_id = wid, w_pubkey = key, w_balance = amount, w_nonce = 0, w_created_at_tick = tick,
      w_created_at_iteration = it, w_created_by_operator = oid, w_iteration_tx_count = 0,
      w_iteration_counterparties = {}, w_last_active_iteration = it, w_activity_score = f64_one\<rparr>"

text \<open>The three counters a new wallet changes.\<close>

definition count_new_wallet :: "micro_agc \<Rightarrow> system_state \<Rightarrow> system_state" where
  "count_new_wallet amount s =
     s\<lparr>ss_total_supply := sat_add (ss_total_supply s) amount,
       ss_n_wallets := sat_add (ss_n_wallets s) 1,
       ss_n_active_wallets := sat_add (ss_n_active_wallets s) 1\<rparr>"

section \<open>Creating a wallet\<close>

definition prepare_create ::
  "crypto_lib \<Rightarrow> system_parameters \<Rightarrow> wallet_create_request \<Rightarrow> state_error + (public_key \<times> wallet_id)"
where
  "prepare_create C ps request =
     (if sp_require_captcha_proof (p_security ps) \<and> trim (wr_captcha_token request) = []
      then Inl (BadRequest ''captcha_token is required'')
      else and_then (map_err BadRequest (normalize_bytes_to_hex C (wr_public_key request) 32)) (\<lambda>key.
           and_then (map_err BadRequest (wallet_id_from_public_key C key)) (\<lambda>wid.
           Inr (key, wid))))"

definition seed_mint ::
  "hash \<Rightarrow> wallet_id \<Rightarrow> micro_agc \<Rightarrow> operator \<Rightarrow> tick \<Rightarrow> wallet_create_request \<Rightarrow> signature \<Rightarrow> transaction"
where
  "seed_mint txid wid amount op tick request operator_sig = Mint
     \<lparr>mt_tx_id = txid, mt_to = wid, mt_amount = amount, mt_eur_amount = 0,
      mt_operator_id = op_id op, mt_nonce = tick, mt_timestamp = wr_timestamp request,
      mt_operator_sig = operator_sig, mt_category = ''wallet_seed''\<rparr>"

definition create_wallet_locked ::
  "('t, 'b) store_lib \<Rightarrow> crypto_lib \<Rightarrow> i64 \<Rightarrow> system_parameters \<Rightarrow> public_key \<Rightarrow> wallet_id
     \<Rightarrow> wallet_create_request \<Rightarrow> operator \<Rightarrow> signature \<Rightarrow> ('t, wallet_create_response) handler"
where
  "create_wallet_locked E C now ps key wid request op operator_sig =
     bindE check_unlocked (\<lambda>_.
     bindE (fetch (\<lambda>st. get_wallet E st wid)) (\<lambda>existing.
     bindE (requireE (existing = None) WalletAlreadyExists) (\<lambda>_.
     bindE (getE next_tick) (\<lambda>tick.
     bindE (getE (\<lambda>n. ss_current_iteration (n_system n))) (\<lambda>it.
     let amount = micro_seed ps in
     bindE (liftE (mint_tx_id C wid amount 0 (op_id op) tick (wr_timestamp request) ''wallet_seed'')) (\<lambda>txid.
     bindE (store (put_wallet E (fresh_wallet wid key amount tick it (op_id op)))) (\<lambda>_.
     bindE (set_system (count_new_wallet amount)) (\<lambda>_.
     bindE (append_tx_locked E C now (seed_mint txid wid amount op tick request operator_sig)) (\<lambda>_.
     bindE (store_system E) (\<lambda>_.
     returnE \<lparr>wcr_wallet_id = wid, wcr_public_key = key, wcr_balance = amount,
              wcr_created_at_tick = tick, wcr_tx_id = txid\<rparr>))))))))))"

definition create_wallet ::
  "('t, 'b) store_lib \<Rightarrow> crypto_lib \<Rightarrow> i64 \<Rightarrow> wallet_create_request \<Rightarrow> operator \<Rightarrow> signature
     \<Rightarrow> ('t, wallet_create_response) handler"
where
  "create_wallet E C now request op operator_sig =
     bindE (getE n_parameters) (\<lambda>ps.
     bindE (liftE (prepare_create C ps request)) (\<lambda>(key, wid).
     create_wallet_locked E C now ps key wid request op operator_sig))"

section \<open>Charging a wallet\<close>

definition prepare_charge :: "i64 \<Rightarrow> charge_request \<Rightarrow> signature \<Rightarrow> ('t, unit) handler" where
  "prepare_charge now request operator_sig =
     bindE (requireE (cr_amount request \<noteq> 0) (BadRequest ''amount must be greater than zero'')) (\<lambda>_.
     guard_operator_replay now operator_sig (cr_timestamp request))"

definition charge_mint :: "hash \<Rightarrow> operator \<Rightarrow> tick \<Rightarrow> charge_request \<Rightarrow> signature \<Rightarrow> transaction" where
  "charge_mint txid op tick request operator_sig = Mint
     \<lparr>mt_tx_id = txid, mt_to = cr_to request, mt_amount = cr_amount request,
      mt_eur_amount = cr_eur_amount request, mt_operator_id = op_id op, mt_nonce = tick,
      mt_timestamp = cr_timestamp request, mt_operator_sig = operator_sig,
      mt_category = ''charge''\<rparr>"

definition charge_locked ::
  "('t, 'b) store_lib \<Rightarrow> crypto_lib \<Rightarrow> i64 \<Rightarrow> charge_request \<Rightarrow> operator \<Rightarrow> signature
     \<Rightarrow> ('t, tx_accepted_response) handler"
where
  "charge_locked E C now request op operator_sig =
     bindE check_unlocked (\<lambda>_.
     bindE (need_wallet E (cr_to request)) (\<lambda>w.
     bindE (getE next_tick) (\<lambda>tick.
     bindE (liftE (mint_tx_id C (cr_to request) (cr_amount request) (cr_eur_amount request) (op_id op) tick
              (cr_timestamp request) ''charge'')) (\<lambda>txid.
     bindE (store (put_wallet E (w\<lparr>w_balance := sat_add (w_balance w) (cr_amount request)\<rparr>))) (\<lambda>_.
     bindE (set_system (\<lambda>s. s\<lparr>ss_total_supply := sat_add (ss_total_supply s) (cr_amount request)\<rparr>)) (\<lambda>_.
     bindE (append_tx_locked E C now (charge_mint txid op tick request operator_sig)) (\<lambda>_.
     bindE (store_system E) (\<lambda>_.
     returnE \<lparr>ta_tx_id = txid, ta_tick = tick\<rparr>))))))))"

text \<open>The clock is read once for the replay guard and once for the log entry.\<close>

definition charge ::
  "('t, 'b) store_lib \<Rightarrow> crypto_lib \<Rightarrow> i64 \<Rightarrow> i64 \<Rightarrow> charge_request \<Rightarrow> operator \<Rightarrow> signature
     \<Rightarrow> ('t, tx_accepted_response) handler"
where
  "charge E C now_guard now request op operator_sig =
     bindE (prepare_charge now_guard request operator_sig) (\<lambda>_. charge_locked E C now request op operator_sig)"

section \<open>Transfers\<close>

definition prepare_transfer ::
  "crypto_lib \<Rightarrow> security_parameters \<Rightarrow> transfer_request \<Rightarrow> state_error + (hash \<times> public_key)"
where
  "prepare_transfer C security r =
     (if tr_from r = tr_to r then Inl (BadRequest ''from and to must differ'')
      else if tr_amount r = 0 then Inl (BadRequest ''amount must be greater than zero'')
      else
        and_then (map_err (\<lambda>_. InvalidSignature) (wallet_id_from_public_key C (tr_sender_pubkey r))) (\<lambda>wid.
        and_then (ensure (wid = tr_from r) InvalidSignature) (\<lambda>_.
        and_then (transfer_tx_id C r) (\<lambda>txid.
        and_then (map_err (\<lambda>_. InvalidSignature) (normalize_bytes_to_hex C (tr_sender_pubkey r) 32)) (\<lambda>key.
        and_then (verify_user_signature C security (tr_sender_pubkey r) txid (tr_user_sig r)) (\<lambda>_.
        Inr (txid, key)))))))"

definition debit_transfer :: "iteration_id \<Rightarrow> transfer_request \<Rightarrow> wallet \<Rightarrow> wallet" where
  "debit_transfer it r w =
     w\<lparr>w_balance := w_balance w - tr_amount r, w_nonce := w_nonce w + 1,
       w_iteration_tx_count := w_iteration_tx_count w + 1,
       w_iteration_counterparties := insert (tr_to r) (w_iteration_counterparties w),
       w_last_active_iteration := it\<rparr>"

definition credit_transfer :: "iteration_id \<Rightarrow> transfer_request \<Rightarrow> wallet \<Rightarrow> wallet" where
  "credit_transfer it r w =
     w\<lparr>w_balance := sat_add (w_balance w) (tr_amount r),
       w_iteration_tx_count := w_iteration_tx_count w + 1,
       w_iteration_counterparties := insert (tr_from r) (w_iteration_counterparties w),
       w_last_active_iteration := it\<rparr>"

definition newly_active :: "iteration_id \<Rightarrow> wallet \<Rightarrow> u64" where
  "newly_active it w = (if w_last_active_iteration w \<noteq> it then 1 else 0)"

definition transfer_tx_of :: "hash \<Rightarrow> public_key \<Rightarrow> transfer_request \<Rightarrow> transaction" where
  "transfer_tx_of txid key r = Transfer
     \<lparr>tt_tx_id = txid, tt_from = tr_from r, tt_to = tr_to r, tt_amount = tr_amount r,
      tt_nonce = tr_nonce r, tt_timestamp = tr_timestamp r, tt_sender_pubkey = key,
      tt_user_sig = tr_user_sig r\<rparr>"

definition transfer_locked ::
  "('t, 'b) store_lib \<Rightarrow> crypto_lib \<Rightarrow> i64 \<Rightarrow> transfer_request \<Rightarrow> hash \<Rightarrow> public_key
     \<Rightarrow> ('t, tx_accepted_response) handler"
where
  "transfer_locked E C now r txid key =
     bindE check_unlocked (\<lambda>_.
     bindE (need_wallet E (tr_from r)) (\<lambda>src.
     bindE (need_wallet E (tr_to r)) (\<lambda>dst.
     bindE (requireE (w_nonce src = tr_nonce r) InvalidNonce) (\<lambda>_.
     bindE (requireE (\<not> w_balance src < tr_amount r) InsufficientBalance) (\<lambda>_.
     bindE (getE next_tick) (\<lambda>tick.
     bindE (getE (\<lambda>n. ss_current_iteration (n_system n))) (\<lambda>it.
     bindE (store (put_wallet E (debit_transfer it r src))) (\<lambda>_.
     bindE (store (put_wallet E (credit_transfer it r dst))) (\<lambda>_.
     bindE (append_tx_locked E C now (transfer_tx_of txid key r)) (\<lambda>_.
     bindE (set_system (\<lambda>s. s\<lparr>ss_n_active_wallets :=
              sat_add (ss_n_active_wallets s) (newly_active it src + newly_active it dst)\<rparr>)) (\<lambda>_.
     bindE (store_system E) (\<lambda>_.
     returnE \<lparr>ta_tx_id = txid, ta_tick = tick\<rparr>))))))))))))"

definition transfer ::
  "('t, 'b) store_lib \<Rightarrow> crypto_lib \<Rightarrow> i64 \<Rightarrow> transfer_request \<Rightarrow> ('t, tx_accepted_response) handler"
where
  "transfer E C now r =
     bindE (\<lambda>n. (prepare_transfer C (p_security (n_parameters n)) r, n)) (\<lambda>(txid, key).
     transfer_locked E C now r txid key)"

section \<open>Burns\<close>

definition prepare_burn ::
  "crypto_lib \<Rightarrow> security_parameters \<Rightarrow> burn_request \<Rightarrow> state_error + (hash \<times> public_key)"
where
  "prepare_burn C security r =
     (if br_amount r = 0 then Inl (BadRequest ''amount must be greater than zero'')
      else
        and_then (map_err (\<lambda>_. InvalidSignature) (wallet_id_from_public_key C (br_sender_pubkey r))) (\<lambda>wid.
        and_then (ensure (wid = br_from r) InvalidSignature) (\<lambda>_.
        and_then (burn_tx_id C r) (\<lambda>txid.
        and_then (map_err (\<lambda>_. InvalidSignature) (normalize_bytes_to_hex C (br_sender_pubkey r) 32)) (\<lambda>key.
        and_then (verify_user_signature C security (br_sender_pubkey r) txid (br_user_sig r)) (\<lambda>_.
        Inr (txid, key)))))))"

definition debit_burn :: "iteration_id \<Rightarrow> burn_request \<Rightarrow> wallet \<Rightarrow> wallet" where
  "debit_burn it r w =
     w\<lparr>w_balance := w_balance w - br_amount r, w_nonce := w_nonce w + 1,
       w_iteration_tx_count := w_iteration_tx_count w + 1, w_last_active_iteration := it\<rparr>"

definition burn_tx_of :: "hash \<Rightarrow> public_key \<Rightarrow> burn_request \<Rightarrow> transaction" where
  "burn_tx_of txid key r = Burn
     \<lparr>bt_tx_id = txid, bt_from = br_from r, bt_amount = br_amount r, bt_nonce = br_nonce r,
      bt_timestamp = br_timestamp r, bt_sender_pubkey = key, bt_user_sig = br_user_sig r\<rparr>"

definition burn_locked ::
  "('t, 'b) store_lib \<Rightarrow> crypto_lib \<Rightarrow> i64 \<Rightarrow> burn_request \<Rightarrow> hash \<Rightarrow> public_key
     \<Rightarrow> ('t, tx_accepted_response) handler"
where
  "burn_locked E C now r txid key =
     bindE check_unlocked (\<lambda>_.
     bindE (need_wallet E (br_from r)) (\<lambda>w.
     bindE (requireE (w_nonce w = br_nonce r) InvalidNonce) (\<lambda>_.
     bindE (requireE (\<not> w_balance w < br_amount r) InsufficientBalance) (\<lambda>_.
     bindE (getE next_tick) (\<lambda>tick.
     bindE (getE (\<lambda>n. ss_current_iteration (n_system n))) (\<lambda>it.
     bindE (store (put_wallet E (debit_burn it r w))) (\<lambda>_.
     bindE (set_system (\<lambda>s. s\<lparr>ss_total_supply := sat_sub (ss_total_supply s) (br_amount r)\<rparr>)) (\<lambda>_.
     bindE (append_tx_locked E C now (burn_tx_of txid key r)) (\<lambda>_.
     bindE (set_system (\<lambda>s. s\<lparr>ss_n_active_wallets :=
              sat_add (ss_n_active_wallets s) (newly_active it w)\<rparr>)) (\<lambda>_.
     bindE (store_system E) (\<lambda>_.
     returnE \<lparr>ta_tx_id = txid, ta_tick = tick\<rparr>)))))))))))"

definition burn ::
  "('t, 'b) store_lib \<Rightarrow> crypto_lib \<Rightarrow> i64 \<Rightarrow> burn_request \<Rightarrow> ('t, tx_accepted_response) handler"
where
  "burn E C now r =
     bindE (\<lambda>n. (prepare_burn C (p_security (n_parameters n)) r, n)) (\<lambda>(txid, key).
     burn_locked E C now r txid key)"

section \<open>Iterations\<close>

text \<open>\<open>for wallet in &result.wallets { put_wallet(wallet)?; }\<close>\<close>

fun put_wallets :: "('t, 'b) store_lib \<Rightarrow> wallet list \<Rightarrow> ('t coin_storage, bytes, unit) comp" where
  "put_wallets E [] st = (Inr (), st)"
| "put_wallets E (w # ws) st = bindE (put_wallet E w) (\<lambda>_. put_wallets E ws) st"

definition commit_system :: "iteration_result \<Rightarrow> system_state \<Rightarrow> system_state" where
  "commit_system r s =
     s\<lparr>ss_total_supply := ic_post_supply (ir_commit r),
       ss_n_wallets := of_nat (length (ir_wallets r)),
       ss_n_active_wallets := of_nat (length (ic_new_wallets (ir_commit r))),
       ss_current_iteration := ic_iteration_id (ir_commit r),
       ss_iteration_started_at := ss_current_tick s,
       ss_previous_iteration_start_supply := ic_snapshot_supply (ir_commit r),
       ss_previous_iteration_supply := ic_post_supply (ir_commit r),
       ss_last_inflation := ic_inflation (ir_commit r),
       ss_last_gini := compute_gini (ir_wallets r),
       ss_iteration_lock := False\<rparr>"

definition iteration_snapshot ::
  "i64 \<Rightarrow> system_parameters \<Rightarrow> iteration_result \<Rightarrow> system_state \<Rightarrow> snapshot"
where
  "iteration_snapshot now ps r s =
     \<lparr>sn_iteration_id = ic_iteration_id (ir_commit r), sn_tick = ss_current_tick s, sn_timestamp = now,
      sn_parameters = ps, sn_system_state = s, sn_wallets = ir_wallets r,
      sn_poh_anchor = Some (ss_last_poh_hash s)\<rparr>"

definition commit_iteration ::
  "('t, 'b) store_lib \<Rightarrow> crypto_lib \<Rightarrow> i64 \<Rightarrow> system_parameters \<Rightarrow> iteration_result \<Rightarrow> ('t, unit) handler"
where
  "commit_iteration E C now ps r =
     bindE (store (put_wallets E (ir_wallets r))) (\<lambda>_.
     bindE (set_system (commit_system r)) (\<lambda>_.
     bindE (append_tx_locked E C now (IterationCommit (ir_commit r))) (\<lambda>_.
     bindE (store (put_iteration E (ir_commit r))) (\<lambda>_.
     bindE (store_system E) (\<lambda>_.
     bindE (if st_snapshot_per_iteration (p_storage ps)
            then (\<lambda>n. bindE (store (write_snapshot E (ic_iteration_id (ir_commit r))
                        (iteration_snapshot now ps r (n_system n)))) (\<lambda>_. returnE ()) n)
            else returnE ()) (\<lambda>_.
     store (storage_flush E)))))))"

text \<open>The value \<open>None\<close> is a panic of \<open>execute_iteration\<close>: the write guard is dropped, the node stays.\<close>

definition iteration_locked ::
  "('t, 'b) store_lib \<Rightarrow> crypto_lib \<Rightarrow> float_lib \<Rightarrow> i64 \<Rightarrow> system_parameters
     \<Rightarrow> ('t, iteration_commit option) handler"
where
  "iteration_locked E C F now ps =
     bindE check_unlocked (\<lambda>_.
     bindE (set_system (\<lambda>s. s\<lparr>ss_iteration_lock := True\<rparr>)) (\<lambda>_.
     bindE (store_system E) (\<lambda>_.
     bindE (fetch (list_wallets E)) (\<lambda>wallets.
     bindE (getE (\<lambda>n. execute_iteration F C wallets ps (n_system n) (n_operator_id n))) (\<lambda>outcome.
     case outcome of
       None \<Rightarrow> returnE None
     | Some result \<Rightarrow>
         bindE (liftE (map_err Internal result)) (\<lambda>r.
         bindE (commit_iteration E C now ps r) (\<lambda>_. returnE (Some (ir_commit r)))))))))"

definition execute_iteration_now ::
  "('t, 'b) store_lib \<Rightarrow> crypto_lib \<Rightarrow> float_lib \<Rightarrow> i64 \<Rightarrow> ('t, iteration_commit option) handler"
where
  "execute_iteration_now E C F now = bindE (getE n_parameters) (iteration_locked E C F now)"

section \<open>Seed files\<close>

definition bootstrap_mint ::
  "hash \<Rightarrow> wallet_id \<Rightarrow> micro_agc \<Rightarrow> operator_id \<Rightarrow> tick \<Rightarrow> timestamp \<Rightarrow> transaction"
where
  "bootstrap_mint txid wid amount oid tick now_tx = Mint
     \<lparr>mt_tx_id = txid, mt_to = wid, mt_amount = amount, mt_eur_amount = 0,
      mt_operator_id = oid, mt_nonce = tick, mt_timestamp = now_tx, mt_operator_sig = [],
      mt_category = ''seed_bootstrap''\<rparr>"

text \<open>
  One entry of \<open>initial_wallets\<close>; the result tells whether a wallet was installed.  The clock is
  read for the transaction id, for the transaction and for the log entry.
\<close>

definition install_seed_entry ::
  "('t, 'b) store_lib \<Rightarrow> crypto_lib \<Rightarrow> i64 \<Rightarrow> i64 \<Rightarrow> i64 \<Rightarrow> micro_agc \<Rightarrow> seed_wallet \<Rightarrow> ('t, bool) handler"
where
  "install_seed_entry E C now_id now_tx now_entry default_seed entry =
     bindE (liftE (map_err BadRequest (normalize_bytes_to_hex C (sw_public_key entry) 32))) (\<lambda>key.
     bindE (liftE (map_err BadRequest (wallet_id_from_public_key C key))) (\<lambda>wid.
     bindE (fetch (\<lambda>st. get_wallet E st wid)) (\<lambda>existing.
     if existing \<noteq> None then returnE False
     else
       let amount = (case sw_initial_balance entry of None \<Rightarrow> default_seed | Some a \<Rightarrow> a) in
       bindE (getE next_tick) (\<lambda>tick.
       bindE (getE (\<lambda>n. ss_current_iteration (n_system n))) (\<lambda>it.
       bindE (getE n_operator_id) (\<lambda>oid.
       bindE (liftE (mint_tx_id C wid amount 0 oid tick now_id ''seed_bootstrap'')) (\<lambda>txid.
       bindE (store (put_wallet E (fresh_wallet wid key amount tick it oid))) (\<lambda>_.
       bindE (set_system (count_new_wallet amount)) (\<lambda>_.
       bindE (append_tx_locked E C now_entry (bootstrap_mint txid wid amount oid tick now_tx)) (\<lambda>_.
       returnE True))))))))))"

fun install_seed_entries ::
  "('t, 'b) store_lib \<Rightarrow> crypto_lib \<Rightarrow> (nat \<Rightarrow> i64) \<Rightarrow> micro_agc \<Rightarrow> nat \<Rightarrow> seed_wallet list \<Rightarrow> ('t, nat) handler"
where
  "install_seed_entries E C clock default_seed k [] n = (Inr 0, n)"
| "install_seed_entries E C clock default_seed k (entry # entries) n =
     bindE (install_seed_entry E C (clock (3 * k)) (clock (3 * k + 1)) (clock (3 * k + 2)) default_seed entry)
       (\<lambda>new. bindE (install_seed_entries E C clock default_seed (Suc k) entries)
          (\<lambda>installed. returnE (if new then Suc installed else installed))) n"

definition install_seed_locked ::
  "('t, 'b) store_lib \<Rightarrow> crypto_lib \<Rightarrow> (nat \<Rightarrow> i64) \<Rightarrow> micro_agc \<Rightarrow> seed_file \<Rightarrow> ('t, nat) handler"
where
  "install_seed_locked E C clock default_seed seed =
     bindE check_unlocked (\<lambda>_.
     bindE (install_seed_entries E C clock default_seed 0 (sf_initial_wallets seed)) (\<lambda>installed.
     bindE (store_system E) (\<lambda>_.
     bindE (store (storage_flush E)) (\<lambda>_.
     returnE installed))))"

definition install_seed ::
  "('t, 'b) store_lib \<Rightarrow> crypto_lib \<Rightarrow> (nat \<Rightarrow> i64) \<Rightarrow> seed_file \<Rightarrow> ('t, nat) handler"
where
  "install_seed E C clock seed =
     bindE (getE n_parameters) (\<lambda>ps. install_seed_locked E C clock (micro_seed ps) seed)"

section \<open>Snapshots, statistics and the simulation switch\<close>

definition create_manual_snapshot :: "('t, 'b) store_lib \<Rightarrow> i64 \<Rightarrow> ('t, snapshot) handler" where
  "create_manual_snapshot E now =
     bindE (getE n_system) (\<lambda>s.
     bindE (getE n_parameters) (\<lambda>ps.
     bindE (fetch (list_wallets E)) (\<lambda>wallets.
     let payload = \<lparr>sn_iteration_id = ss_current_iteration s, sn_tick = ss_current_tick s,
                    sn_timestamp = now, sn_parameters = ps, sn_system_state = s, sn_wallets = wallets,
                    sn_poh_anchor = None\<rparr> in
     bindE (store (write_snapshot E (ss_current_iteration s) payload)) (\<lambda>_. returnE payload))))"

definition stats :: "'t node \<Rightarrow> stats_response" where
  "stats n =
     (let s = n_system n
      in \<lparr>sr_current_tick = ss_current_tick s, sr_current_iteration = ss_current_iteration s,
          sr_total_supply = ss_total_supply s, sr_n_wallets = ss_n_wallets s,
          sr_n_active_wallets = ss_n_active_wallets s, sr_gini = ss_last_gini s,
          sr_last_poh_hash = ss_last_poh_hash s, sr_last_inflation = ss_last_inflation s\<rparr>)"

definition live_gini :: "('t, 'b) store_lib \<Rightarrow> ('t, f64) handler" where
  "live_gini E = bindE (fetch (list_wallets E)) (\<lambda>ws. returnE (compute_gini ws))"

definition set_simulation_running :: "bool \<Rightarrow> bytes \<Rightarrow> ('t, simulation_status) handler" where
  "set_simulation_running running mode =
     bindE (modifyE (\<lambda>n. n\<lparr>n_simulation := (n_simulation n)\<lparr>sim_running := running, sim_mode := mode\<rparr>\<rparr>))
       (\<lambda>_. getE n_simulation)"

text \<open>The loop of \<open>run_simulation_iterations\<close>; \<open>None\<close> is again a panic.\<close>

fun simulation_loop ::
  "('t, 'b) store_lib \<Rightarrow> crypto_lib \<Rightarrow> float_lib \<Rightarrow> (nat \<Rightarrow> i64) \<Rightarrow> nat \<Rightarrow> ('t, unit option) handler"
where
  "simulation_loop E C F clock 0 n = (Inr (Some ()), n)"
| "simulation_loop E C F clock (Suc k) n =
     bindE (execute_iteration_now E C F (clock 0)) (\<lambda>commit.
       case commit of
         None \<Rightarrow> returnE None
       | Some _ \<Rightarrow>
           bindE (modifyE (\<lambda>n. n\<lparr>n_simulation := (n_simulation n)
                    \<lparr>sim_iterations_executed := sim_iterations_executed (n_simulation n) + 1\<rparr>\<rparr>)) (\<lambda>_.
           simulation_loop E C F (\<lambda>i. clock (Suc i)) k)) n"

definition run_simulation_iterations ::
  "('t, 'b) store_lib \<Rightarrow> crypto_lib \<Rightarrow> float_lib \<Rightarrow> (nat \<Rightarrow> i64) \<Rightarrow> u64 \<Rightarrow> ('t, simulation_status option) handler"
where
  "run_simulation_iterations E C F clock iterations =
     bindE (modifyE (\<lambda>n. n\<lparr>n_simulation := (n_simulation n)\<lparr>sim_running := True, sim_mode := ''manual''\<rparr>\<rparr>)) (\<lambda>_.
     bindE (simulation_loop E C F clock (unat iterations)) (\<lambda>done_all.
     case done_all of
       None \<Rightarrow> returnE None
     | Some _ \<Rightarrow>
         bindE (modifyE (\<lambda>n. n\<lparr>n_simulation := (n_simulation n)\<lparr>sim_running := False\<rparr>\<rparr>)) (\<lambda>_.
         getE (\<lambda>n. Some (n_simulation n)))))"

end
