(* ===== verification/Ledger_Props.thy ===== *)
theory Ledger_Props
  imports Ledger Storage_Props
begin

text \<open>
  What the locked parts of the ledger methods do, as equations on the abstract ledger (the map of
  wallets the storage holds) and the system state, and what a refused request leaves behind.
\<close>

section \<open>Inversion of the node's primitive steps\<close>

lemma store_Inr [step_simps]:
  "store m n = (Inr a, n') \<longleftrightarrow> (\<exists>st. m (n_storage n) = (Inr a, st) \<and> n' = n\<lparr>n_storage := st\<rparr>)"
  by (auto simp: store_def map_err_Inr_iff split: prod.splits)

lemma store_Inl [step_simps]:
  "store m n = (Inl e, n') \<longleftrightarrow>
     (\<exists>msg st. m (n_storage n) = (Inl msg, st) \<and> e = Internal msg \<and> n' = n\<lparr>n_storage := st\<rparr>)"
  by (auto simp: store_def map_err_def split: prod.splits sum.splits)

lemma fetch_Inr [step_simps]: "fetch f n = (Inr a, n') \<longleftrightarrow> f (n_storage n) = Inr a \<and> n' = n"
  by (auto simp: fetch_def map_err_Inr_iff)

lemma fetch_Inl [step_simps]:
  "fetch f n = (Inl e, n') \<longleftrightarrow> (\<exists>msg. f (n_storage n) = Inl msg \<and> e = Internal msg \<and> n' = n)"
  by (auto simp: fetch_def map_err_def split: sum.splits)

lemma set_system_step [step_simps, simp]: "set_system f n = (Inr (), n\<lparr>n_system := f (n_system n)\<rparr>)"
  by (simp add: set_system_def)

lemma check_unlocked_Inr [step_simps]:
  "check_unlocked n = (Inr u, n') \<longleftrightarrow> \<not> ss_iteration_lock (n_system n) \<and> n' = n"
  by (auto simp: check_unlocked_def step_simps)

lemma check_unlocked_Inl [step_simps]:
  "check_unlocked n = (Inl e, n') \<longleftrightarrow> ss_iteration_lock (n_system n) \<and> e = IterationInProgress \<and> n' = n"
  by (auto simp: check_unlocked_def step_simps)

lemma need_wallet_Inr [step_simps]:
  "need_wallet E wid n = (Inr w, n') \<longleftrightarrow> get_wallet E (n_storage n) wid = Inr (Some w) \<and> n' = n"
  by (auto simp: need_wallet_def step_simps)

lemma ok_or_Inl_iff [step_simps]: "ok_or e x = Inl e' \<longleftrightarrow> x = None \<and> e' = e"
  by (cases x) auto

lemma map_err_Inl_iff [step_simps]: "map_err f r = Inl e \<longleftrightarrow> (\<exists>e0. r = Inl e0 \<and> e = f e0)"
  by (cases r) auto

lemma and_then_Inl_iff [step_simps]:
  "and_then r f = Inl e \<longleftrightarrow> r = Inl e \<or> (\<exists>a. r = Inr a \<and> f a = Inl e)"
  by (cases r) auto

lemma ensure_Inr [step_simps]: "ensure b e = Inr u \<longleftrightarrow> b"
  by (auto simp: ensure_def)

lemma ensure_Inl [step_simps]: "ensure b e = Inl e' \<longleftrightarrow> \<not> b \<and> e' = e"
  by (auto simp: ensure_def)

section \<open>Abstract state\<close>

abbreviation ledger :: "('t, 'b) store_view \<Rightarrow> 't node \<Rightarrow> wallet_id \<rightharpoonup> wallet" where
  "ledger V n \<equiv> wallet_contents V (n_storage n)"

abbreviation poh_log :: "('t, 'b) store_view \<Rightarrow> 't node \<Rightarrow> tick \<rightharpoonup> poh_entry" where
  "poh_log V n \<equiv> poh_contents V (n_storage n)"

abbreviation tx_log :: "('t, 'b) store_view \<Rightarrow> 't node \<Rightarrow> hash \<rightharpoonup> transaction" where
  "tx_log V n \<equiv> tx_contents V (n_storage n)"

text \<open>A node differs from another in its storage and its system state only.\<close>

definition same_frame :: "'t node \<Rightarrow> 't node \<Rightarrow> bool" where
  "same_frame n n' \<longleftrightarrow> n' = n\<lparr>n_storage := n_storage n', n_system := n_system n'\<rparr>"

lemma same_frame_refl [simp]: "same_frame n n"
  by (simp add: same_frame_def)

lemma same_frame_trans: "same_frame n m \<Longrightarrow> same_frame m k \<Longrightarrow> same_frame n k"
  unfolding same_frame_def by (metis node.surjective node.update_convs(1,3))

lemma same_frame_upd [simp]:
  "same_frame n (m\<lparr>n_storage := st\<rparr>) \<longleftrightarrow> same_frame n m"
  "same_frame n (m\<lparr>n_system := s\<rparr>) \<longleftrightarrow> same_frame n m"
  by (cases n; cases m; simp add: same_frame_def)+

section \<open>Storage steps leave the other trees alone\<close>

lemma put_wallet_Inr:
  assumes "store_laws E V" "put_wallet E w st = (Inr u, st')"
  shows "wallet_contents V st' = (wallet_contents V st)(w_id w \<mapsto> wallet_core w)"
    and "poh_contents V st' = poh_contents V st" and "tx_contents V st' = tx_contents V st"
  using wallets.put_contents [OF assms(1), of w st st'] assms(2)
  by (auto dest!: put_wallet_cases simp: poh_contents_def tx_contents_def fun_eq_iff)

lemma put_index_frame:
  "put_index E txid tick wids st = (r, st') \<Longrightarrow> \<exists>t. st' = st\<lparr>cs_tx_by_wallet := t\<rparr>"
proof (induction wids arbitrary: st)
  case Nil
  then show ?case by (auto intro: exI [of _ "cs_tx_by_wallet st"])
next
  case (Cons wid wids)
  show ?case
  proof (cases "sl_insert E (cs_tx_by_wallet st) (index_key wid tick txid) (sl_raw E txid)")
    case (Inl e)
    then show ?thesis using Cons.prems by (auto intro: exI [of _ "cs_tx_by_wallet st"])
  next
    case (Inr t)
    then have "put_index E txid tick wids (st\<lparr>cs_tx_by_wallet := t\<rparr>) = (r, st')" using Cons.prems by simp
    from Cons.IH [OF this] show ?thesis by auto
  qed
qed

lemma put_transaction_Inr:
  assumes "store_laws E V" "put_transaction E tx tick st = (Inr u, st')"
  shows "tx_contents V st' = (tx_contents V st)(tx_id tx \<mapsto> tx_core tx)"
    and "wallet_contents V st' = wallet_contents V st" and "poh_contents V st' = poh_contents V st"
proof -
  obtain t where t: "put_json E (js_transaction E) (cs_transactions st) (tx_id tx) tx = Inr t"
    "put_index E (tx_id tx) tick (wallet_ids tx) (st\<lparr>cs_transactions := t\<rparr>) = (Inr u, st')"
    using assms(2) by (auto simp: put_transaction_def split: sum.splits)
  obtain x where x: "st' = st\<lparr>cs_transactions := t, cs_tx_by_wallet := x\<rparr>"
    using put_index_frame [OF t(2)] by auto
  obtain b where "tree_map V t = (tree_map V (cs_transactions st))(tx_id tx \<mapsto> b)"
    "vw_transaction V b = Some (tx_core tx)"
    using put_json_view [OF store_lawsD(1) [OF assms(1)] store_lawsD(4) [OF assms(1)] t(1)] by blast
  then show "tx_contents V st' = (tx_contents V st)(tx_id tx \<mapsto> tx_core tx)"
    by (simp add: x tx_contents_def fun_eq_iff)
  show "wallet_contents V st' = wallet_contents V st" "poh_contents V st' = poh_contents V st"
    by (simp_all add: x wallet_contents_def poh_contents_def fun_eq_iff)
qed

lemma put_poh_entry_Inr:
  assumes "store_laws E V" "put_poh_entry E e st = (Inr u, st')"
  shows "poh_contents V st' = (poh_contents V st)(pe_tick e \<mapsto> e)"
    and "wallet_contents V st' = wallet_contents V st" and "tx_contents V st' = tx_contents V st"
proof -
  obtain t where t: "put_json E (js_poh_entry E) (cs_poh_log st) (to_be_bytes (pe_tick e)) e = Inr t"
    "st' = st\<lparr>cs_poh_log := t\<rparr>"
    using assms(2) by (auto simp: put_poh_entry_def split: sum.splits)
  obtain b where "tree_map V t = (tree_map V (cs_poh_log st))(to_be_bytes (pe_tick e) \<mapsto> b)" "vw_poh V b = Some (id e)"
    using put_json_view [OF store_lawsD(1) [OF assms(1)] store_lawsD(5) [OF assms(1)] t(1)] by blast
  then show "poh_contents V st' = (poh_contents V st)(pe_tick e \<mapsto> e)"
    by (simp add: t poh_contents_def fun_eq_iff)
  show "wallet_contents V st' = wallet_contents V st" "tx_contents V st' = tx_contents V st"
    by (simp_all add: t wallet_contents_def tx_contents_def fun_eq_iff)
qed

lemma store_state_Inr:
  assumes "store_state E s st = (r, st')"
  shows "wallet_contents V st' = wallet_contents V st" and "poh_contents V st' = poh_contents V st"
    and "tx_contents V st' = tx_contents V st"
  using assms
  by (auto simp: store_state_def wallet_contents_def poh_contents_def tx_contents_def fun_eq_iff split: sum.splits)

section \<open>Appending a transaction\<close>

text \<open>The log entry an append adds, and what it does to the system state.\<close>

definition appended :: "crypto_lib \<Rightarrow> 't node \<Rightarrow> transaction \<Rightarrow> poh_entry \<Rightarrow> bool" where
  "appended C n tx e \<longleftrightarrow>
     pe_tick e = sat_add (ss_current_tick (n_system n)) 1 \<and> pe_tx_ids e = [tx_id tx] \<and>
     verify_chain C (ss_last_poh_hash (n_system n)) e = Inr True"

definition advance :: "poh_entry \<Rightarrow> system_state \<Rightarrow> system_state" where
  "advance e s = s\<lparr>ss_current_tick := pe_tick e, ss_last_poh_hash := pe_hash e\<rparr>"

lemma append_tx_Inr:
  assumes laws: "store_laws E V" and ok: "append_tx_locked E C now tx n = (Inr u, n')"
  shows "\<exists>e. appended C n tx e \<and> n_system n' = advance e (n_system n) \<and> ledger V n' = ledger V n
    \<and> poh_log V n' = (poh_log V n)(pe_tick e \<mapsto> e) \<and> tx_log V n' = (tx_log V n)(tx_id tx \<mapsto> tx_core tx)
    \<and> same_frame n n'"
proof -
  let ?s = "(n_system n)\<lparr>ss_current_tick := sat_add (ss_current_tick (n_system n)) 1\<rparr>"
  obtain e st1 st2 where e: "build_entry C now (ss_current_tick ?s) (ss_last_poh_hash ?s) [tx_id tx]
      (n_validator_id n) (n_operator_secret n) = Inr e"
    and st1: "put_transaction E tx (ss_current_tick ?s) (n_storage n) = (Inr (), st1)"
    and st2: "put_poh_entry E e st1 = (Inr (), st2)"
    and n': "n' = n\<lparr>n_system := ?s\<lparr>ss_last_poh_hash := pe_hash e\<rparr>, n_storage := st2\<rparr>"
    using ok by (auto simp: append_tx_locked_def step_simps)
  have tick: "pe_tick e = ss_current_tick ?s" using build_entry_Inr [OF e] by simp
  have "appended C n tx e"
    using build_entry_Inr [OF e] by (simp add: appended_def verify_chain_True)
  moreover have "n_system n' = advance e (n_system n)"
    by (simp add: n' advance_def tick)
  moreover have "ledger V n' = ledger V n" "poh_log V n' = (poh_log V n)(pe_tick e \<mapsto> e)"
    "tx_log V n' = (tx_log V n)(tx_id tx \<mapsto> tx_core tx)"
    using put_transaction_Inr [OF laws st1] put_poh_entry_Inr [OF laws st2] by (simp_all add: n')
  moreover have "same_frame n n'" by (simp add: n')
  ultimately show ?thesis by blast
qed

lemma append_tx_Inl: "append_tx_locked E C now tx n = (Inl e, n') \<Longrightarrow> is_internal e"
  by (auto simp: append_tx_locked_def step_simps)

lemma store_system_Inr:
  assumes "store_system E n = (Inr u, n')"
  shows "n_system n' = n_system n" and "ledger V n' = ledger V n" and "poh_log V n' = poh_log V n"
    and "tx_log V n' = tx_log V n" and "same_frame n n'"
  using assms by (auto simp: store_system_def step_simps store_state_Inr)

end
