(* ===== verification/Ledger_Spec.thy ===== *)
theory Ledger_Spec
  imports Ledger_Props
begin

text \<open>
  The abstract ledger: a map from wallet ids to wallets, with one total function per kind of
  transaction that either returns the error of the request or the new map.  The locked parts of the
  node's methods refine them: a successful run changes the stored wallets as the specification
  says, a refused one returns the error of the specification and leaves the node as it was.  Errors of the
  storage (\<open>Internal\<close>) are outside the contract.
\<close>

type_synonym ledger_map = "wallet_id \<rightharpoonup> wallet"

definition ids_ok :: "ledger_map \<Rightarrow> bool" where
  "ids_ok m \<longleftrightarrow> (\<forall>k w. m k = Some w \<longrightarrow> w_id w = k)"

section \<open>Specifications\<close>

definition spec_create :: "wallet \<Rightarrow> ledger_map \<Rightarrow> state_error + ledger_map" where
  "spec_create w m = (if m (w_id w) = None then Inr (m(w_id w \<mapsto> w)) else Inl WalletAlreadyExists)"

definition spec_charge :: "charge_request \<Rightarrow> ledger_map \<Rightarrow> state_error + ledger_map" where
  "spec_charge r m =
     (case m (cr_to r) of
        None \<Rightarrow> Inl WalletNotFound
      | Some w \<Rightarrow> Inr (m(cr_to r \<mapsto> w\<lparr>w_balance := sat_add (w_balance w) (cr_amount r)\<rparr>)))"

definition spec_transfer :: "iteration_id \<Rightarrow> transfer_request \<Rightarrow> ledger_map \<Rightarrow> state_error + ledger_map" where
  "spec_transfer it r m =
     (case (m (tr_from r), m (tr_to r)) of
        (Some src, Some dst) \<Rightarrow>
          if w_nonce src \<noteq> tr_nonce r then Inl InvalidNonce
          else if w_balance src < tr_amount r then Inl InsufficientBalance
          else Inr (m(tr_from r \<mapsto> src\<lparr>w_balance := w_balance src - tr_amount r, w_nonce := w_nonce src + 1,
                        w_iteration_tx_count := w_iteration_tx_count src + 1,
                        w_iteration_counterparties := insert (tr_to r) (w_iteration_counterparties src),
                        w_last_active_iteration := it\<rparr>,
                      tr_to r \<mapsto> dst\<lparr>w_balance := sat_add (w_balance dst) (tr_amount r),
                        w_iteration_tx_count := w_iteration_tx_count dst + 1,
                        w_iteration_counterparties := insert (tr_from r) (w_iteration_counterparties dst),
                        w_last_active_iteration := it\<rparr>))
      | _ \<Rightarrow> Inl WalletNotFound)"

definition spec_burn :: "iteration_id \<Rightarrow> burn_request \<Rightarrow> ledger_map \<Rightarrow> state_error + ledger_map" where
  "spec_burn it r m =
     (case m (br_from r) of
        None \<Rightarrow> Inl WalletNotFound
      | Some w \<Rightarrow>
          if w_nonce w \<noteq> br_nonce r then Inl InvalidNonce
          else if w_balance w < br_amount r then Inl InsufficientBalance
          else Inr (m(br_from r \<mapsto> w\<lparr>w_balance := w_balance w - br_amount r, w_nonce := w_nonce w + 1,
                        w_iteration_tx_count := w_iteration_tx_count w + 1, w_last_active_iteration := it\<rparr>)))"

text \<open>
  The specifications write the new wallets out.  That the code's own updates (\<open>debit_transfer\<close>,
  \<open>credit_transfer\<close>, \<open>debit_burn\<close>) are these is what the next two lemmas say.
\<close>

lemma spec_transfer_code:
  "spec_transfer it r m =
     (case (m (tr_from r), m (tr_to r)) of
        (Some src, Some dst) \<Rightarrow>
          if w_nonce src \<noteq> tr_nonce r then Inl InvalidNonce
          else if w_balance src < tr_amount r then Inl InsufficientBalance
          else Inr (m(tr_from r \<mapsto> debit_transfer it r src, tr_to r \<mapsto> credit_transfer it r dst))
      | _ \<Rightarrow> Inl WalletNotFound)"
  unfolding spec_transfer_def debit_transfer_def credit_transfer_def by (rule refl)

lemma spec_burn_code:
  "spec_burn it r m =
     (case m (br_from r) of
        None \<Rightarrow> Inl WalletNotFound
      | Some w \<Rightarrow>
          if w_nonce w \<noteq> br_nonce r then Inl InvalidNonce
          else if w_balance w < br_amount r then Inl InsufficientBalance
          else Inr (m(br_from r \<mapsto> debit_burn it r w)))"
  unfolding spec_burn_def debit_burn_def by (rule refl)

lemma wallet_core_simps [simp]:
  "w_id (wallet_core w) = w_id w" "w_nonce (wallet_core w) = w_nonce w"
  "w_balance (wallet_core w) = w_balance w" "w_last_active_iteration (wallet_core w) = w_last_active_iteration w"
  "wallet_core (debit_transfer it r w) = debit_transfer it r (wallet_core w)"
  "wallet_core (credit_transfer it r w) = credit_transfer it r (wallet_core w)"
  "wallet_core (debit_burn it b w) = debit_burn it b (wallet_core w)"
  "wallet_core (w\<lparr>w_balance := x\<rparr>) = (wallet_core w)\<lparr>w_balance := x\<rparr>"
  by (simp_all add: wallet_core_def debit_transfer_def credit_transfer_def debit_burn_def)

lemma op_ids [simp]:
  "w_id (debit_transfer it r w) = w_id w" "w_id (credit_transfer it r w) = w_id w"
  "w_id (debit_burn it b w) = w_id w" "w_id (fresh_wallet wid key a t i oid) = wid"
  "newly_active it (wallet_core w) = newly_active it w"
  by (simp_all add: debit_transfer_def credit_transfer_def debit_burn_def fresh_wallet_def newly_active_def)

section \<open>Successful runs\<close>

text \<open>
  The effect of a successful locked part: the new ledger, the new system state up to tick and
  digest, and the one transaction that was logged.
\<close>

definition applied ::
  "('t, 'b) store_view \<Rightarrow> crypto_lib \<Rightarrow> 't node \<Rightarrow> ledger_map \<Rightarrow> system_state \<Rightarrow> transaction \<Rightarrow> 't node \<Rightarrow> bool"
where
  "applied V C n m s tx n' \<longleftrightarrow>
     ledger V n' = m \<and> same_frame n n' \<and>
     (\<exists>e. appended C n tx e \<and> n_system n' = advance e s
        \<and> poh_log V n' = (poh_log V n)(pe_tick e \<mapsto> e)
        \<and> tx_log V n' = (tx_log V n)(tx_id tx \<mapsto> tx_core tx))"

lemma applied_finish:
  assumes laws: "store_laws E V"
    and app: "append_tx_locked E C now tx (n\<lparr>n_storage := st, n_system := s\<rparr>) = (Inr u, n2)"
    and fin: "store_system E (n2\<lparr>n_system := g (n_system n2)\<rparr>) = (Inr v, n')"
    and g: "\<And>e. g (advance e s) = advance e (g s)"
    and st: "wallet_contents V st = m" "poh_contents V st = poh_log V n" "tx_contents V st = tx_log V n"
    and s: "ss_current_tick s = ss_current_tick (n_system n)" "ss_last_poh_hash s = ss_last_poh_hash (n_system n)"
  shows "applied V C n m (g s) tx n'"
proof -
  obtain e where e: "appended C (n\<lparr>n_storage := st, n_system := s\<rparr>) tx e" "n_system n2 = advance e s"
    "ledger V n2 = wallet_contents V st" "poh_log V n2 = (poh_contents V st)(pe_tick e \<mapsto> e)"
    "tx_log V n2 = (tx_contents V st)(tx_id tx \<mapsto> tx_core tx)"
    "same_frame (n\<lparr>n_storage := st, n_system := s\<rparr>) n2"
    using append_tx_Inr [OF laws app] by auto
  note f = store_system_Inr [OF fin, simplified]
  have "same_frame n (n\<lparr>n_storage := st, n_system := s\<rparr>)" by simp
  then have "same_frame n n'" using e(6) f(5) same_frame_trans same_frame_upd by metis
  moreover have "appended C n tx e" using e(1) s by (simp add: appended_def)
  ultimately show ?thesis
    unfolding applied_def by (intro conjI exI [of _ e]) (simp_all add: e f g st)
qed

lemma get_wallet_ledger:
  assumes "store_laws E V" "get_wallet E (n_storage n) wid = Inr (Some w)"
  shows "ledger V n wid = Some (wallet_core w)"
  using wallets.get_SomeD assms by blast

lemma get_wallet_id:
  assumes "store_laws E V" "ids_ok (ledger V n)" "get_wallet E (n_storage n) wid = Inr (Some w)"
  shows "w_id w = wid"
proof -
  have "ledger V n wid = Some (wallet_core w)" by (rule get_wallet_ledger [OF assms(1,3)])
  then have "w_id (wallet_core w) = wid" using assms(2) unfolding ids_ok_def by blast
  then show ?thesis by simp
qed

lemma advance_supply [simp]:
  "advance e (s\<lparr>ss_n_active_wallets := x\<rparr>) = (advance e s)\<lparr>ss_n_active_wallets := x\<rparr>"
  "ss_n_active_wallets (advance e s) = ss_n_active_wallets s"
  by (simp_all add: advance_def)

text \<open>How many wallets of a transaction become active by it.\<close>

definition newly_in :: "iteration_id \<Rightarrow> ledger_map \<Rightarrow> wallet_id \<Rightarrow> u64" where
  "newly_in it m k = newly_active it (the (m k))"

definition add_active :: "u64 \<Rightarrow> system_state \<Rightarrow> system_state" where
  "add_active k s = s\<lparr>ss_n_active_wallets := sat_add (ss_n_active_wallets s) k\<rparr>"

lemma charge_locked_Inr:
  assumes laws: "store_laws E V" and ids: "ids_ok (ledger V n)"
    and ok: "charge_locked E C now r op sig n = (Inr resp, n')"
  shows "\<exists>m. spec_charge r (ledger V n) = Inr m \<and>
    applied V C n m ((n_system n)\<lparr>ss_total_supply := sat_add (ss_total_supply (n_system n)) (cr_amount r)\<rparr>)
      (charge_mint (ta_tx_id resp) op (next_tick n) r sig) n' \<and>
    ta_tick resp = next_tick n \<and> \<not> ss_iteration_lock (n_system n)"
proof -
  let ?sup = "\<lambda>s. s\<lparr>ss_total_supply := sat_add (ss_total_supply s) (cr_amount r)\<rparr>"
  obtain w st n2 where unlocked: "\<not> ss_iteration_lock (n_system n)"
    and get: "get_wallet E (n_storage n) (cr_to r) = Inr (Some w)"
    and put: "put_wallet E (w\<lparr>w_balance := sat_add (w_balance w) (cr_amount r)\<rparr>) (n_storage n) = (Inr (), st)"
    and app: "append_tx_locked E C now (charge_mint (ta_tx_id resp) op (next_tick n) r sig)
             (n\<lparr>n_storage := st, n_system := ?sup (n_system n)\<rparr>) = (Inr (), n2)"
    and fin: "store_system E n2 = (Inr (), n')" and resp: "ta_tick resp = next_tick n"
    using ok by (auto simp: charge_locked_def step_simps Let_def)
  have m: "ledger V n (cr_to r) = Some (wallet_core w)" by (rule get_wallet_ledger [OF laws get])
  have "w_id w = cr_to r" by (rule get_wallet_id [OF laws ids get])
  then have "spec_charge r (ledger V n) = Inr (wallet_contents V st)"
    using m put_wallet_Inr(1) [OF laws put] by (simp add: spec_charge_def)
  moreover have "applied V C n (wallet_contents V st) (?sup (n_system n))
      (charge_mint (ta_tx_id resp) op (next_tick n) r sig) n'"
    using applied_finish [OF laws app, where g = "\<lambda>x. x"] fin put_wallet_Inr [OF laws put] by simp
  ultimately show ?thesis using unlocked resp by blast
qed

lemma create_wallet_locked_Inr:
  assumes laws: "store_laws E V"
    and ok: "create_wallet_locked E C now ps key wid r op sig n = (Inr resp, n')"
  shows "\<exists>m. spec_create (fresh_wallet wid key (micro_seed ps) (next_tick n)
        (ss_current_iteration (n_system n)) (op_id op)\<lparr>w_activity_score := f64_zero\<rparr>) (ledger V n) = Inr m \<and>
    applied V C n m (count_new_wallet (micro_seed ps) (n_system n))
      (seed_mint (wcr_tx_id resp) wid (micro_seed ps) op (next_tick n) r sig) n' \<and>
    \<not> ss_iteration_lock (n_system n)"
proof -
  let ?w = "fresh_wallet wid key (micro_seed ps) (next_tick n) (ss_current_iteration (n_system n)) (op_id op)"
  obtain st n2 where unlocked: "\<not> ss_iteration_lock (n_system n)"
    and get: "get_wallet E (n_storage n) wid = Inr None"
    and put: "put_wallet E ?w (n_storage n) = (Inr (), st)"
    and app: "append_tx_locked E C now (seed_mint (wcr_tx_id resp) wid (micro_seed ps) op (next_tick n) r sig)
             (n\<lparr>n_storage := st, n_system := count_new_wallet (micro_seed ps) (n_system n)\<rparr>) = (Inr (), n2)"
    and fin: "store_system E n2 = (Inr (), n')"
    using ok by (auto simp: create_wallet_locked_def step_simps Let_def)
  have "ledger V n wid = None" using wallets.get_NoneD [OF laws get] .
  then have "spec_create (?w\<lparr>w_activity_score := f64_zero\<rparr>) (ledger V n) = Inr (wallet_contents V st)"
    using put_wallet_Inr(1) [OF laws put] by (simp add: spec_create_def wallet_core_def fresh_wallet_def)
  moreover have "applied V C n (wallet_contents V st) (count_new_wallet (micro_seed ps) (n_system n))
      (seed_mint (wcr_tx_id resp) wid (micro_seed ps) op (next_tick n) r sig) n'"
    using applied_finish [OF laws app, where g = "\<lambda>x. x"] fin put_wallet_Inr [OF laws put]
    by (simp add: count_new_wallet_def)
  ultimately show ?thesis using unlocked by blast
qed

lemma transfer_locked_Inr:
  assumes laws: "store_laws E V" and ids: "ids_ok (ledger V n)"
    and ok: "transfer_locked E C now r txid key n = (Inr resp, n')"
  shows "\<exists>m. spec_transfer (ss_current_iteration (n_system n)) r (ledger V n) = Inr m \<and>
    applied V C n m
      (add_active (newly_in (ss_current_iteration (n_system n)) (ledger V n) (tr_from r)
                   + newly_in (ss_current_iteration (n_system n)) (ledger V n) (tr_to r)) (n_system n))
      (transfer_tx_of txid key r) n' \<and>
    resp = \<lparr>ta_tx_id = txid, ta_tick = next_tick n\<rparr> \<and> \<not> ss_iteration_lock (n_system n)"
proof -
  let ?it = "ss_current_iteration (n_system n)"
  obtain src dst st1 st2 n2 where unlocked: "\<not> ss_iteration_lock (n_system n)"
    and src: "get_wallet E (n_storage n) (tr_from r) = Inr (Some src)"
    and dst: "get_wallet E (n_storage n) (tr_to r) = Inr (Some dst)"
    and chk: "w_nonce src = tr_nonce r" "\<not> w_balance src < tr_amount r"
    and put1: "put_wallet E (debit_transfer ?it r src) (n_storage n) = (Inr (), st1)"
    and put2: "put_wallet E (credit_transfer ?it r dst) st1 = (Inr (), st2)"
    and app: "append_tx_locked E C now (transfer_tx_of txid key r) (n\<lparr>n_storage := st2\<rparr>) = (Inr (), n2)"
    and fin: "store_system E (n2\<lparr>n_system := add_active (newly_active ?it src + newly_active ?it dst)
                (n_system n2)\<rparr>) = (Inr (), n')"
    and resp: "resp = \<lparr>ta_tx_id = txid, ta_tick = next_tick n\<rparr>"
    using ok by (auto simp: transfer_locked_def add_active_def step_simps Let_def)
  note ms = get_wallet_ledger [OF laws src] get_wallet_ledger [OF laws dst]
  have "w_id src = tr_from r" "w_id dst = tr_to r"
    by (rule get_wallet_id [OF laws ids src], rule get_wallet_id [OF laws ids dst])
  then have "spec_transfer ?it r (ledger V n) = Inr (wallet_contents V st2)"
    using ms chk put_wallet_Inr(1) [OF laws put1] put_wallet_Inr(1) [OF laws put2]
    by (simp add: spec_transfer_code)
  moreover have "applied V C n (wallet_contents V st2)
      (add_active (newly_active ?it src + newly_active ?it dst) (n_system n)) (transfer_tx_of txid key r) n'"
    using put_wallet_Inr [OF laws put1] put_wallet_Inr [OF laws put2] app
    by (intro applied_finish [where g = "add_active (newly_active ?it src + newly_active ?it dst)"
          and st = st2 and s = "n_system n", OF laws _ fin]) (simp_all add: add_active_def)
  ultimately show ?thesis using unlocked resp ms by (simp add: newly_in_def)
qed

lemma burn_locked_Inr:
  assumes laws: "store_laws E V" and ids: "ids_ok (ledger V n)"
    and ok: "burn_locked E C now r txid key n = (Inr resp, n')"
  shows "\<exists>m. spec_burn (ss_current_iteration (n_system n)) r (ledger V n) = Inr m \<and>
    applied V C n m (add_active (newly_in (ss_current_iteration (n_system n)) (ledger V n) (br_from r))
        ((n_system n)\<lparr>ss_total_supply := sat_sub (ss_total_supply (n_system n)) (br_amount r)\<rparr>))
      (burn_tx_of txid key r) n' \<and>
    resp = \<lparr>ta_tx_id = txid, ta_tick = next_tick n\<rparr> \<and> \<not> ss_iteration_lock (n_system n)"
proof -
  let ?it = "ss_current_iteration (n_system n)"
  let ?sup = "\<lambda>s. s\<lparr>ss_total_supply := sat_sub (ss_total_supply s) (br_amount r)\<rparr>"
  obtain w st n2 where unlocked: "\<not> ss_iteration_lock (n_system n)"
    and get: "get_wallet E (n_storage n) (br_from r) = Inr (Some w)"
    and chk: "w_nonce w = br_nonce r" "\<not> w_balance w < br_amount r"
    and put: "put_wallet E (debit_burn ?it r w) (n_storage n) = (Inr (), st)"
    and app: "append_tx_locked E C now (burn_tx_of txid key r)
                (n\<lparr>n_storage := st, n_system := ?sup (n_system n)\<rparr>) = (Inr (), n2)"
    and fin: "store_system E (n2\<lparr>n_system := add_active (newly_active ?it w) (n_system n2)\<rparr>) = (Inr (), n')"
    and resp: "resp = \<lparr>ta_tx_id = txid, ta_tick = next_tick n\<rparr>"
    using ok by (auto simp: burn_locked_def add_active_def step_simps Let_def)
  have m: "ledger V n (br_from r) = Some (wallet_core w)" by (rule get_wallet_ledger [OF laws get])
  have "w_id w = br_from r" by (rule get_wallet_id [OF laws ids get])
  then have "spec_burn ?it r (ledger V n) = Inr (wallet_contents V st)"
    using m chk put_wallet_Inr(1) [OF laws put] by (simp add: spec_burn_code)
  moreover have "applied V C n (wallet_contents V st) (add_active (newly_active ?it w) (?sup (n_system n)))
      (burn_tx_of txid key r) n'"
    using put_wallet_Inr [OF laws put]
    by (intro applied_finish [where g = "add_active (newly_active ?it w)", OF laws app fin])
      (simp_all add: add_active_def advance_def)
  ultimately show ?thesis using unlocked resp m by (simp add: newly_in_def)
qed

section \<open>Refused runs\<close>

lemma need_wallet_Inl:
  assumes "store_laws E V" "need_wallet E wid n = (Inl e, n')"
  shows "n' = n \<and> (is_internal e \<or> e = WalletNotFound \<and> ledger V n wid = None)"
  using assms wallets.get_NoneD [OF assms(1)] by (auto simp: need_wallet_def step_simps)

lemma mint_tx_id_Inl: "mint_tx_id C to a eur oid k t cat = Inl e \<Longrightarrow> is_internal e"
  by (auto simp: mint_tx_id_def step_simps)

lemma store_internal: "store m n = (Inl e, n') \<Longrightarrow> is_internal e"
  by (auto simp: step_simps)

lemma store_system_internal: "store_system E n = (Inl e, n') \<Longrightarrow> is_internal e"
  by (auto simp: store_system_def step_simps)

lemmas refusal = need_wallet_Inl mint_tx_id_Inl store_internal store_system_internal append_tx_Inl

definition refused :: "'t node \<Rightarrow> state_error + ledger_map \<Rightarrow> state_error \<Rightarrow> 't node \<Rightarrow> bool" where
  "refused n spec e n' \<longleftrightarrow>
     is_internal e \<or>
     n' = n \<and> (if ss_iteration_lock (n_system n) then e = IterationInProgress else spec = Inl e)"

lemma charge_locked_Inl:
  assumes laws: "store_laws E V" and err: "charge_locked E C now r op sig n = (Inl e, n')"
  shows "refused n (spec_charge r (ledger V n)) e n'"
  using err unfolding charge_locked_def refused_def
  by (auto simp: bindE_Inl_iff check_unlocked_Inr check_unlocked_Inl comp_simps spec_charge_def
      dest: refusal need_wallet_Inl [OF laws])

lemma create_wallet_locked_Inl:
  assumes laws: "store_laws E V" and err: "create_wallet_locked E C now ps key wid r op sig n = (Inl e, n')"
  shows "refused n (spec_create (wallet_core (fresh_wallet wid key (micro_seed ps) (next_tick n)
     (ss_current_iteration (n_system n)) (op_id op))) (ledger V n)) e n'"
  using err wallets.get_SomeD [OF laws] unfolding create_wallet_locked_def refused_def Let_def
  by (auto simp: bindE_Inl_iff check_unlocked_Inr check_unlocked_Inl fetch_Inr fetch_Inl
      requireE_Inr_iff requireE_Inl_iff comp_simps spec_create_def dest: refusal)

lemma transfer_locked_Inl:
  assumes laws: "store_laws E V" and err: "transfer_locked E C now r txid key n = (Inl e, n')"
  shows "refused n (spec_transfer (ss_current_iteration (n_system n)) r (ledger V n)) e n'"
proof -
  consider (check) "check_unlocked n = (Inl e, n')"
    | (src) "need_wallet E (tr_from r) n = (Inl e, n')" "\<not> ss_iteration_lock (n_system n)"
    | (dst) src where "get_wallet E (n_storage n) (tr_from r) = Inr (Some src)"
        "need_wallet E (tr_to r) n = (Inl e, n')" "\<not> ss_iteration_lock (n_system n)"
    | (cond) src dst where "get_wallet E (n_storage n) (tr_from r) = Inr (Some src)"
        "get_wallet E (n_storage n) (tr_to r) = Inr (Some dst)" "\<not> ss_iteration_lock (n_system n)" "n' = n"
        "w_nonce src \<noteq> tr_nonce r \<and> e = InvalidNonce \<or>
         w_nonce src = tr_nonce r \<and> w_balance src < tr_amount r \<and> e = InsufficientBalance"
    | (internal) "is_internal e"
    using err unfolding transfer_locked_def
    by (auto simp: bindE_Inl_iff check_unlocked_Inr need_wallet_Inr requireE_Inr_iff requireE_Inl_iff
        comp_simps dest: store_internal store_system_internal append_tx_Inl)
  then show ?thesis
  proof cases
    case check
    then show ?thesis by (auto simp: refused_def step_simps)
  next
    case src
    then show ?thesis
      using need_wallet_Inl [OF laws src(1)] by (auto simp: refused_def spec_transfer_def)
  next
    case dst
    then show ?thesis
      using need_wallet_Inl [OF laws dst(2)] get_wallet_ledger [OF laws dst(1)]
      by (auto simp: refused_def spec_transfer_def)
  next
    case cond
    then show ?thesis
      using get_wallet_ledger [OF laws cond(1)] get_wallet_ledger [OF laws cond(2)]
      by (auto simp: refused_def spec_transfer_def)
  next
    case internal
    then show ?thesis by (simp add: refused_def)
  qed
qed

lemma burn_locked_Inl:
  assumes laws: "store_laws E V" and err: "burn_locked E C now r txid key n = (Inl e, n')"
  shows "refused n (spec_burn (ss_current_iteration (n_system n)) r (ledger V n)) e n'"
  using err get_wallet_ledger [OF laws] unfolding burn_locked_def refused_def
  by (auto simp: bindE_Inl_iff check_unlocked_Inr check_unlocked_Inl need_wallet_Inr requireE_Inr_iff
      requireE_Inl_iff comp_simps spec_burn_def
      dest: store_internal store_system_internal append_tx_Inl need_wallet_Inl [OF laws])

section \<open>Refinement\<close>

definition refines :: "('t, 'b) store_view \<Rightarrow> 't node \<Rightarrow> state_error + ledger_map \<Rightarrow> (state_error + 'a) \<times> 't node \<Rightarrow> bool"
where
  "refines V n spec outcome \<longleftrightarrow>
     (case outcome of
        (Inr _, n') \<Rightarrow> \<not> ss_iteration_lock (n_system n) \<and> spec = Inr (ledger V n')
      | (Inl e, n') \<Rightarrow> refused n spec e n')"

lemma refinesI:
  assumes "\<And>a n'. m n = (Inr a, n') \<Longrightarrow> \<not> ss_iteration_lock (n_system n) \<and> spec = Inr (ledger V n')"
    and "\<And>e n'. m n = (Inl e, n') \<Longrightarrow> refused n spec e n'"
  shows "refines V n spec (m n)"
  using assms by (auto simp: refines_def split: prod.splits sum.splits)

lemma applied_ledger: "applied V C n m s tx n' \<Longrightarrow> ledger V n' = m"
  by (simp add: applied_def)

text \<open>
  C3. A transfer either fails in the storage, or does to the stored wallets exactly what the ledger
  specification says: missing wallets, a wrong nonce and a missing balance are refused in that order,
  with the node unchanged; otherwise one wallet loses the amount and its nonce grows by one, the other
  gains the amount, and both record the transfer in their activity of the iteration.
\<close>

theorem transfer_refines_spec:
  assumes "store_laws E V" "ids_ok (ledger V n)"
  shows "refines V n (spec_transfer (ss_current_iteration (n_system n)) r (ledger V n))
    (transfer_locked E C now r txid key n)"
  using transfer_locked_Inr [OF assms] transfer_locked_Inl [OF assms(1)]
  by (intro refinesI) (blast dest: applied_ledger)+

text \<open>
  C11. A burn refines its specification in the same sense: the wallet loses the amount, its nonce grows
  by one, and nothing else changes but its activity.
\<close>

theorem burn_refines_spec:
  assumes "store_laws E V" "ids_ok (ledger V n)"
  shows "refines V n (spec_burn (ss_current_iteration (n_system n)) r (ledger V n))
    (burn_locked E C now r txid key n)"
  using burn_locked_Inr [OF assms] burn_locked_Inl [OF assms(1)]
  by (intro refinesI) (blast dest: applied_ledger)+

text \<open>
  C12. A charge refines its specification: the only refusal is a missing wallet.
\<close>

theorem charge_refines_spec:
  assumes "store_laws E V" "ids_ok (ledger V n)"
  shows "refines V n (spec_charge r (ledger V n)) (charge_locked E C now r op sig n)"
  using charge_locked_Inr [OF assms] charge_locked_Inl [OF assms(1)]
  by (intro refinesI) (blast dest: applied_ledger)+

lemma new_wallet_core:
  "wallet_core (fresh_wallet wid key amount tick it oid) =
     \<lparr>w_id = wid, w_pubkey = key, w_balance = amount, w_nonce = 0, w_created_at_tick = tick,
      w_created_at_iteration = it, w_created_by_operator = oid, w_iteration_tx_count = 0,
      w_iteration_counterparties = {}, w_last_active_iteration = it, w_activity_score = f64_zero\<rparr>"
  by (simp add: wallet_core_def fresh_wallet_def)

text \<open>
  C10. Creating a wallet refines its specification: an existing id is refused under the same lock as the
  insertion, so no wallet is ever overwritten; otherwise the ledger gains one wallet, which holds the
  seed amount, has nonce 0, no counterparties and no transactions, was created at the next tick, in
  the current iteration and by the requesting operator, and counts as active in this iteration (its
  activity score is left open: the store view does not keep the last bits of a float).
\<close>

theorem create_wallet_refines_spec:
  assumes "store_laws E V"
  shows "refines V n
    (spec_create
      \<lparr>w_id = wid, w_pubkey = key, w_balance = micro_seed ps, w_nonce = 0,
       w_created_at_tick = ss_current_tick (n_system n) + 1,
       w_created_at_iteration = ss_current_iteration (n_system n), w_created_by_operator = op_id op,
       w_iteration_tx_count = 0, w_iteration_counterparties = {},
       w_last_active_iteration = ss_current_iteration (n_system n), w_activity_score = f64_zero\<rparr>
      (ledger V n))
    (create_wallet_locked E C now ps key wid r op sig n)"
  using create_wallet_locked_Inr [OF assms] create_wallet_locked_Inl [OF assms]
  unfolding new_wallet_core wallet_core_def [symmetric] next_tick_def
  by (intro refinesI) (blast dest: applied_ledger)+

end
