(* ===== verification/Books.thy ===== *)
theory Books
  imports Ledger_Spec Economy_Props
begin

text \<open>
  The bookkeeping invariant: the counters the node keeps in memory (total supply, number of wallets,
  number of active wallets) are the ones of the wallets in its storage.  Every successful transaction keeps
  it; so does an iteration whose faucet wallets are new.
\<close>

section \<open>Sums over the ledger\<close>

definition supply_of :: "ledger_map \<Rightarrow> nat" where
  "supply_of m = (\<Sum>k\<in>dom m. unat (w_balance (the (m k))))"

definition active_in :: "iteration_id \<Rightarrow> ledger_map \<Rightarrow> wallet_id set" where
  "active_in it m = {k. \<exists>w. m k = Some w \<and> w_last_active_iteration w = it}"

lemma active_in_dom: "active_in it m \<subseteq> dom m"
  by (auto simp: active_in_def)

lemma finite_active: "finite (dom m) \<Longrightarrow> finite (active_in it m)"
  using active_in_dom finite_subset by blast

lemma supply_member: "finite (dom m) \<Longrightarrow> m k = Some w \<Longrightarrow> unat (w_balance w) \<le> supply_of m"
  unfolding supply_of_def by (rule order_trans [OF _ member_le_sum [of k]]) auto

lemma supply_pair:
  assumes "finite (dom m)" "m j = Some v" "m k = Some w" "j \<noteq> k"
  shows "unat (w_balance v) + unat (w_balance w) \<le> supply_of m"
proof -
  have "(\<Sum>i\<in>{j, k}. unat (w_balance (the (m i)))) \<le> supply_of m"
    unfolding supply_of_def using assms by (intro sum_mono2) auto
  then show ?thesis using assms by simp
qed

lemma supply_insert:
  assumes "finite (dom m)" "m k = None"
  shows "supply_of (m(k \<mapsto> w)) = supply_of m + unat (w_balance w)"
proof -
  have "(\<Sum>j\<in>dom m. unat (w_balance (the ((m(k \<mapsto> w)) j)))) = supply_of m"
    unfolding supply_of_def using assms(2) by (intro sum.cong) auto
  then show ?thesis using assms by (simp add: supply_of_def domIff)
qed

lemma supply_update:
  assumes "finite (dom m)" "m k = Some v"
  shows "supply_of (m(k \<mapsto> w)) + unat (w_balance v) = supply_of m + unat (w_balance w)"
proof -
  let ?r = "m(k := None)"
  have fin: "finite (dom ?r)" "?r k = None" using assms(1) by simp_all
  have "?r(k \<mapsto> v) = m" "?r(k \<mapsto> w) = m(k \<mapsto> w)" using assms(2) by (auto simp: fun_eq_iff)
  then have "supply_of m = supply_of ?r + unat (w_balance v)"
    "supply_of (m(k \<mapsto> w)) = supply_of ?r + unat (w_balance w)"
    using supply_insert [OF fin] by metis+
  then show ?thesis by linarith
qed

lemma active_insert:
  assumes "finite (dom m)" "m k = None" "w_last_active_iteration w = it"
  shows "card (active_in it (m(k \<mapsto> w))) = card (active_in it m) + 1"
proof -
  have "active_in it (m(k \<mapsto> w)) = insert k (active_in it m)" "k \<notin> active_in it m"
    using assms by (auto simp: active_in_def)
  then show ?thesis using finite_active [OF assms(1)] by simp
qed

lemma active_update:
  assumes "finite (dom m)" "m k = Some v" "w_last_active_iteration w = it"
  shows "card (active_in it (m(k \<mapsto> w))) = card (active_in it m) + unat (newly_active it v)"
proof -
  have "active_in it (m(k \<mapsto> w)) = insert k (active_in it m)"
    using assms by (auto simp: active_in_def)
  moreover have "k \<in> active_in it m \<longleftrightarrow> w_last_active_iteration v = it"
    using assms by (auto simp: active_in_def)
  ultimately show ?thesis using finite_active [OF assms(1)] by (auto simp: newly_active_def insert_absorb)
qed

lemma active_update_same:
  assumes "m k = Some v" "w_last_active_iteration w = w_last_active_iteration v"
  shows "active_in it (m(k \<mapsto> w)) = active_in it m"
  using assms by (auto simp: active_in_def)

section \<open>The invariant\<close>

definition books :: "ledger_map \<Rightarrow> system_state \<Rightarrow> bool" where
  "books m s \<longleftrightarrow>
     ids_ok m \<and> finite (dom m) \<and> unat (ss_total_supply s) = supply_of m \<and>
     unat (ss_n_wallets s) = card (dom m) \<and>
     unat (ss_n_active_wallets s) = card (active_in (ss_current_iteration s) m) \<and>
     (\<forall>k w. m k = Some w \<longrightarrow> w_last_active_iteration w \<le> ss_current_iteration s)"

lemma booksD:
  assumes "books m s"
  shows "ids_ok m" "finite (dom m)" "unat (ss_total_supply s) = supply_of m"
    "unat (ss_n_wallets s) = card (dom m)"
    "unat (ss_n_active_wallets s) = card (active_in (ss_current_iteration s) m)"
    "\<And>k w. m k = Some w \<Longrightarrow> w_last_active_iteration w \<le> ss_current_iteration s"
  using assms by (auto simp: books_def)

lemma books_advance [simp]: "books m (advance e s) \<longleftrightarrow> books m s"
  by (simp add: books_def advance_def)

lemma active_room:
  assumes "books m s"
  shows "unat (ss_n_active_wallets s) \<le> unat (ss_n_wallets s)"
  using booksD [OF assms] active_in_dom card_mono by metis

lemma ids_ok_upd: "ids_ok m \<Longrightarrow> w_id w = k \<Longrightarrow> ids_ok (m(k \<mapsto> w))"
  by (auto simp: ids_ok_def)

lemma unat_sat_add_fits:
  "unat a + unat b < 2 ^ LENGTH('a) \<Longrightarrow> unat (sat_add a b) = unat a + unat (b :: 'a::len word)"
  by (simp add: unat_sat_add)

lemma u64_fits: "unat (a :: u64) < 2 ^ 64"
  using unsigned_less [of a, where ?'a = nat] by simp

lemma card_active_le:
  assumes "books m s" "dom m' = dom m" "finite (dom m)"
  shows "card (active_in it m') < 2 ^ 64"
proof -
  have "card (active_in it m') \<le> card (dom m)"
    using active_in_dom [of it m'] assms(2,3) card_mono by metis
  then show ?thesis using booksD(4) [OF assms(1)] u64_fits [of "ss_n_wallets s"] by simp
qed

section \<open>Transactions keep the books\<close>

lemma spec_charge_books:
  assumes b: "books m s" and ok: "spec_charge r m = Inr m'"
    and fits: "unat (ss_total_supply s) + unat (cr_amount r) < 2 ^ 64"
  shows "books m' (s\<lparr>ss_total_supply := sat_add (ss_total_supply s) (cr_amount r)\<rparr>)"
proof -
  note B = booksD [OF b]
  obtain w where w: "m (cr_to r) = Some w"
    and m': "m' = m(cr_to r \<mapsto> w\<lparr>w_balance := sat_add (w_balance w) (cr_amount r)\<rparr>)"
    using ok by (auto simp: spec_charge_def split: option.splits)
  have "unat (w_balance w) + unat (cr_amount r) < 2 ^ 64"
    using supply_member [OF B(2) w] fits B(3) by simp
  then have "supply_of m' = supply_of m + unat (cr_amount r)"
    using supply_update [OF B(2) w, of "w\<lparr>w_balance := sat_add (w_balance w) (cr_amount r)\<rparr>"]
    by (simp add: m' unat_sat_add)
  moreover have "dom m' = dom m" using w by (auto simp: m')
  moreover have "active_in it m' = active_in it m" for it
    unfolding m' by (rule active_update_same [of m _ w]) (simp_all add: w)
  moreover have "ids_ok m'" unfolding m' using B(1) w by (intro ids_ok_upd) (auto simp: ids_ok_def)
  ultimately show ?thesis
    using B fits w by (auto simp: books_def unat_sat_add m')
qed

lemma spec_create_books:
  assumes b: "books m s" and ok: "spec_create w m = Inr m'"
    and w: "w_last_active_iteration w = ss_current_iteration s"
    and fits: "unat (ss_total_supply s) + unat (w_balance w) < 2 ^ 64" "unat (ss_n_wallets s) + 1 < 2 ^ 64"
  shows "books m' (count_new_wallet (w_balance w) s)"
proof -
  note B = booksD [OF b]
  have new: "m (w_id w) = None" and m': "m' = m(w_id w \<mapsto> w)"
    using ok by (auto simp: spec_create_def split: if_splits)
  have "card (dom m') = card (dom m) + 1" using B(2) new by (simp add: m' domIff)
  moreover have "supply_of m' = supply_of m + unat (w_balance w)" unfolding m' by (rule supply_insert [OF B(2) new])
  moreover have "card (active_in (ss_current_iteration s) m') = card (active_in (ss_current_iteration s) m) + 1"
    unfolding m' by (rule active_insert [OF B(2) new w])
  moreover have "unat (ss_n_active_wallets s) + 1 < 2 ^ 64" using active_room [OF b] fits(2) by simp
  moreover have "ids_ok m'" unfolding m' using B(1) by (intro ids_ok_upd) auto
  moreover have "\<forall>k v. m' k = Some v \<longrightarrow> w_last_active_iteration v \<le> ss_current_iteration s"
    using B(6) w by (auto simp: m')
  ultimately show ?thesis
    using B fits by (simp add: books_def count_new_wallet_def unat_sat_add m')
qed

lemma spec_transfer_books:
  assumes b: "books m s" and ok: "spec_transfer (ss_current_iteration s) r m = Inr m'"
    and ne: "tr_from r \<noteq> tr_to r"
  shows "books m' (add_active (newly_in (ss_current_iteration s) m (tr_from r)
      + newly_in (ss_current_iteration s) m (tr_to r)) s)" and "supply_of m' = supply_of m"
proof -
  note B = booksD [OF b]
  let ?it = "ss_current_iteration s"
  obtain v w where v: "m (tr_from r) = Some v" and w: "m (tr_to r) = Some w"
    and en: "tr_amount r \<le> w_balance v"
    and m': "m' = m(tr_from r \<mapsto> debit_transfer ?it r v, tr_to r \<mapsto> credit_transfer ?it r w)"
    using ok by (auto simp: spec_transfer_code split: option.splits if_splits)
  let ?m1 = "m(tr_from r \<mapsto> debit_transfer ?it r v)"
  have fin1: "finite (dom ?m1)" using B(2) by simp
  have w1: "?m1 (tr_to r) = Some w" using w ne by simp
  have pair: "unat (w_balance v) + unat (w_balance w) < 2 ^ 64"
    using supply_pair [OF B(2) v w ne] B(3) u64_fits [of "ss_total_supply s"] by simp
  have bal: "unat (w_balance (debit_transfer ?it r v)) = unat (w_balance v) - unat (tr_amount r)"
    "unat (w_balance (credit_transfer ?it r w)) = unat (w_balance w) + unat (tr_amount r)"
    using en pair by (auto simp: debit_transfer_def credit_transfer_def unat_sub_small unat_sat_add word_le_nat_alt)
  have "supply_of m' + unat (w_balance w) = supply_of ?m1 + unat (w_balance (credit_transfer ?it r w))"
    unfolding m' by (rule supply_update [OF fin1 w1])
  moreover have "supply_of ?m1 + unat (w_balance v) = supply_of m + unat (w_balance (debit_transfer ?it r v))"
    by (rule supply_update [OF B(2) v])
  moreover have "unat (tr_amount r) \<le> unat (w_balance v)" using en by (simp add: word_le_nat_alt)
  ultimately show sup: "supply_of m' = supply_of m" using bal by linarith
  have dom: "dom m' = dom m" using v w by (auto simp: m')
  have act: "card (active_in ?it m') = card (active_in ?it m) + (unat (newly_active ?it v) + unat (newly_active ?it w))"
  proof -
    have "card (active_in ?it m') = card (active_in ?it ?m1) + unat (newly_active ?it w)"
      unfolding m' by (rule active_update [OF fin1 w1]) (simp add: credit_transfer_def)
    moreover have "card (active_in ?it ?m1) = card (active_in ?it m) + unat (newly_active ?it v)"
      by (rule active_update [OF B(2) v]) (simp add: debit_transfer_def)
    ultimately show ?thesis by linarith
  qed
  have small: "unat (newly_active ?it v + newly_active ?it w)
      = unat (newly_active ?it v) + unat (newly_active ?it w)"
    by (simp add: newly_active_def)
  have room: "card (active_in ?it m') < 2 ^ 64" by (rule card_active_le [OF b dom B(2)])
  have "v \<in> ran m" "w \<in> ran m" using v w by (auto simp: ran_def)
  have ids: "ids_ok m'" unfolding m'
    using B(1) v w by (intro ids_ok_upd) (auto simp: ids_ok_def)
  have last: "\<forall>k u. m' k = Some u \<longrightarrow> w_last_active_iteration u \<le> ?it"
    using B(6) by (auto simp: m' debit_transfer_def credit_transfer_def)
  show "books m' (add_active (newly_in ?it m (tr_from r) + newly_in ?it m (tr_to r)) s)"
    using B room act small ids last dom sup v w
    by (simp add: books_def add_active_def newly_in_def unat_sat_add)
qed

lemma spec_burn_books:
  assumes b: "books m s" and ok: "spec_burn (ss_current_iteration s) r m = Inr m'"
  shows "books m' (add_active (newly_in (ss_current_iteration s) m (br_from r))
      (s\<lparr>ss_total_supply := sat_sub (ss_total_supply s) (br_amount r)\<rparr>))"
    and "supply_of m' + unat (br_amount r) = supply_of m"
proof -
  note B = booksD [OF b]
  let ?it = "ss_current_iteration s"
  obtain w where w: "m (br_from r) = Some w" and en: "br_amount r \<le> w_balance w"
    and m': "m' = m(br_from r \<mapsto> debit_burn ?it r w)"
    using ok by (auto simp: spec_burn_code split: option.splits if_splits)
  have bal: "unat (w_balance (debit_burn ?it r w)) + unat (br_amount r) = unat (w_balance w)"
    using en by (simp add: debit_burn_def unat_sub_small word_le_nat_alt)
  show sup: "supply_of m' + unat (br_amount r) = supply_of m"
    using supply_update [OF B(2) w, of "debit_burn ?it r w"] bal by (simp add: m')
  have dom: "dom m' = dom m" using w by (auto simp: m')
  have act: "card (active_in ?it m') = card (active_in ?it m) + unat (newly_active ?it w)"
    using active_update [OF B(2) w, of "debit_burn ?it r w" ?it] by (simp add: m' debit_burn_def)
  have room: "card (active_in ?it m') < 2 ^ 64" by (rule card_active_le [OF b dom B(2)])
  have ids: "ids_ok m'" unfolding m' using B(1) w by (intro ids_ok_upd) (auto simp: ids_ok_def)
  have last: "\<forall>k u. m' k = Some u \<longrightarrow> w_last_active_iteration u \<le> ?it"
    using B(6) by (auto simp: m' debit_burn_def)
  show "books m' (add_active (newly_in ?it m (br_from r))
      (s\<lparr>ss_total_supply := sat_sub (ss_total_supply s) (br_amount r)\<rparr>))"
    using B room act ids last dom sup w
    by (simp add: books_def add_active_def newly_in_def unat_sat_add unat_sat_sub)
qed

end
