(* ===== verification/Iteration.thy ===== *)
theory Iteration
  imports Books
begin

text \<open>
  \<open>execute_iteration_now\<close> on the abstract ledger: the wallets it lists are the ledger, the wallets
  it writes back carry the same identities plus the faucet wallets, and the counters it sets are the
  ones of the new ledger when no faucet wallet collides with an existing one.
\<close>

section \<open>Wallet lists and ledgers\<close>

definition ledger_of :: "wallet list \<Rightarrow> ledger_map" where
  "ledger_of ws = map_of (map (\<lambda>w. (w_id w, wallet_core w)) ws)"

lemma decode_map_of:
  "list_all2 (\<lambda>kb w. val (snd kb) = Some (wallet_core w) \<and> w_id w = fst kb) kvs ws \<Longrightarrow>
     (\<lambda>k. Option.bind (map_of kvs k) val) = ledger_of ws"
proof (induction rule: list_all2_induct)
  case Nil
  then show ?case by (simp add: ledger_of_def)
next
  case (Cons kb kvs w ws)
  then show ?case by (auto simp: ledger_of_def fun_eq_iff)
qed

lemma list_wallets_ledger:
  assumes laws: "store_laws E V" and ids: "ids_ok (wallet_contents V st)" and ok: "list_wallets E st = Inr ws"
  shows "distinct (map w_id ws) \<and> wallet_contents V st = ledger_of ws"
proof -
  let ?kvs = "vw_tree V (cs_wallets st)"
  have scan: "map (\<lambda>kb. vw_wallet V (snd kb)) ?kvs = map (\<lambda>w. Some (wallet_core w)) ws"
    using scan_values_view [OF store_lawsD(1,2) [OF laws] ok [unfolded list_wallets_def]] .
  have dist: "distinct (map fst ?kvs)"
    using store_lawsD(1) [OF laws] sorted_keys_distinct unfolding tree_laws_def by blast
  have len: "length ?kvs = length ws" using scan by (metis length_map)
  have each: "vw_wallet V (snd (?kvs ! i)) = Some (wallet_core (ws ! i)) \<and> w_id (ws ! i) = fst (?kvs ! i)"
    if "i < length ?kvs" for i
  proof -
    have v: "vw_wallet V (snd (?kvs ! i)) = Some (wallet_core (ws ! i))"
      using arg_cong [OF scan, of "\<lambda>xs. xs ! i"] that len by simp
    have "map_of ?kvs (fst (?kvs ! i)) = Some (snd (?kvs ! i))"
      using dist that by (simp add: map_of_eq_Some_iff)
    then have "wallet_contents V st (fst (?kvs ! i)) = Some (wallet_core (ws ! i))"
      using v by (simp add: wallet_contents_def)
    then have "w_id (wallet_core (ws ! i)) = fst (?kvs ! i)" using ids unfolding ids_ok_def by blast
    then show ?thesis using v by simp
  qed
  then have all: "list_all2 (\<lambda>kb w. vw_wallet V (snd kb) = Some (wallet_core w) \<and> w_id w = fst kb) ?kvs ws"
    using len by (simp add: list_all2_conv_all_nth)
  have "map w_id ws = map fst ?kvs" using each len by (intro nth_equalityI) simp_all
  moreover have "wallet_contents V st = ledger_of ws"
    using decode_map_of [OF all] by (simp add: wallet_contents_def fun_eq_iff)
  ultimately show ?thesis using dist by simp
qed

lemma put_wallets_Inr:
  assumes laws: "store_laws E V" and ok: "put_wallets E ws st = (Inr u, st')" and dist: "distinct (map w_id ws)"
  shows "wallet_contents V st' = wallet_contents V st ++ ledger_of ws \<and>
    poh_contents V st' = poh_contents V st \<and> tx_contents V st' = tx_contents V st"
  using ok dist
proof (induction ws arbitrary: st)
  case Nil
  then show ?case by (simp add: ledger_of_def)
next
  case (Cons w ws)
  then obtain st1 where st1: "put_wallet E w st = (Inr (), st1)" "put_wallets E ws st1 = (Inr u, st')"
    by (auto simp: step_simps)
  have "w_id w \<notin> dom (ledger_of ws)" using Cons.prems(2) by (auto simp: ledger_of_def dom_map_of_conv_image_fst)
  then have "(m(w_id w \<mapsto> wallet_core w)) ++ ledger_of ws = m ++ ledger_of (w # ws)" for m
    by (auto simp: ledger_of_def fun_eq_iff map_add_def split: option.splits)
  moreover have "distinct (map w_id ws)" using Cons.prems(2) by simp
  ultimately show ?case
    using Cons.IH [OF st1(2)] put_wallet_Inr [OF laws st1(1)] by metis
qed

lemma ledger_of_supply: "distinct (map w_id ws) \<Longrightarrow> supply_of (ledger_of ws) = usum (map w_balance ws)"
proof (induction ws)
  case Nil
  then show ?case by (simp add: ledger_of_def supply_of_def)
next
  case (Cons w ws)
  have "ledger_of (w # ws) = (ledger_of ws)(w_id w \<mapsto> wallet_core w)" by (simp add: ledger_of_def)
  moreover have "ledger_of ws (w_id w) = None" "finite (dom (ledger_of ws))"
    using Cons.prems by (auto simp: ledger_of_def map_of_eq_None_iff finite_dom_map_of image_iff)
  ultimately have "supply_of (ledger_of (w # ws)) = supply_of (ledger_of ws) + unat (w_balance (wallet_core w))"
    using supply_insert by metis
  then show ?case using Cons by simp
qed

lemma ledger_of_dom: "dom (ledger_of ws) = w_id ` set ws"
  by (simp add: ledger_of_def dom_map_of_conv_image_fst image_image)

lemma ledger_of_Some: "ledger_of ws k = Some v \<Longrightarrow> \<exists>w\<in>set ws. v = wallet_core w \<and> w_id w = k"
  unfolding ledger_of_def by (drule map_of_SomeD) auto

lemma ledger_of_member: "distinct (map w_id ws) \<Longrightarrow> w \<in> set ws \<Longrightarrow> ledger_of ws (w_id w) = Some (wallet_core w)"
  unfolding ledger_of_def by (rule map_of_is_SomeI) (auto simp: o_def)

lemma map_add_covered: "dom m \<subseteq> dom m' \<Longrightarrow> m ++ m' = m'"
  by (auto simp: fun_eq_iff map_add_def split: option.splits)

lemma same_frame_shift: "same_frame (n\<lparr>n_system := s, n_storage := st\<rparr>) n' \<longleftrightarrow> same_frame n n'"
  by (cases n; cases n') (simp add: same_frame_def)

section \<open>The wallets of an iteration\<close>

text \<open>What redistribution does not change.\<close>

definition identity :: "wallet \<Rightarrow> wallet_id \<times> public_key \<times> nonce \<times> iteration_id \<times> iteration_id" where
  "identity w = (w_id w, w_pubkey w, w_nonce w, w_last_active_iteration w, w_created_at_iteration w)"

lemma identity_passes [simp]:
  "identity (apply_penalty ec w p) = identity w" "identity (apply_reward w r) = identity w"
  "identity (w\<lparr>w_balance := b\<rparr>) = identity w"
  by (simp_all add: identity_def apply_penalty_def apply_reward_def Let_def)

lemma identity_map2:
  "length xs = length ws \<Longrightarrow> (\<And>w x. identity (f w x) = identity w) \<Longrightarrow>
     map identity (map2 f ws xs) = map identity ws"
  by (induction ws xs rule: list_induct2') simp_all

lemma identity_settle:
  "settle_residual policy residual burned ws rs = (ws', rs', burned') \<Longrightarrow> map identity ws' = map identity ws"
  by (auto simp: settle_residual_def split: residual_policy.splits list.splits)

lemma identity_penalized: "map identity (penalized F ps ws) = map identity ws"
  unfolding penalized_def Let_def by (rule identity_map2) simp_all

lemma identity_redistribute: "map identity (rd_wallets (redistribute F ps beta ws)) = map identity ws"
proof -
  have "map identity (map2 apply_reward (penalized F ps ws) (raw_rewards F ps beta ws)) = map identity ws"
    by (subst identity_map2) (simp_all add: identity_penalized)
  moreover obtain ws' rs' b' where "settle_residual (ep_residual_policy (p_economy ps))
     (sat_sub (ps_redistribution_pool (iteration_split F ps beta ws))
        (fold (\<lambda>r d. sat_add d r) (raw_rewards F ps beta ws) 0))
     (ps_burned_base (iteration_split F ps beta ws))
     (map2 apply_reward (penalized F ps ws) (raw_rewards F ps beta ws)) (raw_rewards F ps beta ws) = (ws', rs', b')"
    by (metis prod_cases3)
  ultimately show ?thesis using identity_settle redistribute_parts(2) by (metis fst_conv)
qed

lemma identity_maps:
  assumes "map identity xs = map identity ys"
  shows "map w_id xs = map w_id ys" "map w_nonce xs = map w_nonce ys"
    "map w_last_active_iteration xs = map w_last_active_iteration ys"
proof -
  have p: "map w_id zs = map fst (map identity zs)" "map w_nonce zs = map (\<lambda>t. fst (snd (snd t))) (map identity zs)"
    "map w_last_active_iteration zs = map (\<lambda>t. fst (snd (snd (snd t)))) (map identity zs)" for zs
    by (simp_all add: identity_def)
  show "map w_id xs = map w_id ys" "map w_nonce xs = map w_nonce ys"
    "map w_last_active_iteration xs = map w_last_active_iteration ys"
    by (simp_all only: p assms)
qed

section \<open>A successful iteration\<close>

definition lock_system :: "'t node \<Rightarrow> system_state" where
  "lock_system n = (n_system n)\<lparr>ss_iteration_lock := True\<rparr>"

lemma put_iteration_frame:
  assumes "put_iteration E c st = (r, st')"
  shows "wallet_contents V st' = wallet_contents V st" and "poh_contents V st' = poh_contents V st"
    and "tx_contents V st' = tx_contents V st"
proof -
  obtain t where st': "st' = st\<lparr>cs_iterations := t\<rparr>"
  proof (cases "put_json E (js_commit E) (cs_iterations st) (to_be_bytes (ic_iteration_id c)) c")
    case (Inl e)
    then have "st' = st\<lparr>cs_iterations := cs_iterations st\<rparr>" using assms by (simp add: put_iteration_def)
    then show ?thesis by (rule that)
  next
    case (Inr t)
    then have "st' = st\<lparr>cs_iterations := t\<rparr>" using assms by (simp add: put_iteration_def)
    then show ?thesis by (rule that)
  qed
  show "wallet_contents V st' = wallet_contents V st" "poh_contents V st' = poh_contents V st"
    "tx_contents V st' = tx_contents V st"
    unfolding st' by (simp_all add: fun_eq_iff wallet_contents_def poh_contents_def tx_contents_def)
qed

lemma write_snapshot_frame: "write_snapshot E i sn st = (r, st') \<Longrightarrow> st' = st"
  by (simp add: write_snapshot_def Let_def)

lemma storage_flush_frame: "storage_flush E st = (r, st') \<Longrightarrow> st' = st"
  by (simp add: storage_flush_def)

lemma commit_iteration_Inr:
  assumes laws: "store_laws E V" and ok: "commit_iteration E C now ps r n = (Inr u, n')"
    and dist: "distinct (map w_id (ir_wallets r))"
  shows "applied V C n (ledger V n ++ ledger_of (ir_wallets r)) (commit_system r (n_system n))
     (IterationCommit (ir_commit r)) n'"
proof -
  obtain st n2 st3 n4 where st: "put_wallets E (ir_wallets r) (n_storage n) = (Inr (), st)"
    and app: "append_tx_locked E C now (IterationCommit (ir_commit r))
        (n\<lparr>n_storage := st, n_system := commit_system r (n_system n)\<rparr>) = (Inr (), n2)"
    and st3: "put_iteration E (ir_commit r) (n_storage n2) = (Inr (), st3)"
    and fin: "store_system E (n2\<lparr>n_storage := st3\<rparr>) = (Inr (), n4)" and n': "n' = n4"
    using ok by (auto simp: commit_iteration_def step_simps dest!: write_snapshot_frame storage_flush_frame split: if_splits)
  note p = put_wallets_Inr [OF laws st dist]
  obtain e where e: "appended C (n\<lparr>n_storage := st, n_system := commit_system r (n_system n)\<rparr>)
      (IterationCommit (ir_commit r)) e"
    "n_system n2 = advance e (commit_system r (n_system n))"
    "ledger V n2 = wallet_contents V st" "poh_log V n2 = (poh_contents V st)(pe_tick e \<mapsto> e)"
    "tx_log V n2 = (tx_contents V st)(tx_id (IterationCommit (ir_commit r)) \<mapsto> tx_core (IterationCommit (ir_commit r)))"
    "same_frame (n\<lparr>n_storage := st, n_system := commit_system r (n_system n)\<rparr>) n2"
    using append_tx_Inr [OF laws app] by auto
  note f = store_system_Inr(1) [OF fin, simplified] store_system_Inr(2-4) [where V = V, OF fin, simplified]
    store_system_Inr(5) [OF fin, simplified] and g = put_iteration_frame [where V = V, OF st3]
  have "same_frame n (n\<lparr>n_storage := st, n_system := commit_system r (n_system n)\<rparr>)" by simp
  then have "same_frame n n'" using e(6) f(5) n' same_frame_trans same_frame_upd by metis
  moreover have "appended C n (IterationCommit (ir_commit r)) e"
    using e(1) by (simp add: appended_def commit_system_def)
  moreover have "ledger V n' = ledger V n ++ ledger_of (ir_wallets r)"
    using f(2) e(3) p g n' by simp
  moreover have "poh_log V n' = (poh_log V n)(pe_tick e \<mapsto> e)"
    using f(3) e(4) p g n' by simp
  moreover have "tx_log V n' = (tx_log V n)(tx_id (IterationCommit (ir_commit r)) \<mapsto> tx_core (IterationCommit (ir_commit r)))"
    using f(4) e(5) p g n' by simp
  moreover have "n_system n' = advance e (commit_system r (n_system n))" using f(1) e(2) n' by simp
  ultimately show ?thesis unfolding applied_def by blast
qed

lemma iteration_locked_run:
  assumes ok: "iteration_locked E C F now ps n = (Inr (Some c), n')"
  obtains st ws r where "\<not> ss_iteration_lock (n_system n)"
    "store_state E (lock_system n) (n_storage n) = (Inr (), st)" "list_wallets E st = Inr ws"
    "execute_iteration F C ws ps (lock_system n) (n_operator_id n) = Some (Inr r)" "c = ir_commit r"
    "commit_iteration E C now ps r (n\<lparr>n_system := lock_system n, n_storage := st\<rparr>) = (Inr (), n')"
proof -
  obtain st ws outcome where a: "\<not> ss_iteration_lock (n_system n)"
    "store_state E (lock_system n) (n_storage n) = (Inr (), st)" "list_wallets E st = Inr ws"
    "execute_iteration F C ws ps (lock_system n) (n_operator_id n) = outcome"
    and rest: "(case outcome of None \<Rightarrow> returnE None
       | Some result \<Rightarrow> bindE (liftE (map_err Internal result)) (\<lambda>r.
           bindE (commit_iteration E C now ps r) (\<lambda>_. returnE (Some (ir_commit r)))))
       (n\<lparr>n_system := lock_system n, n_storage := st\<rparr>) = (Inr (Some c), n')"
    using ok by (auto simp: iteration_locked_def store_system_def lock_system_def step_simps)
  obtain r where "outcome = Some (Inr r)" "c = ir_commit r"
    "commit_iteration E C now ps r (n\<lparr>n_system := lock_system n, n_storage := st\<rparr>) = (Inr (), n')"
    using rest by (auto simp: step_simps split: option.splits)
  then show thesis using a that by blast
qed

text \<open>The ledger before and after, as lists of wallets.\<close>

lemma iteration_locked_ledger:
  assumes laws: "store_laws E V" and ids: "ids_ok (ledger V n)"
    and ok: "iteration_locked E C F now ps n = (Inr (Some c), n')"
    and fresh: "distinct (ic_new_wallets c)" "set (ic_new_wallets c) \<inter> dom (ledger V n) = {}"
  obtains ws r old new where "c = ir_commit r"
    "execute_iteration F C ws ps (lock_system n) (n_operator_id n) = Some (Inr r)"
    "ledger V n = ledger_of ws" "distinct (map w_id ws)"
    "ir_wallets r = old @ new" "map identity old = map identity ws" "map w_id new = ic_new_wallets c"
    "\<forall>w\<in>set new. w_last_active_iteration w = ss_current_iteration (n_system n) + 1"
    "ic_iteration_id c = ss_current_iteration (n_system n) + 1"
    "ic_post_supply c = sum_list (map w_balance (ir_wallets r))"
    "distinct (map w_id (ir_wallets r))"
    "applied V C n (ledger_of (ir_wallets r)) (commit_system r (lock_system n)) (IterationCommit c) n'"
proof -
  obtain st ws r where run: "store_state E (lock_system n) (n_storage n) = (Inr (), st)"
      "list_wallets E st = Inr ws"
      "execute_iteration F C ws ps (lock_system n) (n_operator_id n) = Some (Inr r)" "c = ir_commit r"
      "commit_iteration E C now ps r (n\<lparr>n_system := lock_system n, n_storage := st\<rparr>) = (Inr (), n')"
    by (rule iteration_locked_run [OF ok])
  have st: "wallet_contents V st = ledger V n" "poh_contents V st = poh_log V n" "tx_contents V st = tx_log V n"
    by (rule store_state_Inr [OF run(1)])+
  have ws: "distinct (map w_id ws)" "ledger V n = ledger_of ws"
    using list_wallets_ledger [OF laws _ run(2)] ids st(1) by simp_all
  obtain beta new where new: "faucet_wallets C (lock_system n) (n_operator_id n)
        (ss_current_iteration (lock_system n) + 1) (micro_seed ps) (iteration_planned ps ws) = Inr new"
    and r: "ir_wallets r = rd_wallets (redistribute F ps beta ws) @ new"
      "ic_iteration_id (ir_commit r) = ss_current_iteration (lock_system n) + 1"
      "ic_new_wallets (ir_commit r) = map w_id new"
      "ic_post_supply (ir_commit r) = sum_list (map w_balance (ir_wallets r))"
    by (rule execute_iteration_Inr [OF run(3)])
  have old: "map identity (rd_wallets (redistribute F ps beta ws)) = map identity ws"
    by (rule identity_redistribute)
  have dom: "dom (ledger V n) = set (map w_id ws)" using ws(2) ledger_of_dom by simp
  have dist: "distinct (map w_id (ir_wallets r))"
    using fresh ws(1) dom r(1,3) identity_maps(1) [OF old] run(4) by auto
  have "dom (ledger V n) \<subseteq> dom (ledger_of (ir_wallets r))"
    using dom r(1) identity_maps(1) [OF old] unfolding ledger_of_dom by (metis list.set_map map_append set_append Un_upper1)
  then have merge: "ledger V n ++ ledger_of (ir_wallets r) = ledger_of (ir_wallets r)"
    by (rule map_add_covered)
  have app: "applied V C n (ledger_of (ir_wallets r)) (commit_system r (lock_system n)) (IterationCommit c) n'"
    using commit_iteration_Inr [OF laws run(5) dist] merge st run(4)
    unfolding applied_def appended_def by (simp add: lock_system_def same_frame_shift)
  show thesis
    using that [OF run(4,3) ws(2,1) r(1) old _ _ _ _ dist app] faucet_wallets_balances(3) [OF new] r run(4)
    by (simp add: lock_system_def)
qed

text \<open>An iteration keeps the books when its faucet wallets are new and nothing overflows.\<close>

lemma iteration_books:
  assumes laws: "store_laws E V" and b: "books (ledger V n) (n_system n)"
    and ok: "iteration_locked E C F now ps n = (Inr (Some c), n')"
    and fresh: "distinct (ic_new_wallets c)" "set (ic_new_wallets c) \<inter> dom (ledger V n) = {}"
    and small: "supply_of (ledger V n') < 2 ^ 64" "card (dom (ledger V n')) < 2 ^ 64"
    and it: "ss_current_iteration (n_system n) < ss_current_iteration (n_system n) + 1"
  shows "books (ledger V n') (n_system n')"
proof -
  let ?it = "ss_current_iteration (n_system n)"
  note B = booksD [OF b]
  obtain ws r old new where c: "c = ir_commit r" and ws: "ledger V n = ledger_of ws" "distinct (map w_id ws)"
    and r: "ir_wallets r = old @ new" "map identity old = map identity ws" "map w_id new = ic_new_wallets c"
      "\<forall>w\<in>set new. w_last_active_iteration w = ?it + 1" "ic_iteration_id c = ?it + 1"
      "ic_post_supply c = sum_list (map w_balance (ir_wallets r))" "distinct (map w_id (ir_wallets r))"
    and app: "applied V C n (ledger_of (ir_wallets r)) (commit_system r (lock_system n)) (IterationCommit c) n'"
    by (rule iteration_locked_ledger [OF laws B(1) ok fresh])
  let ?m = "ledger_of (ir_wallets r)"
  have m: "ledger V n' = ?m" using app by (simp add: applied_def)
  have card: "card (dom ?m) = length (ir_wallets r)"
    using r(7) by (simp add: ledger_of_dom distinct_map card_image distinct_card)
  have sup: "supply_of ?m = usum (map w_balance (ir_wallets r))" by (rule ledger_of_supply [OF r(7)])
  then have total: "unat (ic_post_supply c) = supply_of ?m"
    using small(1) unat_sum_list [of "map w_balance (ir_wallets r)"] by (simp add: m r(6))
  have old: "w_last_active_iteration w \<le> ?it" if "w \<in> set old" for w
  proof -
    have "w_last_active_iteration w \<in> set (map w_last_active_iteration ws)"
      using that identity_maps(3) [OF r(2)] by (metis image_eqI list.set_map)
    then obtain v where v: "v \<in> set ws" "w_last_active_iteration v = w_last_active_iteration w" by auto
    have "ledger V n (w_id v) = Some (wallet_core v)"
      using ledger_of_member [OF ws(2) v(1)] ws(1) by simp
    then show ?thesis using B(6) v(2) by fastforce
  qed
  have "active_in (?it + 1) ?m = w_id ` set new"
  proof (intro set_eqI iffI)
    fix k assume "k \<in> active_in (?it + 1) ?m"
    then obtain w where "w \<in> set (ir_wallets r)" "w_id w = k" "w_last_active_iteration w = ?it + 1"
      using ledger_of_Some by (fastforce simp: active_in_def)
    then show "k \<in> w_id ` set new" using old it r(1) by fastforce
  next
    fix k assume "k \<in> w_id ` set new"
    then obtain w where w: "w \<in> set new" "w_id w = k" by auto
    have "?m k = Some (wallet_core w)"
      using w r(1) ledger_of_member [OF r(7)] by auto
    then show "k \<in> active_in (?it + 1) ?m" using r(4) w by (simp add: active_in_def)
  qed
  then have act: "card (active_in (?it + 1) ?m) = length new"
    using r(1,7) by (simp add: distinct_map card_image distinct_card)
  have len: "length new \<le> length (ir_wallets r)" "length (ic_new_wallets c) = length new"
    using r(1,3) by (simp_all flip: r(3))
  have "\<forall>k w. ?m k = Some w \<longrightarrow> w_id w = k \<and> w_last_active_iteration w \<le> ?it + 1"
  proof (intro allI impI)
    fix k w assume "?m k = Some w"
    then obtain v where v: "v \<in> set (ir_wallets r)" "w = wallet_core v" "w_id v = k" using ledger_of_Some by blast
    then have "w_last_active_iteration v \<le> ?it + 1" using old r(1,4) it by fastforce
    then show "w_id w = k \<and> w_last_active_iteration w \<le> ?it + 1" using v by simp
  qed
  then have "books ?m (commit_system r (lock_system n))"
    using total card act len small r(5) c
    by (simp add: books_def commit_system_def ids_ok_def ledger_of_dom m unsigned_of_nat take_bit_nat_eq_self)
  moreover obtain e where "n_system n' = advance e (commit_system r (lock_system n))"
    using app by (auto simp: applied_def)
  ultimately show ?thesis by (simp add: m)
qed

end
