(* ===== verification/Boot.thy ===== *)
theory Boot
  imports Iteration
begin

text \<open>
  Starting a node on a database: what \<open>boot\<close> reads and writes, in terms of the store view, and the
  condition (\<open>persisted\<close>) under which the node that starts has the state of the one that stopped.
\<close>

lemma boot_run:
  assumes "boot E C env config st = (Inr n, st')"
  obtains ps0 ps st1 sys0 sys st2 st3 st4 where
    "load_parameters E st = Inr ps0" "store_parameters E ps st = (Inr (), st1)"
    "load_state E st1 = Inr sys0"
    "sys = (let s = (case sys0 of None \<Rightarrow> default_system_state | Some s \<Rightarrow> s)
       in if ss_last_poh_hash s = [] then s\<lparr>ss_last_poh_hash := ZERO_HASH_HEX\<rparr> else s)"
    "store_state E sys st1 = (Inr (), st2)"
    "put_operator E (genesis_operator (n_operator_id n) (n_operator_public_key n)) st2 = (Inr (), st3)"
    "put_validator E (genesis_validator (n_validator_id n) (n_operator_public_key n)
       (nc_validator_endpoint config) (ss_current_tick sys)) st3 = (Inr (), st4)"
    "n_storage n = st4" "n_system n = sys" "st' = st4"
  using assms
  by (auto simp: boot_def Let_def step_simps dest!: storage_flush_frame)

text \<open>The system state as the storage has it.\<close>

definition stored_state :: "('t, 'b) store_view \<Rightarrow> 't coin_storage \<Rightarrow> system_state option" where
  "stored_state V st = Option.bind (tree_map V (cs_system st) ''state'') (vw_state V)"

lemma load_state_view:
  assumes "store_laws E V" "load_state E st = Inr s"
  shows "map_option state_core s = stored_state V st"
  using get_json_view [OF store_lawsD(1) [OF assms(1)] store_lawsD(7) [OF assms(1)]] assms(2)
  unfolding load_state_def stored_state_def by simp

lemma store_state_view:
  assumes "store_laws E V" "store_state E s st = (Inr u, st')"
  shows "stored_state V st' = Some (state_core s)"
proof -
  obtain t where t: "put_json E (js_state E) (cs_system st) ''state'' s = Inr t" "st' = st\<lparr>cs_system := t\<rparr>"
    using assms(2) by (auto simp: store_state_def split: sum.splits)
  obtain b where "tree_map V t = (tree_map V (cs_system st))(''state'' \<mapsto> b)" "vw_state V b = Some (state_core s)"
    using put_json_view [OF store_lawsD(1) [OF assms(1)] store_lawsD(7) [OF assms(1)] t(1)] by blast
  then show ?thesis by (simp add: stored_state_def t(2))
qed

lemma store_parameters_tree:
  assumes "store_laws E V" "store_parameters E ps st = (Inr u, st')"
  obtains b t where "st' = st\<lparr>cs_system := t\<rparr>"
    "tree_map V t = (tree_map V (cs_system st))(''parameters'' \<mapsto> b)"
proof -
  obtain t where t: "put_json E (js_parameters E) (cs_system st) ''parameters'' ps = Inr t"
    "st' = st\<lparr>cs_system := t\<rparr>"
    using assms(2) by (auto simp: store_parameters_def split: sum.splits)
  then obtain b where "sl_insert E (cs_system st) ''parameters'' b = Inr t"
    by (auto simp: put_json_def step_simps)
  then have "tree_map V t = (tree_map V (cs_system st))(''parameters'' \<mapsto> b)"
    using store_lawsD(1) [OF assms(1)] by (auto simp: tree_laws_def)
  then show thesis using t(2) that by blast
qed

lemma store_parameters_state:
  "store_laws E V \<Longrightarrow> store_parameters E ps st = (Inr u, st') \<Longrightarrow> stored_state V st' = stored_state V st"
  by (erule (1) store_parameters_tree) (simp add: stored_state_def)

lemma put_operator_tree: "put_operator E op st = (Inr u, st') \<Longrightarrow> \<exists>t. st' = st\<lparr>cs_operators := t\<rparr>"
  by (auto simp: put_operator_def split: sum.splits)

lemma put_validator_tree: "put_validator E v st = (Inr u, st') \<Longrightarrow> \<exists>t. st' = st\<lparr>cs_validators := t\<rparr>"
  by (auto simp: put_validator_def split: sum.splits)

lemma store_parameters_frame:
  assumes "store_parameters E ps st = (r, st')"
  shows "wallet_contents V st' = wallet_contents V st" and "poh_contents V st' = poh_contents V st"
    and "tx_contents V st' = tx_contents V st"
  using assms
  by (auto simp: store_parameters_def wallet_contents_def poh_contents_def tx_contents_def fun_eq_iff split: sum.splits)

lemma boot_frame:
  assumes laws: "store_laws E V" and boot: "boot E C env config st = (Inr n, st')"
  shows "ledger V n = wallet_contents V st" "poh_log V n = poh_contents V st" "tx_log V n = tx_contents V st"
proof -
  obtain ps st1 sys st2 st3 st4 where steps: "store_parameters E ps st = (Inr (), st1)"
      "store_state E sys st1 = (Inr (), st2)" "n_storage n = st4"
    and frames: "put_operator E (genesis_operator (n_operator_id n) (n_operator_public_key n)) st2 = (Inr (), st3)"
      "put_validator E (genesis_validator (n_validator_id n) (n_operator_public_key n)
         (nc_validator_endpoint config) (ss_current_tick sys)) st3 = (Inr (), st4)"
    by (rule boot_run [OF boot])
  note p = store_parameters_frame [where V = V, OF steps(1)] store_state_Inr [where V = V, OF steps(2)]
  have "\<exists>a b. st4 = st2\<lparr>cs_operators := a, cs_validators := b\<rparr>"
    using put_operator_tree [OF frames(1)] put_validator_tree [OF frames(2)] by auto
  then have "wallet_contents V st4 = wallet_contents V st2" "poh_contents V st4 = poh_contents V st2"
    "tx_contents V st4 = tx_contents V st2"
    by (auto simp: fun_eq_iff wallet_contents_def poh_contents_def tx_contents_def)
  then show "ledger V n = wallet_contents V st" "poh_log V n = poh_contents V st" "tx_log V n = tx_contents V st"
    using p steps(3) by simp_all
qed

section \<open>Stored and running state\<close>

text \<open>The storage has the system state of the running node.\<close>

definition persisted :: "('t, 'b) store_view \<Rightarrow> 't node \<Rightarrow> bool" where
  "persisted V n \<longleftrightarrow> stored_state V (n_storage n) = Some (state_core (n_system n))"

lemma store_system_persists:
  assumes "store_laws E V" "store_system E n = (Inr u, n')"
  shows "persisted V n'"
  using assms(2) store_state_view [OF assms(1)] by (auto simp: persisted_def store_system_def step_simps)

lemma boot_persists:
  assumes laws: "store_laws E V" and boot: "boot E C env config st = (Inr n, st')"
  shows "persisted V n"
proof -
  obtain sys st1 st2 st3 st4 where "store_state E sys st1 = (Inr (), st2)" "n_storage n = st4" "n_system n = sys"
    and frames: "put_operator E (genesis_operator (n_operator_id n) (n_operator_public_key n)) st2 = (Inr (), st3)"
      "put_validator E (genesis_validator (n_validator_id n) (n_operator_public_key n)
         (nc_validator_endpoint config) (ss_current_tick sys)) st3 = (Inr (), st4)"
    by (rule boot_run [OF boot])
  moreover have "cs_system st4 = cs_system st2"
    using put_operator_tree [OF frames(1)] put_validator_tree [OF frames(2)] by auto
  ultimately show ?thesis
    using store_state_view [OF laws] by (simp add: persisted_def stored_state_def)
qed

text \<open>A node started on the database of one whose state is stored has that ledger, log and state.\<close>

lemma boot_resumes:
  assumes laws: "store_laws E V" and kept: "persisted V n" and hash: "ss_last_poh_hash (n_system n) \<noteq> []"
    and boot: "boot E C env config (n_storage n) = (Inr n', st')"
  shows "ledger V n' = ledger V n" "poh_log V n' = poh_log V n" "tx_log V n' = tx_log V n"
    "state_core (n_system n') = state_core (n_system n)"
proof -
  obtain ps st1 sys0 sys where ps: "store_parameters E ps (n_storage n) = (Inr (), st1)"
    and load: "load_state E st1 = Inr sys0"
    and sys: "sys = (let s = (case sys0 of None \<Rightarrow> default_system_state | Some s \<Rightarrow> s)
       in if ss_last_poh_hash s = [] then s\<lparr>ss_last_poh_hash := ZERO_HASH_HEX\<rparr> else s)"
    and n: "n_system n' = sys"
    by (rule boot_run [OF boot])
  have "map_option state_core sys0 = Some (state_core (n_system n))"
    using kept load_state_view [OF laws load] store_parameters_state [OF laws ps] by (simp add: persisted_def)
  then obtain s where s: "sys0 = Some s" "state_core s = state_core (n_system n)" by auto
  have "ss_last_poh_hash s = ss_last_poh_hash (n_system n)"
    using arg_cong [OF s(2), of ss_last_poh_hash] by (simp add: state_core_def)
  then have "n_system n' = s" using hash by (simp add: n sys s(1))
  then show "state_core (n_system n') = state_core (n_system n)" by (simp add: s(2))
qed (simp_all add: boot_frame [OF laws boot])

end
