(* ===== verification/Chain.thy ===== *)
theory Chain
  imports Boot
begin

text \<open>
  The node under interleaving.  A request is prepared outside the lock, which may admit it as a
  pending job, and a pending job runs its locked part later, in any order.  \<open>node_step\<close> is that
  transition system, with panics, refused jobs and restarts, without internal errors and without
  overflow; its invariant is that the counters are the ones of the ledger (\<open>books\<close>) and that the
  proof-of-history log is one verified chain from the zero hash, one entry per tick (\<open>log_ok\<close>).
\<close>

section \<open>The log invariant\<close>

definition log_of :: "poh_entry list \<Rightarrow> tick \<rightharpoonup> poh_entry" where
  "log_of es t = (if 0 < unat t \<and> unat t \<le> length es then Some (es ! (unat t - 1)) else None)"

definition log_ok :: "crypto_lib \<Rightarrow> ('t, 'b) store_view \<Rightarrow> 't node \<Rightarrow> poh_entry list \<Rightarrow> bool" where
  "log_ok C V n es \<longleftrightarrow>
     chain_from C ZERO_HASH_HEX es \<and> ss_last_poh_hash (n_system n) = chain_end ZERO_HASH_HEX es \<and>
     unat (ss_current_tick (n_system n)) = length es \<and> poh_log V n = log_of es \<and>
     (\<forall>i<length es. unat (pe_tick (es ! i)) = i + 1) \<and>
     (\<forall>e\<in>set es. \<exists>txid. pe_tx_ids e = [txid] \<and> tx_log V n txid \<noteq> None)"

lemma log_of_snoc:
  assumes "unat (pe_tick e) = length es + 1"
  shows "(log_of es)(pe_tick e \<mapsto> e) = log_of (es @ [e])"
proof
  fix t :: tick
  show "((log_of es)(pe_tick e \<mapsto> e)) t = log_of (es @ [e]) t"
  proof (cases "t = pe_tick e")
    case True
    then show ?thesis using assms by (simp add: log_of_def)
  next
    case False
    then have "unat t \<noteq> length es + 1" using assms by (metis unsigned_word_eqI)
    then show ?thesis using False by (auto simp: log_of_def nth_append)
  qed
qed

lemma applied_log:
  assumes "log_ok C V n es" and app: "applied V C n m s tx n'"
    and room: "unat (ss_current_tick (n_system n)) + 1 < 2 ^ 64"
  shows "\<exists>e. log_ok C V n' (es @ [e]) \<and> pe_tx_ids e = [tx_id tx]"
proof -
  obtain e where e: "appended C n tx e" "n_system n' = advance e s"
    "poh_log V n' = (poh_log V n)(pe_tick e \<mapsto> e)" "tx_log V n' = (tx_log V n)(tx_id tx \<mapsto> tx_core tx)"
    using app by (auto simp: applied_def)
  have L: "chain_from C ZERO_HASH_HEX es" "ss_last_poh_hash (n_system n) = chain_end ZERO_HASH_HEX es"
    "unat (ss_current_tick (n_system n)) = length es" "poh_log V n = log_of es"
    "\<forall>i<length es. unat (pe_tick (es ! i)) = i + 1"
    "\<forall>e\<in>set es. \<exists>txid. pe_tx_ids e = [txid] \<and> tx_log V n txid \<noteq> None"
    using assms(1) by (auto simp: log_ok_def)
  have tick: "unat (pe_tick e) = length es + 1"
    using e(1) room L(3) by (simp add: appended_def unat_sat_add)
  have "chain_from C ZERO_HASH_HEX (es @ [e])"
    using e(1) L(1,2) by (simp add: chain_from_append appended_def)
  moreover have "ss_last_poh_hash (n_system n') = chain_end ZERO_HASH_HEX (es @ [e])"
    "unat (ss_current_tick (n_system n')) = length (es @ [e])"
    using e(2) tick by (simp_all add: advance_def chain_end_append)
  moreover have "poh_log V n' = log_of (es @ [e])" using e(3) L(4) log_of_snoc [OF tick] by simp
  moreover have "\<forall>i<length (es @ [e]). unat (pe_tick ((es @ [e]) ! i)) = i + 1"
    using L(5) tick by (auto simp: nth_append less_Suc_eq)
  moreover have ids: "pe_tx_ids e = [tx_id tx]" using e(1) by (simp add: appended_def)
  moreover have "\<forall>x\<in>set (es @ [e]). \<exists>txid. pe_tx_ids x = [txid] \<and> tx_log V n' txid \<noteq> None"
  proof
    fix x assume "x \<in> set (es @ [e])"
    then consider "x = e" | "x \<in> set es" by auto
    then show "\<exists>txid. pe_tx_ids x = [txid] \<and> tx_log V n' txid \<noteq> None"
    proof cases
      case 1
      then show ?thesis using ids e(4) by simp
    next
      case 2
      then obtain txid where "pe_tx_ids x = [txid]" "tx_log V n txid \<noteq> None" using L(6) by blast
      then show ?thesis using e(4) by (intro exI [of _ txid]) simp
    qed
  qed
  ultimately show ?thesis unfolding log_ok_def by blast
qed

section \<open>Seed files\<close>

text \<open>What a successful seed entry does: nothing, or the insertion of one new wallet.\<close>

lemma install_seed_entry_Inr:
  assumes laws: "store_laws E V"
    and ok: "install_seed_entry E C t1 t2 t3 d entry n = (Inr new, n')"
  shows "(\<not> new \<and> n' = n) \<or> new \<and> (\<exists>w m tx s. spec_create w (ledger V n) = Inr m \<and>
    w_balance w = (case sw_initial_balance entry of None \<Rightarrow> d | Some a \<Rightarrow> a) \<and>
    w_last_active_iteration w = ss_current_iteration (n_system n) \<and>
    n_system n' = advance s (count_new_wallet (w_balance w) (n_system n)) \<and>
    applied V C n m (count_new_wallet (w_balance w) (n_system n)) tx n')"
proof -
  let ?a = "case sw_initial_balance entry of None \<Rightarrow> d | Some a \<Rightarrow> a"
  let ?w = "\<lambda>key wid. fresh_wallet wid key ?a (next_tick n) (ss_current_iteration (n_system n)) (n_operator_id n)"
  let ?tx = "\<lambda>wid txid. bootstrap_mint txid wid ?a (n_operator_id n) (next_tick n) t2"
  have "\<not> new \<and> n' = n \<or> new \<and> (\<exists>key wid txid st. get_wallet E (n_storage n) wid = Inr None \<and>
      put_wallet E (?w key wid) (n_storage n) = (Inr (), st) \<and>
      append_tx_locked E C t3 (?tx wid txid)
        (n\<lparr>n_storage := st, n_system := count_new_wallet ?a (n_system n)\<rparr>) = (Inr (), n'))"
    using ok by (auto simp: install_seed_entry_def step_simps Let_def split: if_splits)
  then show ?thesis
  proof (elim disjE conjE exE)
    assume "\<not> new" "n' = n"
    then show ?thesis by simp
  next
    fix key wid txid st
    assume new: "new" and get: "get_wallet E (n_storage n) wid = Inr None"
      and put: "put_wallet E (?w key wid) (n_storage n) = (Inr (), st)"
      and app: "append_tx_locked E C t3 (?tx wid txid)
        (n\<lparr>n_storage := st, n_system := count_new_wallet ?a (n_system n)\<rparr>) = (Inr (), n')"
    let ?w = "fresh_wallet wid key ?a (next_tick n) (ss_current_iteration (n_system n)) (n_operator_id n)"
    have none: "ledger V n wid = None" using wallets.get_NoneD [OF laws get] .
    have spec: "spec_create (wallet_core ?w) (ledger V n) = Inr (wallet_contents V st)"
      using none put_wallet_Inr(1) [OF laws put] by (simp add: spec_create_def)
    obtain e where e: "appended C (n\<lparr>n_storage := st, n_system := count_new_wallet ?a (n_system n)\<rparr>)
        (bootstrap_mint txid wid ?a (n_operator_id n) (next_tick n) t2) e"
      "n_system n' = advance e (count_new_wallet ?a (n_system n))" "ledger V n' = wallet_contents V st"
      "poh_log V n' = (poh_contents V st)(pe_tick e \<mapsto> e)"
      "tx_log V n' = (tx_contents V st)(tx_id (bootstrap_mint txid wid ?a (n_operator_id n) (next_tick n) t2)
         \<mapsto> tx_core (bootstrap_mint txid wid ?a (n_operator_id n) (next_tick n) t2))"
      "same_frame (n\<lparr>n_storage := st, n_system := count_new_wallet ?a (n_system n)\<rparr>) n'"
      using append_tx_Inr [OF laws app] by auto
    have "same_frame n (n\<lparr>n_storage := st, n_system := count_new_wallet ?a (n_system n)\<rparr>)" by simp
    then have "same_frame n n'" using e(6) same_frame_trans by blast
    moreover have "appended C n (bootstrap_mint txid wid ?a (n_operator_id n) (next_tick n) t2) e"
      using e(1) by (simp add: appended_def count_new_wallet_def)
    ultimately have "applied V C n (wallet_contents V st) (count_new_wallet ?a (n_system n))
        (bootstrap_mint txid wid ?a (n_operator_id n) (next_tick n) t2) n'"
      using e(2-5) put_wallet_Inr(2,3) [OF laws put] unfolding applied_def by (intro conjI exI [of _ e]) simp_all
    then show ?thesis
      using new spec e(2)
      by (intro disjI2 conjI exI [of _ "wallet_core ?w"] exI [of _ "wallet_contents V st"]) (auto simp: fresh_wallet_def)
  qed
qed

definition seed_amount :: "micro_agc \<Rightarrow> seed_wallet \<Rightarrow> nat" where
  "seed_amount d entry = unat (case sw_initial_balance entry of None \<Rightarrow> d | Some a \<Rightarrow> a)"

lemma install_seed_entry_Inl:
  assumes "install_seed_entry E C t1 t2 t3 d entry n = (Inl e, n')" "\<not> is_internal e"
  shows "n' = n"
  using assms
  by (auto simp: install_seed_entry_def bindE_Inl_iff fetch_Inl fetch_Inr map_err_Inl_iff Let_def comp_simps
      dest: store_internal append_tx_Inl mint_tx_id_Inl split: if_splits)

text \<open>
  The entries of a seed file, whether they are all taken or one of them is refused: what was
  installed before the refused entry stays installed, and books and log stay consistent.
\<close>

lemma install_seed_entries_keep:
  assumes laws: "store_laws E V"
    and "install_seed_entries E C clock d k entries n = (res, n')" and "\<forall>e. res = Inl e \<longrightarrow> \<not> is_internal e"
    and "books (ledger V n) (n_system n)" "log_ok C V n es"
    and "unat (ss_total_supply (n_system n)) + sum_list (map (seed_amount d) entries) < 2 ^ 64"
    and "unat (ss_n_wallets (n_system n)) + length entries < 2 ^ 64"
    and "unat (ss_current_tick (n_system n)) + length entries < 2 ^ 64"
  shows "books (ledger V n') (n_system n') \<and> same_frame n n' \<and>
    (\<exists>es'. log_ok C V n' (es @ es') \<and> card (dom (ledger V n')) = card (dom (ledger V n)) + length es')"
  using assms(2-)
proof (induction entries arbitrary: k n es res)
  case Nil
  then show ?case by (auto intro: exI [of _ "[]"])
next
  case (Cons entry entries)
  obtain new n1 where step: "install_seed_entry E C (clock (3 * k)) (clock (3 * k + 1)) (clock (3 * k + 2)) d entry n
      = (new, n1)" by (metis prod.exhaust)
  show ?case
  proof (cases new)
    case (Inl e)
    then have "res = Inl e" "n' = n1" using Cons.prems(1) step by (simp_all add: bindE_def)
    then have "n' = n" using install_seed_entry_Inl step Cons.prems(2) Inl by blast
    then show ?thesis using Cons.prems(3,4) by (auto intro: exI [of _ "[]"])
  next
    case (Inr b)
    obtain res1 where rest: "install_seed_entries E C clock d (Suc k) entries n1 = (res1, n')"
      and fine: "\<forall>e. res1 = Inl e \<longrightarrow> \<not> is_internal e"
      using Cons.prems(1,2) step Inr by (auto simp: bindE_def returnE_def split: prod.splits sum.splits)
    show ?thesis
    proof (cases b)
      case False
      then have "n1 = n" using install_seed_entry_Inr [OF laws step [unfolded Inr]] by simp
      then show ?thesis using Cons.IH [OF rest fine] Cons.prems by simp
    next
      case True
      then obtain w m tx e where w: "spec_create w (ledger V n) = Inr m" "seed_amount d entry = unat (w_balance w)"
          "w_last_active_iteration w = ss_current_iteration (n_system n)"
        and sys: "n_system n1 = advance e (count_new_wallet (w_balance w) (n_system n))"
        and app: "applied V C n m (count_new_wallet (w_balance w) (n_system n)) tx n1"
        using install_seed_entry_Inr [OF laws step [unfolded Inr]] by (auto simp: seed_amount_def)
      have "books m (count_new_wallet (w_balance w) (n_system n))"
        using spec_create_books [OF Cons.prems(3) w(1,3)] w(2) Cons.prems(5,6) by simp
      then have b1: "books (ledger V n1) (n_system n1)" using sys applied_ledger [OF app] by simp
      obtain e' where l1: "log_ok C V n1 (es @ [e'])"
        using applied_log [OF Cons.prems(4) app] Cons.prems(7) by auto
      have more: "unat (ss_total_supply (n_system n1)) = unat (ss_total_supply (n_system n)) + seed_amount d entry"
        "unat (ss_n_wallets (n_system n1)) = unat (ss_n_wallets (n_system n)) + 1"
        using sys w(2) Cons.prems(5,6) by (simp_all add: advance_def count_new_wallet_def unat_sat_add)
      have tick: "unat (ss_current_tick (n_system n1)) = unat (ss_current_tick (n_system n)) + 1"
        using l1 Cons.prems(4) by (simp add: log_ok_def)
      have ih: "books (ledger V n') (n_system n') \<and> same_frame n1 n' \<and>
          (\<exists>es'. log_ok C V n' ((es @ [e']) @ es') \<and> card (dom (ledger V n')) = card (dom (ledger V n1)) + length es')"
        using Cons.prems(5-7) more tick by (intro Cons.IH [OF rest fine b1 l1]) simp_all
      have count: "card (dom (ledger V n1)) = card (dom (ledger V n)) + 1"
        using more(2) booksD(4) [OF b1] booksD(4) [OF Cons.prems(3)] by simp
      obtain es' where "log_ok C V n' (es @ e' # es')" "card (dom (ledger V n')) = card (dom (ledger V n1)) + length es'"
        using ih by auto
      then have "\<exists>es'. log_ok C V n' (es @ es') \<and> card (dom (ledger V n')) = card (dom (ledger V n)) + length es'"
        using count by (intro exI [of _ "e' # es'"]) simp
      moreover have "same_frame n n1" using app by (simp add: applied_def)
      ultimately show ?thesis using ih same_frame_trans by blast
    qed
  qed
qed

section \<open>Jobs and steps\<close>

text \<open>A request that was admitted outside the lock, with what its preparation computed.\<close>

datatype job =
    JCreate system_parameters public_key wallet_id wallet_create_request operator signature
  | JCharge charge_request operator signature
  | JTransfer transfer_request hash public_key
  | JBurn burn_request hash public_key
  | JIteration system_parameters
  | JSeed micro_agc seed_file

definition discard :: "('t, 'a) handler \<Rightarrow> ('t, bool) handler" where
  "discard m = bindE m (\<lambda>_. returnE True)"

text \<open>The locked part of a job; the value \<open>False\<close> is a panic.\<close>

fun run_job ::
  "('t, 'b) store_lib \<Rightarrow> crypto_lib \<Rightarrow> float_lib \<Rightarrow> (nat \<Rightarrow> i64) \<Rightarrow> job \<Rightarrow> ('t, bool) handler"
where
  "run_job E C F clock (JCreate ps key wid r op sig) =
     discard (create_wallet_locked E C (clock 0) ps key wid r op sig)"
| "run_job E C F clock (JCharge r op sig) = discard (charge_locked E C (clock 0) r op sig)"
| "run_job E C F clock (JTransfer r txid key) = discard (transfer_locked E C (clock 0) r txid key)"
| "run_job E C F clock (JBurn r txid key) = discard (burn_locked E C (clock 0) r txid key)"
| "run_job E C F clock (JIteration ps) =
     bindE (iteration_locked E C F (clock 0) ps) (\<lambda>c. returnE (c \<noteq> None))"
| "run_job E C F clock (JSeed d seed) = discard (install_seed_locked E C clock d seed)"

text \<open>The preparation of a request that admits a job, and what it leaves of the node.\<close>

inductive admits :: "crypto_lib \<Rightarrow> 't node \<Rightarrow> job \<Rightarrow> 't node \<Rightarrow> bool" for C where
  create: "prepare_create C (n_parameters n) r = Inr (key, wid) \<Longrightarrow>
    admits C n (JCreate (n_parameters n) key wid r op sig) n"
| charge: "prepare_charge now r sig n = (Inr (), n') \<Longrightarrow> admits C n (JCharge r op sig) n'"
| transfer: "prepare_transfer C (p_security (n_parameters n)) r = Inr (txid, key) \<Longrightarrow>
    admits C n (JTransfer r txid key) n"
| burn: "prepare_burn C (p_security (n_parameters n)) r = Inr (txid, key) \<Longrightarrow> admits C n (JBurn r txid key) n"
| iteration: "admits C n (JIteration (n_parameters n)) n"
| seed: "admits C n (JSeed (micro_seed (n_parameters n)) file) n"

inductive_cases admits_transferE: "admits C n (JTransfer r txid key) n'"

text \<open>Nothing saturates or wraps when the job runs, and the faucet creates new wallets only.\<close>

definition headroom :: "('t, 'b) store_view \<Rightarrow> 't node \<Rightarrow> nat \<Rightarrow> nat \<Rightarrow> bool" where
  "headroom V n amount count \<longleftrightarrow>
     unat (ss_total_supply (n_system n)) + amount < 2 ^ 64 \<and>
     unat (ss_n_wallets (n_system n)) + count < 2 ^ 64 \<and>
     unat (ss_current_tick (n_system n)) + 1 < 2 ^ 64 \<and>
     unat (ss_current_tick (n_system n)) + count < 2 ^ 64"

definition nonce_room :: "('t, 'b) store_view \<Rightarrow> 't node \<Rightarrow> wallet_id \<Rightarrow> bool" where
  "nonce_room V n k \<longleftrightarrow> (\<forall>w. ledger V n k = Some w \<longrightarrow> unat (w_nonce w) + 1 < 2 ^ 64)"

fun calm ::
  "('t, 'b) store_lib \<Rightarrow> crypto_lib \<Rightarrow> float_lib \<Rightarrow> ('t, 'b) store_view \<Rightarrow> (nat \<Rightarrow> i64) \<Rightarrow> job
     \<Rightarrow> 't node \<Rightarrow> 't node \<Rightarrow> bool"
where
  "calm E C F V clock (JCreate ps key wid r op sig) n n' = headroom V n (unat (micro_seed ps)) 1"
| "calm E C F V clock (JCharge r op sig) n n' = headroom V n (unat (cr_amount r)) 0"
| "calm E C F V clock (JTransfer r txid key) n n' = (headroom V n 0 0 \<and> nonce_room V n (tr_from r))"
| "calm E C F V clock (JBurn r txid key) n n' = (headroom V n 0 0 \<and> nonce_room V n (br_from r))"
| "calm E C F V clock (JIteration ps) n n' =
     (headroom V n 0 0 \<and> supply_of (ledger V n') < 2 ^ 64 \<and> card (dom (ledger V n')) < 2 ^ 64 \<and>
      ss_current_iteration (n_system n) < ss_current_iteration (n_system n) + 1 \<and>
      (\<forall>c. iteration_locked E C F (clock 0) ps n = (Inr (Some c), n') \<longrightarrow>
         distinct (ic_new_wallets c) \<and> set (ic_new_wallets c) \<inter> dom (ledger V n) = {}))"
| "calm E C F V clock (JSeed d seed) n n' =
     headroom V n (sum_list (map (seed_amount d) (sf_initial_wallets seed))) (length (sf_initial_wallets seed))"

text \<open>
  The steps of a node.  A successful job, a panic of an iteration, a refused job (which leaves the node
  as it was), the requests that only touch parameters, limits or the simulation switch, and a
  restart on the database, which the relation has only for a node whose state is stored
  (\<open>persisted\<close>) and whose last digest is not the empty string, as a digest in hexadecimal never is.
\<close>

inductive plain_step ::
  "('t, 'b) store_lib \<Rightarrow> crypto_lib \<Rightarrow> float_lib \<Rightarrow> ('t, 'b) store_view
     \<Rightarrow> 't node \<times> job list \<Rightarrow> 't node \<times> job list \<Rightarrow> bool"
  for E C F V
where
  admit: "admits C n j n' \<Longrightarrow> plain_step E C F V (n, js) (n', j # js)"
| refuse_charge: "prepare_charge now r sig n = (Inl e, n') \<Longrightarrow> plain_step E C F V (n, js) (n', js)"
| limit_create: "check_wallet_rate_limit now ip n = (r, n') \<Longrightarrow> plain_step E C F V (n, js) (n', js)"
| limit_transfer: "check_transfer_rate_limit now wid n = (r, n') \<Longrightarrow> plain_step E C F V (n, js) (n', js)"
| parameters: "update_parameters E ps n = (Inr (), n') \<Longrightarrow> plain_step E C F V (n, js) (n', js)"
| simulation: "set_simulation_running b mode n = (r, n') \<Longrightarrow> plain_step E C F V (n, js) (n', js)"
| run: "j \<in> set js \<Longrightarrow> run_job E C F clock j n = (Inr True, n') \<Longrightarrow> calm E C F V clock j n n' \<Longrightarrow>
    plain_step E C F V (n, js) (n', remove1 j js)"
| panic: "j \<in> set js \<Longrightarrow> run_job E C F clock j n = (Inr False, n') \<Longrightarrow>
    plain_step E C F V (n, js) (n', remove1 j js)"
| reject: "j \<in> set js \<Longrightarrow> run_job E C F clock j n = (Inl e, n') \<Longrightarrow> \<not> is_internal e \<Longrightarrow>
    (\<forall>d s. j \<noteq> JSeed d s) \<Longrightarrow> plain_step E C F V (n, js) (n', remove1 j js)"
| restart: "boot E C env config (n_storage n) = (Inr n', st') \<Longrightarrow> persisted V n \<Longrightarrow>
    ss_last_poh_hash (n_system n) \<noteq> [] \<Longrightarrow> plain_step E C F V (n, js) (n', [])"

text \<open>
  A refused seed file is the one refusal that changes the node: the wallets of the entries before the
  refused one are stored and counted, while the system state is not written back.
\<close>

inductive node_step ::
  "('t, 'b) store_lib \<Rightarrow> crypto_lib \<Rightarrow> float_lib \<Rightarrow> ('t, 'b) store_view
     \<Rightarrow> 't node \<times> job list \<Rightarrow> 't node \<times> job list \<Rightarrow> bool"
  for E C F V
where
  plain: "plain_step E C F V c c' \<Longrightarrow> node_step E C F V c c'"
| refuse_seed: "JSeed d seed \<in> set js \<Longrightarrow> run_job E C F clock (JSeed d seed) n = (Inl e, n') \<Longrightarrow>
    \<not> is_internal e \<Longrightarrow> calm E C F V clock (JSeed d seed) n n' \<Longrightarrow>
    node_step E C F V (n, js) (n', remove1 (JSeed d seed) js)"

lemmas plain_steps = plain_step.intros [THEN node_step.plain]

section \<open>The invariant\<close>

text \<open>A pending transfer has two different wallets: its preparation checked that.\<close>

fun job_ok :: "job \<Rightarrow> bool" where
  "job_ok (JTransfer r txid key) \<longleftrightarrow> tr_from r \<noteq> tr_to r"
| "job_ok _ \<longleftrightarrow> True"

definition node_inv :: "crypto_lib \<Rightarrow> ('t, 'b) store_view \<Rightarrow> 't node \<times> job list \<Rightarrow> bool" where
  "node_inv C V c \<longleftrightarrow>
     books (ledger V (fst c)) (n_system (fst c)) \<and> (\<exists>es. log_ok C V (fst c) es) \<and> list_all job_ok (snd c)"

lemma discard_Inr: "discard m n = (Inr b, n') \<longleftrightarrow> b \<and> (\<exists>a. m n = (Inr a, n'))"
  by (auto simp: discard_def step_simps)

lemma discard_Inl: "discard m n = (Inl e, n') \<longleftrightarrow> m n = (Inl e, n')"
  by (auto simp: discard_def step_simps)

lemma prepare_transfer_distinct:
  "prepare_transfer C security r = Inr (txid, key) \<Longrightarrow> tr_from r \<noteq> tr_to r \<and> tr_amount r \<noteq> 0"
  by (auto simp: prepare_transfer_def split: if_splits)

lemma applied_keeps:
  assumes app: "applied V C n m s tx n'" and b: "books m s" and l: "log_ok C V n es"
    and room: "headroom V n a k"
  shows "books (ledger V n') (n_system n') \<and> (\<exists>es. log_ok C V n' es)"
proof -
  obtain e where "n_system n' = advance e s" using app by (auto simp: applied_def)
  moreover have "unat (ss_current_tick (n_system n)) + 1 < 2 ^ 64" using room by (simp add: headroom_def)
  ultimately show ?thesis using applied_ledger [OF app] applied_log [OF l app] b by auto
qed

lemma run_job_keeps:
  assumes laws: "store_laws E V" and ok: "run_job E C F clock j n = (Inr True, n')" and j: "job_ok j"
    and calm: "calm E C F V clock j n n'" and b: "books (ledger V n) (n_system n)" and l: "log_ok C V n es"
  shows "books (ledger V n') (n_system n') \<and> (\<exists>es. log_ok C V n' es)"
proof (cases j)
  case (JCreate ps key wid r op sig)
  let ?w = "fresh_wallet wid key (micro_seed ps) (next_tick n) (ss_current_iteration (n_system n)) (op_id op)
    \<lparr>w_activity_score := f64_zero\<rparr>"
  obtain resp where "create_wallet_locked E C (clock 0) ps key wid r op sig n = (Inr resp, n')"
    using ok JCreate by (auto simp: discard_Inr)
  then obtain m tx where m: "spec_create ?w (ledger V n) = Inr m"
    "applied V C n m (count_new_wallet (micro_seed ps) (n_system n)) tx n'"
    using create_wallet_locked_Inr [OF laws] by blast
  have bal: "w_balance ?w = micro_seed ps" by (simp add: fresh_wallet_def)
  have "books m (count_new_wallet (w_balance ?w) (n_system n))"
    using calm JCreate by (intro spec_create_books [OF b m(1)]) (auto simp: fresh_wallet_def headroom_def)
  then show ?thesis using applied_keeps [OF m(2) _ l] calm JCreate bal by simp
next
  case (JCharge r op sig)
  obtain resp where "charge_locked E C (clock 0) r op sig n = (Inr resp, n')"
    using ok JCharge by (auto simp: discard_Inr)
  then obtain m tx where m: "spec_charge r (ledger V n) = Inr m"
    "applied V C n m ((n_system n)\<lparr>ss_total_supply := sat_add (ss_total_supply (n_system n)) (cr_amount r)\<rparr>) tx n'"
    using charge_locked_Inr [OF laws booksD(1) [OF b]] by blast
  have room: "headroom V n (unat (cr_amount r)) 0" using calm JCharge by simp
  then have "books m ((n_system n)\<lparr>ss_total_supply := sat_add (ss_total_supply (n_system n)) (cr_amount r)\<rparr>)"
    by (intro spec_charge_books [OF b m(1)]) (simp add: headroom_def)
  then show ?thesis by (rule applied_keeps [OF m(2) _ l room])
next
  case (JTransfer r txid key)
  obtain resp where "transfer_locked E C (clock 0) r txid key n = (Inr resp, n')"
    using ok JTransfer by (auto simp: discard_Inr)
  then obtain m where m: "spec_transfer (ss_current_iteration (n_system n)) r (ledger V n) = Inr m"
    "applied V C n m (add_active (newly_in (ss_current_iteration (n_system n)) (ledger V n) (tr_from r)
       + newly_in (ss_current_iteration (n_system n)) (ledger V n) (tr_to r)) (n_system n))
       (transfer_tx_of txid key r) n'"
    using transfer_locked_Inr [OF laws booksD(1) [OF b]] by blast
  show ?thesis
    using applied_keeps [OF m(2) spec_transfer_books(1) [OF b m(1)] l] j calm JTransfer by auto
next
  case (JBurn r txid key)
  obtain resp where "burn_locked E C (clock 0) r txid key n = (Inr resp, n')"
    using ok JBurn by (auto simp: discard_Inr)
  then obtain m where m: "spec_burn (ss_current_iteration (n_system n)) r (ledger V n) = Inr m"
    "applied V C n m (add_active (newly_in (ss_current_iteration (n_system n)) (ledger V n) (br_from r))
       ((n_system n)\<lparr>ss_total_supply := sat_sub (ss_total_supply (n_system n)) (br_amount r)\<rparr>))
       (burn_tx_of txid key r) n'"
    using burn_locked_Inr [OF laws booksD(1) [OF b]] by blast
  show ?thesis
    using applied_keeps [OF m(2) spec_burn_books(1) [OF b m(1)] l] calm JBurn by auto
next
  case (JIteration ps)
  obtain c where c: "iteration_locked E C F (clock 0) ps n = (Inr (Some c), n')"
    using ok JIteration by (auto simp: step_simps)
  have fresh: "distinct (ic_new_wallets c)" "set (ic_new_wallets c) \<inter> dom (ledger V n) = {}"
    using calm c JIteration by simp_all
  obtain r where "applied V C n (ledger_of (ir_wallets r)) (commit_system r (lock_system n)) (IterationCommit c) n'"
    by (rule iteration_locked_ledger [OF laws booksD(1) [OF b] c fresh])
  from applied_log [OF l this] have "\<exists>es. log_ok C V n' es" using calm JIteration by (auto simp: headroom_def)
  moreover have "books (ledger V n') (n_system n')"
    using calm JIteration by (intro iteration_books [OF laws b c fresh]) simp_all
  ultimately show ?thesis by simp
next
  case (JSeed d seed)
  obtain n1 n2 st k where run: "install_seed_entries E C clock d 0 (sf_initial_wallets seed) n = (Inr k, n1)"
    "store_system E n1 = (Inr (), n2)" "storage_flush E (n_storage n2) = (Inr (), st)" "n' = n2\<lparr>n_storage := st\<rparr>"
    using ok JSeed by (auto simp: discard_Inr install_seed_locked_def step_simps)
  have "st = n_storage n2" by (rule storage_flush_frame [OF run(3)])
  then have n': "n' = n2" using run(4) by simp
  have "books (ledger V n1) (n_system n1) \<and> same_frame n n1 \<and>
      (\<exists>es'. log_ok C V n1 (es @ es') \<and> card (dom (ledger V n1)) = card (dom (ledger V n)) + length es')"
    using calm JSeed by (intro install_seed_entries_keep [OF laws run(1) _ b l]) (auto simp: headroom_def)
  then show ?thesis
    using store_system_Inr(1) [OF run(2)] store_system_Inr(2-4) [where V = V, OF run(2)] by (auto simp: n' log_ok_def)
qed

lemma refused_seed_run:
  assumes "run_job E C F clock (JSeed d seed) n = (Inl e, n')" "\<not> is_internal e"
  shows "n' = n \<or> install_seed_entries E C clock d 0 (sf_initial_wallets seed) n = (Inl e, n')"
  using assms
  by (auto simp: discard_Inl install_seed_locked_def bindE_Inl_iff check_unlocked_Inl check_unlocked_Inr comp_simps
      dest: store_internal store_system_internal)

lemma refused_seed_keeps:
  assumes laws: "store_laws E V" and run: "run_job E C F clock (JSeed d seed) n = (Inl e, n')" "\<not> is_internal e"
    and calm: "calm E C F V clock (JSeed d seed) n n'" and b: "books (ledger V n) (n_system n)" and l: "log_ok C V n es"
  shows "books (ledger V n') (n_system n') \<and> 
    (\<exists>es'. log_ok C V n' (es @ es') \<and> card (dom (ledger V n')) = card (dom (ledger V n)) + length es')"
  using refused_seed_run [OF run]
proof
  assume "n' = n"
  then show ?thesis using b l by (auto intro: exI [of _ "[]"])
next
  assume entries: "install_seed_entries E C clock d 0 (sf_initial_wallets seed) n = (Inl e, n')"
  have "books (ledger V n') (n_system n') \<and> same_frame n n' \<and>
    (\<exists>es'. log_ok C V n' (es @ es') \<and> card (dom (ledger V n')) = card (dom (ledger V n)) + length es')"
    using calm run(2) by (intro install_seed_entries_keep [OF laws entries _ b l]) (auto simp: headroom_def)
  then show ?thesis by blast
qed

text \<open>A panic leaves the lock set, in memory and in the storage, and nothing else changed.\<close>

lemma run_job_panic:
  assumes "run_job E C F clock j n = (Inr False, n')"
  obtains st where "store_state E (lock_system n) (n_storage n) = (Inr (), st)"
    "n' = n\<lparr>n_system := lock_system n, n_storage := st\<rparr>"
proof (cases j)
  case (JIteration ps)
  then have "iteration_locked E C F (clock 0) ps n = (Inr None, n')" using assms by (auto simp: step_simps)
  then show thesis
    using that by (auto simp: iteration_locked_def store_system_def lock_system_def step_simps split: option.splits)
qed (use assms in \<open>auto simp: discard_Inr\<close>)

section \<open>Every step keeps the invariant\<close>

text \<open>Two nodes with the same ledger, log and system state are both good or both bad.\<close>

lemma node_inv_transfer:
  assumes "node_inv C V (n, js)" "n_system n' = n_system n" "ledger V n' = ledger V n"
    "poh_log V n' = poh_log V n" "tx_log V n' = tx_log V n" "list_all job_ok js'"
  shows "node_inv C V (n', js')"
  using assms by (simp add: node_inv_def log_ok_def)

lemma prepare_charge_frame:
  "prepare_charge now r sig n = (res, n') \<Longrightarrow> n_storage n' = n_storage n \<and> n_system n' = n_system n"
  by (cases res) (auto simp: prepare_charge_def guard_operator_replay_def step_simps Let_def
      split: prod.splits if_splits)

lemma admits_frame:
  "admits C n j n' \<Longrightarrow> n_storage n' = n_storage n \<and> n_system n' = n_system n \<and> job_ok j"
  by (induction rule: admits.induct) (auto dest: prepare_charge_frame prepare_transfer_distinct)

lemma limit_frames:
  "check_wallet_rate_limit now ip n = (r, n') \<Longrightarrow> n_storage n' = n_storage n \<and> n_system n' = n_system n"
  "check_transfer_rate_limit now wid n = (r', n') \<Longrightarrow> n_storage n' = n_storage n \<and> n_system n' = n_system n"
  by (auto simp: check_wallet_rate_limit_def check_transfer_rate_limit_def Let_def
      split: option.splits if_splits prod.splits)

lemma commit_iteration_Inl: "commit_iteration E C now ps r n = (Inl e, n') \<Longrightarrow> is_internal e"
  by (auto simp: commit_iteration_def bindE_Inl_iff comp_simps
      dest: store_internal store_system_internal append_tx_Inl split: if_splits)

lemma iteration_locked_Inl:
  assumes "iteration_locked E C F now ps n = (Inl e, n')" "\<not> is_internal e"
  shows "n' = n \<and> e = IterationInProgress"
  using assms
  by (auto simp: iteration_locked_def bindE_Inl_iff check_unlocked_Inr check_unlocked_Inl fetch_Inl fetch_Inr
      map_err_Inl_iff comp_simps
      dest: store_internal store_system_internal commit_iteration_Inl split: option.splits)

lemma reject_frame:
  assumes laws: "store_laws E V" and "run_job E C F clock j n = (Inl e, n')" "\<not> is_internal e"
    and "\<forall>d s. j \<noteq> JSeed d s"
  shows "n' = n"
proof (cases j)
  case (JIteration ps)
  then have "iteration_locked E C F (clock 0) ps n = (Inl e, n')"
    using assms(2) by (auto simp: bindE_Inl_iff comp_simps)
  then show ?thesis using iteration_locked_Inl [OF _ assms(3)] by blast
next
  case (JCreate ps key wid r op sig)
  then have "create_wallet_locked E C (clock 0) ps key wid r op sig n = (Inl e, n')" using assms(2) by (simp add: discard_Inl)
  from create_wallet_locked_Inl [OF laws this] show ?thesis using assms(3) by (simp add: refused_def)
next
  case (JCharge r op sig)
  then have "charge_locked E C (clock 0) r op sig n = (Inl e, n')" using assms(2) by (simp add: discard_Inl)
  from charge_locked_Inl [OF laws this] show ?thesis using assms(3) by (simp add: refused_def)
next
  case (JTransfer r txid key)
  then have "transfer_locked E C (clock 0) r txid key n = (Inl e, n')" using assms(2) by (simp add: discard_Inl)
  from transfer_locked_Inl [OF laws this] show ?thesis using assms(3) by (simp add: refused_def)
next
  case (JBurn r txid key)
  then have "burn_locked E C (clock 0) r txid key n = (Inl e, n')" using assms(2) by (simp add: discard_Inl)
  from burn_locked_Inl [OF laws this] show ?thesis using assms(3) by (simp add: refused_def)
qed (use assms in auto)

lemma job_ok_remove: "list_all job_ok js \<Longrightarrow> list_all job_ok (remove1 j js)"
  by (auto simp: list_all_iff dest: notin_set_remove1)

text \<open>The invariant reads of the system state only what survives the storage.\<close>

lemma state_core_fields:
  assumes "state_core s' = state_core s"
  shows "ss_current_tick s' = ss_current_tick s" "ss_current_iteration s' = ss_current_iteration s"
    "ss_total_supply s' = ss_total_supply s" "ss_n_wallets s' = ss_n_wallets s"
    "ss_n_active_wallets s' = ss_n_active_wallets s" "ss_last_poh_hash s' = ss_last_poh_hash s"
  using assms by (cases s; cases s'; simp add: state_core_def)+

lemma books_state_core:
  assumes "state_core s' = state_core s"
  shows "books m s' \<longleftrightarrow> books m s"
  unfolding books_def state_core_fields [OF assms] by (rule refl)

lemma plain_step_keeps_inv:
  assumes "store_laws E V" "plain_step E C F V c c'" "node_inv C V c"
  shows "node_inv C V c'"
  using assms(2,1,3)
proof (induction rule: plain_step.induct)
  case (admit n j n' js)
  then show ?case
    using admits_frame [OF admit.hyps] by (intro node_inv_transfer [OF admit.prems(2)]) (auto simp: node_inv_def)
next
  case (refuse_charge now r sig n e n' js)
  then show ?case
    using prepare_charge_frame [OF refuse_charge.hyps]
    by (intro node_inv_transfer [OF refuse_charge.prems(2)]) (auto simp: node_inv_def)
next
  case (limit_create now ip n r n' js)
  then show ?case
    using limit_frames(1) [OF limit_create.hyps]
    by (intro node_inv_transfer [OF limit_create.prems(2)]) (auto simp: node_inv_def)
next
  case (limit_transfer now wid n r n' js)
  then show ?case
    using limit_frames(2) [OF limit_transfer.hyps]
    by (intro node_inv_transfer [OF limit_transfer.prems(2)]) (auto simp: node_inv_def)
next
  case (parameters ps n n' js)
  then obtain st where st: "store_parameters E ps (n_storage n) = (Inr (), st)"
    "n' = n\<lparr>n_storage := st, n_parameters := ps\<rparr>" by (auto simp: update_parameters_def step_simps)
  show ?case
    using store_parameters_frame [where V = V, OF st(1)] parameters.prems(2)
    by (intro node_inv_transfer [OF parameters.prems(2)]) (auto simp: st(2) node_inv_def)
next
  case (simulation b mode n r n' js)
  then have "n_storage n' = n_storage n \<and> n_system n' = n_system n"
    by (cases r) (auto simp: set_simulation_running_def step_simps)
  then show ?case by (intro node_inv_transfer [OF simulation.prems(2)]) (use simulation.prems in \<open>auto simp: node_inv_def\<close>)
next
  case (run j js clock n n')
  have j: "job_ok j" using run.hyps(1) run.prems(2) by (auto simp: node_inv_def list_all_iff)
  obtain es where l: "log_ok C V n es" and b: "books (ledger V n) (n_system n)"
    using run.prems(2) by (auto simp: node_inv_def)
  show ?case
    using run_job_keeps [OF run.prems(1) run.hyps(2) j run.hyps(3) b l] run.prems(2) job_ok_remove
    by (auto simp: node_inv_def)
next
  case (reject j js clock n e n')
  then have "n' = n" using reject_frame by blast
  then show ?case using reject.prems(2) job_ok_remove by (auto simp: node_inv_def)
next
  case (panic j js clock n n')
  obtain st where st: "store_state E (lock_system n) (n_storage n) = (Inr (), st)"
    "n' = n\<lparr>n_system := lock_system n, n_storage := st\<rparr>" by (rule run_job_panic [OF panic.hyps(2)])
  note s = store_state_Inr [where V = V, OF st(1)]
  show ?case
    using panic.prems(2) job_ok_remove s
    by (auto simp: node_inv_def st(2) log_ok_def books_def lock_system_def)
next
  case (restart env config n n' st' js)
  note r = boot_resumes [OF restart.prems(1) restart.hyps(2,3,1)]
  obtain es where l: "log_ok C V n es" and b: "books (ledger V n) (n_system n)"
    using restart.prems(2) by (auto simp: node_inv_def)
  have "log_ok C V n' es" using l by (simp add: log_ok_def r(2,3) state_core_fields [OF r(4)])
  moreover have "books (ledger V n') (n_system n')" using b by (simp add: r(1) books_state_core [OF r(4)])
  ultimately show ?case by (auto simp: node_inv_def)
qed

lemma step_keeps_inv:
  assumes "store_laws E V" "node_step E C F V c c'" "node_inv C V c"
  shows "node_inv C V c'"
  using assms(2,1,3)
proof (induction rule: node_step.induct)
  case (plain c c')
  then show ?case using plain_step_keeps_inv by blast
next
  case (refuse_seed d seed js clock n e n')
  obtain es where l: "log_ok C V n es" and b: "books (ledger V n) (n_system n)"
    using refuse_seed.prems(2) by (auto simp: node_inv_def)
  show ?case
    using refused_seed_keeps [OF refuse_seed.prems(1) refuse_seed.hyps(2-4) b l] refuse_seed.prems(2) job_ok_remove
    by (auto simp: node_inv_def)
qed

lemma reachable_inv:
  assumes "store_laws E V" "(node_step E C F V)\<^sup>*\<^sup>* c c'" "node_inv C V c"
  shows "node_inv C V c'"
  using assms(2,3) by induction (auto intro: step_keeps_inv [OF assms(1)])

section \<open>Start\<close>

definition empty_storage :: "('t, 'b) store_view \<Rightarrow> 't coin_storage \<Rightarrow> bool" where
  "empty_storage V st \<longleftrightarrow>
     vw_tree V (cs_wallets st) = [] \<and> vw_tree V (cs_poh_log st) = [] \<and>
     vw_tree V (cs_transactions st) = [] \<and> vw_tree V (cs_system st) = []"

text \<open>A node that was started on an empty database.\<close>

definition fresh_node ::
  "('t, 'b) store_lib \<Rightarrow> crypto_lib \<Rightarrow> ('t, 'b) store_view \<Rightarrow> 't node \<Rightarrow> bool"
where
  "fresh_node E C V n \<longleftrightarrow>
     (\<exists>env config st st'. empty_storage V st \<and> boot E C env config st = (Inr n, st'))"

lemma zero_hash_default: "concat (replicate 32 ''00'') = ZERO_HASH_HEX"
  by (simp add: ZERO_HASH_HEX_def numeral_eq_Suc)

lemma fresh_node_inv:
  assumes laws: "store_laws E V" and fresh: "fresh_node E C V n"
  shows "node_inv C V (n, [])"
proof -
  obtain env config st st' where empty: "empty_storage V st" and boot: "boot E C env config st = (Inr n, st')"
    using fresh by (auto simp: fresh_node_def)
  obtain ps st1 sys0 sys st2 st3 st4 where ps: "store_parameters E ps st = (Inr (), st1)"
    and load: "load_state E st1 = Inr sys0"
    and sys: "sys = (let s = (case sys0 of None \<Rightarrow> default_system_state | Some s \<Rightarrow> s)
       in if ss_last_poh_hash s = [] then s\<lparr>ss_last_poh_hash := ZERO_HASH_HEX\<rparr> else s)"
    and st: "store_state E sys st1 = (Inr (), st2)"
      "put_operator E (genesis_operator (n_operator_id n) (n_operator_public_key n)) st2 = (Inr (), st3)"
      "put_validator E (genesis_validator (n_validator_id n) (n_operator_public_key n)
       (nc_validator_endpoint config) (ss_current_tick sys)) st3 = (Inr (), st4)"
    and n: "n_storage n = st4" "n_system n = sys"
    by (rule boot_run [OF boot])
  obtain t b where t: "st1 = st\<lparr>cs_system := t\<rparr>"
    and tree: "tree_map V t = (tree_map V (cs_system st))(''parameters'' \<mapsto> b)"
    by (rule store_parameters_tree [OF laws ps])
  have "tree_map V (cs_system st) = Map.empty" using empty by (simp add: empty_storage_def)
  then have "map_option state_core sys0 = None"
    using load_state_view [OF laws load] by (simp add: stored_state_def t tree)
  then have "sys0 = None" by simp
  then have sys': "sys = default_system_state"
    by (simp add: sys default_system_state_def zero_hash_default ZERO_HASH_HEX_def)
  obtain a b c where st4: "st4 = st\<lparr>cs_system := a, cs_operators := b, cs_validators := c\<rparr>"
    using st(1) put_operator_tree [OF st(2)] put_validator_tree [OF st(3)] t
    by (auto simp: store_state_def split: sum.splits)
  have maps: "ledger V n = Map.empty" "poh_log V n = Map.empty"
    using empty by (simp_all add: n(1) st4 fun_eq_iff wallet_contents_def poh_contents_def empty_storage_def)
  have "books (ledger V n) (n_system n)"
    by (simp add: maps(1) n(2) sys' books_def ids_ok_def supply_of_def active_in_def default_system_state_def)
  moreover have "log_ok C V n []"
    by (simp add: maps(2) n(2) sys' log_ok_def default_system_state_def zero_hash_default log_of_def fun_eq_iff)
      (metis gr_zeroI)
  ultimately show ?thesis by (auto simp: node_inv_def)
qed

text \<open>
  C1. In every state a node reaches from an empty database, under any interleaving of requests, jobs,
  refused jobs (a seed file refused half-way included), panics and restarts, the total supply is the sum of
  all balances and the wallet and activity counters are the ones of the stored wallets.  The runs
  meant are those of \<open>node_step\<close>: no internal error (storage, serialisation), no counter reaches
  the end of its range (\<open>calm\<close>), no iteration creates a faucet wallet under an id that is taken
  (\<open>calm\<close>; otherwise the counters go wrong, see \<open>iteration_counts_iff_new_ids\<close>), and the node is
  restarted only when its state is stored (\<open>persisted\<close>; after a refused seed file it need not be, see
  \<open>refused_seed_breaks_restart\<close>).
\<close>

theorem reachable_books:
  assumes "store_laws E V" "fresh_node E C V n0" "(node_step E C F V)\<^sup>*\<^sup>* (n0, []) (n, js)"
  shows "unat (ss_total_supply (n_system n)) = (\<Sum>k\<in>dom (ledger V n). unat (w_balance (the (ledger V n k))))
    \<and> unat (ss_n_wallets (n_system n)) = card (dom (ledger V n))
    \<and> unat (ss_n_active_wallets (n_system n))
      = card {k. \<exists>w. ledger V n k = Some w \<and> w_last_active_iteration w = ss_current_iteration (n_system n)}"
proof -
  have "books (ledger V n) (n_system n)"
    using reachable_inv [OF assms(1,3) fresh_node_inv [OF assms(1,2)]] by (simp add: node_inv_def)
  from booksD(3-5) [OF this] show ?thesis by (simp add: supply_of_def active_in_def)
qed

text \<open>
  C5. In every reachable state the stored log is one hash chain: entries for the ticks 1 to the current
  one, each verified against its predecessor starting from the zero hash, the last digest being the
  one in the system state, and each naming one transaction that is stored.
\<close>

theorem reachable_log_verifies:
  assumes "store_laws E V" "fresh_node E C V n0" "(node_step E C F V)\<^sup>*\<^sup>* (n0, []) (n, js)"
  shows "\<exists>es. chain_from C ZERO_HASH_HEX es
    \<and> ss_last_poh_hash (n_system n) = chain_end ZERO_HASH_HEX es
    \<and> length es = unat (ss_current_tick (n_system n))
    \<and> (\<forall>i<length es. poh_log V n (of_nat (i + 1)) = Some (es ! i))
    \<and> (\<forall>e\<in>set es. \<exists>txid. pe_tx_ids e = [txid] \<and> tx_log V n txid \<noteq> None)"
proof -
  obtain es where l: "log_ok C V n es"
    using reachable_inv [OF assms(1,3) fresh_node_inv [OF assms(1,2)]] by (auto simp: node_inv_def)
  have "length es < 2 ^ 64" using l u64_fits [of "ss_current_tick (n_system n)"] by (simp add: log_ok_def)
  then have "unat (of_nat (Suc i) :: u64) = Suc i" if "i < length es" for i
    using that by (simp add: unsigned_of_nat take_bit_nat_eq_self del: of_nat_Suc)
  then have "poh_log V n (of_nat (i + 1)) = Some (es ! i)" if "i < length es" for i
    using l that by (simp add: log_ok_def log_of_def del: of_nat_Suc)
  then show ?thesis using l unfolding log_ok_def by auto
qed

end
