(* ===== verification/Guards.thy ===== *)
theory Guards
  imports Chain
begin

text \<open>
  The guards at work: sequences of requests as the node sees them between two changes of its
  parameters and two restarts.  Checks of several wallets and addresses, charges and locked jobs come
  in any order.  A limiter keeps one window per wallet or address and nothing else touches it; the
  replay guard keeps a recorded signature through all of this until its timestamp has drifted.
\<close>

section \<open>Jobs do not touch the guards\<close>

text \<open>A handler that changes the storage and the system state only, whatever its outcome.\<close>

definition framed :: "('t, 'a) handler \<Rightarrow> bool" where
  "framed m \<longleftrightarrow> (\<forall>n. same_frame n (snd (m n)))"

named_theorems framed_intros

lemma framedD: "framed m \<Longrightarrow> same_frame n (snd (m n))"
  by (simp add: framed_def)

text \<open>A handler that looks at the node first.\<close>

lemma framed_at: "(\<And>n. framed (f n)) \<Longrightarrow> framed (\<lambda>n. f n n)"
  by (simp add: framed_def)

lemma framed_bindE [framed_intros]:
  assumes "framed m" "\<And>a. framed (f a)"
  shows "framed (bindE m f)"
  unfolding framed_def
proof
  fix n
  obtain r n1 where m: "m n = (r, n1)" by fastforce
  have first: "same_frame n n1" using framedD [OF assms(1), of n] m by simp
  show "same_frame n (snd (bindE m f n))"
  proof (cases r)
    case (Inl e)
    then show ?thesis using first m by simp
  next
    case (Inr a)
    then show ?thesis using same_frame_trans [OF first framedD [OF assms(2)]] m by simp
  qed
qed

lemma framed_store [framed_intros]: "framed (store m)"
  by (simp add: framed_def store_def split: prod.splits)

lemma framed_pure [framed_intros]:
  "framed (returnE a)" "framed (liftE r)" "framed (getE g)" "framed (fetch h)" "framed (requireE b e)"
  "framed check_unlocked" "framed (\<lambda>n. (k n, n))"
  by (simp_all add: framed_def returnE_def liftE_def getE_def fetch_def requireE_def check_unlocked_def)

lemma framed_set_system [framed_intros]: "framed (set_system f)"
  by (simp add: framed_def set_system_def modifyE_def)

lemma framed_store_system [framed_intros]: "framed (store_system E)"
  unfolding framed_def store_system_def by (intro allI framedD framed_store)

lemma framed_branch [framed_intros]:
  "framed m \<Longrightarrow> framed k \<Longrightarrow> framed (if b then m else k)"
  "framed m \<Longrightarrow> (\<And>x. framed (f x)) \<Longrightarrow> framed (case v of None \<Rightarrow> m | Some x \<Rightarrow> f x)"
  by (auto split: option.splits)

lemma framed_need_wallet [framed_intros]: "framed (need_wallet E wid)"
  unfolding need_wallet_def by (intro framed_intros)

lemma framed_append [framed_intros]: "framed (append_tx_locked E C now tx)"
  unfolding append_tx_locked_def by (intro framed_intros framed_at [of "\<lambda>n. store (put_transaction E tx (ss_current_tick (n_system n)))"])

lemma framed_commit [framed_intros]: "framed (commit_iteration E C now ps r)"
  unfolding commit_iteration_def by (intro framed_intros framed_at [of "\<lambda>n. bindE (store (write_snapshot E (ic_iteration_id (ir_commit r))
    (iteration_snapshot now ps r (n_system n)))) (\<lambda>_. returnE ())"])

lemma framed_seed_entries [framed_intros]: "framed (install_seed_entries E C clock d k entries)"
proof (induction entries arbitrary: k)
  case Nil
  then show ?case by (simp add: framed_def)
next
  case (Cons entry entries)
  have "framed (install_seed_entry E C t1 t2 t3 d entry)" for t1 t2 t3
    unfolding install_seed_entry_def Let_def by (intro framed_intros)
  then have "framed (bindE (install_seed_entry E C (clock (3 * k)) (clock (3 * k + 1)) (clock (3 * k + 2)) d entry)
      (\<lambda>new. bindE (install_seed_entries E C clock d (Suc k) entries)
        (\<lambda>installed. returnE (if new then Suc installed else installed))))"
    using Cons.IH by (intro framed_intros)
  then show ?case by (simp add: framed_def)
qed

lemma framed_locked [framed_intros]:
  "framed (create_wallet_locked E C now ps key wid r op sig)" "framed (charge_locked E C now cr op sig)"
  "framed (transfer_locked E C now tr txid key)" "framed (burn_locked E C now br txid key)"
  "framed (iteration_locked E C F now ps)" "framed (install_seed_locked E C clock d seed)"
  unfolding create_wallet_locked_def charge_locked_def transfer_locked_def burn_locked_def iteration_locked_def
    install_seed_locked_def Let_def
  by (intro framed_intros)+

lemma framed_run_job: "framed (run_job E C F clock j)"
  by (cases j) (simp_all add: discard_def framed_intros)

text \<open>What the guards read.\<close>

definition guard_state ::
  "'t node \<Rightarrow> system_parameters \<times> (ip_addr \<rightharpoonup> i64 list) \<times> (wallet_id \<rightharpoonup> i64 list) \<times> (bytes \<rightharpoonup> i64)"
where
  "guard_state n = (n_parameters n, n_rate_wallet_create n, n_rate_wallet_tx n, n_seen_operator_sigs n)"

lemma run_job_guards: "guard_state (snd (run_job E C F clock j n)) = guard_state n"
proof -
  have "same_frame n (snd (run_job E C F clock j n))" by (rule framedD [OF framed_run_job])
  then obtain st sys where "snd (run_job E C F clock j n) = n\<lparr>n_storage := st, n_system := sys\<rparr>"
    unfolding same_frame_def by blast
  then show ?thesis by (simp add: guard_state_def)
qed

section \<open>Sequences of guarded requests\<close>

text \<open>
  What the node is asked: to let a transfer of a wallet pass, to let a wallet creation from an
  address pass, to record the signature of a charge, or to run a locked job.
\<close>

datatype guard_event =
    AskTransfer i64 wallet_id
  | AskCreate i64 ip_addr
  | AskCharge i64 charge_request signature
  | Locked "nat \<Rightarrow> i64" job

definition is_ok :: "'e + 'a \<Rightarrow> bool" where
  "is_ok r \<longleftrightarrow> (case r of Inl _ \<Rightarrow> False | Inr _ \<Rightarrow> True)"

fun guard_step ::
  "('t, 'b) store_lib \<Rightarrow> crypto_lib \<Rightarrow> float_lib \<Rightarrow> guard_event \<Rightarrow> 't node \<Rightarrow> bool \<times> 't node"
where
  "guard_step E C F (AskTransfer now wid) n = map_prod is_ok id (check_transfer_rate_limit now wid n)"
| "guard_step E C F (AskCreate now addr) n = map_prod is_ok id (check_wallet_rate_limit now (Some addr) n)"
| "guard_step E C F (AskCharge now r sig) n = map_prod is_ok id (prepare_charge now r sig n)"
| "guard_step E C F (Locked clock j) n = map_prod is_ok id (run_job E C F clock j n)"

text \<open>The events with their outcomes, and the node afterwards.\<close>

fun outcomes :: "('e \<Rightarrow> 'n \<Rightarrow> bool \<times> 'n) \<Rightarrow> 'e list \<Rightarrow> 'n \<Rightarrow> ('e \<times> bool) list" where
  "outcomes step [] n = []"
| "outcomes step (e # es) n = (e, fst (step e n)) # outcomes step es (snd (step e n))"

fun after :: "('e \<Rightarrow> 'n \<Rightarrow> bool \<times> 'n) \<Rightarrow> 'e list \<Rightarrow> 'n \<Rightarrow> 'n" where
  "after step [] n = n"
| "after step (e # es) n = after step es (snd (step e n))"

text \<open>The times at which a key asks, and those at which it is let through.\<close>

definition asked :: "('e \<Rightarrow> i64 option) \<Rightarrow> 'e list \<Rightarrow> i64 list" where
  "asked time es = List.map_filter time es"

definition passed :: "('e \<Rightarrow> i64 option) \<Rightarrow> ('e \<times> bool) list \<Rightarrow> i64 list" where
  "passed time os = List.map_filter (\<lambda>(e, ok). if ok then time e else None) os"

fun transfer_time :: "wallet_id \<Rightarrow> guard_event \<Rightarrow> i64 option" where
  "transfer_time wid (AskTransfer now w) = (if w = wid then Some now else None)"
| "transfer_time wid _ = None"

fun create_time :: "ip_addr \<Rightarrow> guard_event \<Rightarrow> i64 option" where
  "create_time addr (AskCreate now a) = (if a = addr then Some now else None)"
| "create_time addr _ = None"

lemma asked_length: "length (asked time es) \<le> length es"
  by (induction es) (simp_all add: asked_def List.map_filter_simps split: option.splits)

lemma passed_all:
  assumes "\<And>n e. good n \<Longrightarrow> good (snd (step e n))" "\<And>n e t. good n \<Longrightarrow> time e = Some t \<Longrightarrow> fst (step e n)"
  shows "good n \<Longrightarrow> passed time (outcomes step es n) = asked time es"
proof (induction es arbitrary: n)
  case Nil
  then show ?case by (simp add: passed_def asked_def List.map_filter_simps)
next
  case (Cons e es)
  show ?case
    using Cons.IH [OF assms(1) [OF Cons.prems], of e] assms(2) [OF Cons.prems]
    by (cases "time e") (simp_all add: passed_def asked_def List.map_filter_simps)
qed

text \<open>
  A limiter with one sliding window per key: a step that asks for the key is the check on the window
  of that key, every other step leaves it alone.
\<close>

locale keyed_window = sliding_window check limit window
  for check :: "i64 \<Rightarrow> i64 list \<Rightarrow> bool \<times> i64 list" and limit :: nat and window :: int +
  fixes step :: "'e \<Rightarrow> 'n \<Rightarrow> bool \<times> 'n" and time :: "'k \<Rightarrow> 'e \<Rightarrow> i64 option"
    and queue :: "'n \<Rightarrow> 'k \<Rightarrow> i64 list" and good :: "'n \<Rightarrow> bool"
  assumes step_good: "good n \<Longrightarrow> good (snd (step e n))"
    and step_asked: "good n \<Longrightarrow> time k e = Some t \<Longrightarrow>
      fst (step e n) = fst (check t (queue n k)) \<and> queue (snd (step e n)) k = snd (check t (queue n k))"
    and step_other: "good n \<Longrightarrow> time k e = None \<Longrightarrow> queue (snd (step e n)) k = queue n k"
begin

lemma passed_admitted:
  "good n \<Longrightarrow> passed (time k) (outcomes step es n) = admitted check (queue n k) (asked (time k) es)"
proof (induction es arbitrary: n)
  case Nil
  then show ?case by (simp add: passed_def asked_def List.map_filter_simps)
next
  case (Cons e es)
  note IH = Cons.IH [OF step_good [OF Cons.prems], of e]
  show ?case
  proof (cases "time k e")
    case None
    then show ?thesis
      using IH step_other [OF Cons.prems None] by (simp add: passed_def asked_def List.map_filter_simps)
  next
    case (Some t)
    then show ?thesis
      using IH step_asked [OF Cons.prems Some] by (simp add: passed_def asked_def List.map_filter_simps)
  qed
qed

lemma keyed_bound:
  assumes "good n" "queue n k = []" "sorted (map sint (asked (time k) es))" "list_all sane_time (asked (time k) es)"
    and "length es < 2 ^ 63"
  shows "length (filter (in_window window u) (passed (time k) (outcomes step es n))) \<le> limit"
proof -
  have "length (asked (time k) es) < 2 ^ 63" using asked_length assms(5) le_less_trans by blast
  then show ?thesis
    using at_most_limit [OF assms(3,4), of u] passed_admitted [OF assms(1), of k es] assms(2) by simp
qed

lemma queue_after_events:
  "good n \<Longrightarrow> queue (after step es n) k = queue_after check (queue n k) (asked (time k) es)"
proof (induction es arbitrary: n)
  case Nil
  then show ?case by (simp add: asked_def List.map_filter_simps)
next
  case (Cons e es)
  note IH = Cons.IH [OF step_good [OF Cons.prems], of e]
  show ?case
  proof (cases "time k e")
    case None
    then show ?thesis using IH step_other [OF Cons.prems None] by (simp add: asked_def List.map_filter_simps)
  next
    case (Some t)
    then show ?thesis using IH step_asked [OF Cons.prems Some] by (simp add: asked_def List.map_filter_simps)
  qed
qed

lemma good_after: "good n \<Longrightarrow> good (after step es n)"
  by (induction es arbitrary: n) (simp_all add: step_good)

text \<open>A request passes exactly when fewer than the limit passed in the window that ends with it.\<close>

lemma keyed_exact:
  assumes "good n" "queue n k = []" "sorted (map sint (asked (time k) es @ [t]))"
    and "list_all sane_time (asked (time k) es @ [t])" "length es < 2 ^ 63" "time k e = Some t"
  shows "fst (step e (after step es n)) \<longleftrightarrow>
    length (filter (in_window window (sint t)) (passed (time k) (outcomes step es n))) < limit"
proof -
  have "length (asked (time k) es) < 2 ^ 63" using asked_length assms(5) le_less_trans by blast
  from next_admitted [OF assms(3,4) this] show ?thesis
    using step_asked [OF good_after [OF assms(1)] assms(6)] queue_after_events [OF assms(1), of es k]
      passed_admitted [OF assms(1), of k es] assms(2) by simp
qed

end

section \<open>The two limiters\<close>

definition transfer_queue :: "'t node \<Rightarrow> wallet_id \<Rightarrow> i64 list" where
  "transfer_queue n wid = (case n_rate_wallet_tx n wid of None \<Rightarrow> [] | Some q \<Rightarrow> q)"

definition create_queue :: "'t node \<Rightarrow> ip_addr \<Rightarrow> i64 list" where
  "create_queue n addr = (case n_rate_wallet_create n addr of None \<Rightarrow> [] | Some q \<Rightarrow> q)"

abbreviation transfer_limit :: "'t node \<Rightarrow> u64" where
  "transfer_limit n \<equiv> sp_rate_limit_tx_per_wallet_per_minute (p_security (n_parameters n))"

abbreviation create_limit :: "'t node \<Rightarrow> u64" where
  "create_limit n \<equiv> sp_rate_limit_wallet_per_ip_per_day (p_security (n_parameters n))"

text \<open>Each event touches one of the three guards at most.\<close>

lemma check_transfer_step:
  "n_parameters (snd (check_transfer_rate_limit now wid n)) = n_parameters n"
  "n_rate_wallet_create (snd (check_transfer_rate_limit now wid n)) = n_rate_wallet_create n"
  "n_seen_operator_sigs (snd (check_transfer_rate_limit now wid n)) = n_seen_operator_sigs n"
  by (simp_all add: check_transfer_rate_limit_def Let_def split: prod.splits)

lemma check_create_step:
  "n_parameters (snd (check_wallet_rate_limit now ip n)) = n_parameters n"
  "n_rate_wallet_tx (snd (check_wallet_rate_limit now ip n)) = n_rate_wallet_tx n"
  "n_seen_operator_sigs (snd (check_wallet_rate_limit now ip n)) = n_seen_operator_sigs n"
  by (simp_all add: check_wallet_rate_limit_def Let_def split: prod.splits option.splits)

lemma prepare_charge_step:
  "n_parameters (snd (prepare_charge now r sig n)) = n_parameters n"
  "n_rate_wallet_create (snd (prepare_charge now r sig n)) = n_rate_wallet_create n"
  "n_rate_wallet_tx (snd (prepare_charge now r sig n)) = n_rate_wallet_tx n"
  by (simp_all add: prepare_charge_def bindE_def requireE_def guard_operator_replay_def Let_def split: prod.splits)

lemma run_job_step:
  "n_parameters (snd (run_job E C F clock j n)) = n_parameters n"
  "n_rate_wallet_create (snd (run_job E C F clock j n)) = n_rate_wallet_create n"
  "n_rate_wallet_tx (snd (run_job E C F clock j n)) = n_rate_wallet_tx n"
  "n_seen_operator_sigs (snd (run_job E C F clock j n)) = n_seen_operator_sigs n"
  using run_job_guards [of E C F clock j n] by (simp_all add: guard_state_def)

lemmas guard_frames = check_transfer_step check_create_step prepare_charge_step run_job_step

lemma step_parameters: "n_parameters (snd (guard_step E C F e n)) = n_parameters n"
  by (cases e) (simp_all add: guard_frames)

lemma check_transfer_eq:
  "transfer_limit n \<noteq> 0 \<Longrightarrow> check_transfer_rate_limit now wid n =
     (if fst (window_check (transfer_limit n) tx_window_ms now (transfer_queue n wid)) then Inr () else Inl RateLimitExceeded,
      n\<lparr>n_rate_wallet_tx := (n_rate_wallet_tx n)
         (wid \<mapsto> snd (window_check (transfer_limit n) tx_window_ms now (transfer_queue n wid)))\<rparr>)"
  by (simp add: check_transfer_rate_limit_def transfer_queue_def Let_def split: prod.splits)

lemma check_create_eq:
  "create_limit n \<noteq> 0 \<Longrightarrow> check_wallet_rate_limit now (Some addr) n =
     (if fst (window_check (create_limit n) wallet_window_ms now (create_queue n addr)) then Inr () else Inl RateLimitExceeded,
      n\<lparr>n_rate_wallet_create := (n_rate_wallet_create n)
         (addr \<mapsto> snd (window_check (create_limit n) wallet_window_ms now (create_queue n addr)))\<rparr>)"
  by (simp add: check_wallet_rate_limit_def create_queue_def Let_def split: prod.splits)

interpretation transfers: keyed_window "window_check l tx_window_ms" "unat l" 60000 "guard_step E C F"
  transfer_time transfer_queue "\<lambda>n. transfer_limit n = l \<and> l \<noteq> 0"
  for l and E :: "('t, 'b) store_lib" and C F
proof
  fix n :: "'t node" and e assume "transfer_limit n = l \<and> l \<noteq> 0"
  then show "transfer_limit (snd (guard_step E C F e n)) = l \<and> l \<noteq> 0" by (simp add: step_parameters)
next
  fix n :: "'t node" and e wid t assume "transfer_limit n = l \<and> l \<noteq> 0" "transfer_time wid e = Some t"
  then show "fst (guard_step E C F e n) = fst (window_check l tx_window_ms t (transfer_queue n wid)) \<and>
      transfer_queue (snd (guard_step E C F e n)) wid = snd (window_check l tx_window_ms t (transfer_queue n wid))"
    by (cases e) (auto simp: check_transfer_eq is_ok_def transfer_queue_def split: if_splits)
next
  fix n :: "'t node" and e wid assume "transfer_limit n = l \<and> l \<noteq> 0" "transfer_time wid e = None"
  then show "transfer_queue (snd (guard_step E C F e n)) wid = transfer_queue n wid"
    by (cases e) (auto simp: check_transfer_eq transfer_queue_def guard_frames split: if_splits)
qed

interpretation creations: keyed_window "window_check l wallet_window_ms" "unat l" 86400000 "guard_step E C F"
  create_time create_queue "\<lambda>n. create_limit n = l \<and> l \<noteq> 0"
  for l and E :: "('t, 'b) store_lib" and C F
proof
  fix n :: "'t node" and e assume "create_limit n = l \<and> l \<noteq> 0"
  then show "create_limit (snd (guard_step E C F e n)) = l \<and> l \<noteq> 0" by (simp add: step_parameters)
next
  fix n :: "'t node" and e addr t assume "create_limit n = l \<and> l \<noteq> 0" "create_time addr e = Some t"
  then show "fst (guard_step E C F e n) = fst (window_check l wallet_window_ms t (create_queue n addr)) \<and>
      create_queue (snd (guard_step E C F e n)) addr = snd (window_check l wallet_window_ms t (create_queue n addr))"
    by (cases e) (auto simp: check_create_eq is_ok_def create_queue_def split: if_splits)
next
  fix n :: "'t node" and e addr assume "create_limit n = l \<and> l \<noteq> 0" "create_time addr e = None"
  then show "create_queue (snd (guard_step E C F e n)) addr = create_queue n addr"
    by (cases e) (auto simp: check_create_eq create_queue_def guard_frames split: if_splits)
qed

text \<open>
  C24. Transfers: take a node whose window of a wallet is empty, with the parameters fixed, and any
  sequence of limiter checks of this and other wallets, of wallet creations, charges and jobs.  With a
  limit of 0 every check of the wallet passes.  Otherwise, as long as the clock does not run backwards
  between the checks of this wallet, no minute holds more passed checks of the wallet than the limit,
  and the next check passes exactly when fewer than the limit passed in the minute that ends with it.
\<close>

theorem transfers_per_minute:
  fixes E :: "('t, 'b) store_lib" and n :: "'t node"
  assumes start: "n_rate_wallet_tx n wid = None"
    and clock: "sorted (map sint (asked (transfer_time wid) es))" "list_all sane_time (asked (transfer_time wid) es)"
      "length es < 2 ^ 63"
  shows "if sp_rate_limit_tx_per_wallet_per_minute (p_security (n_parameters n)) = 0
    then passed (transfer_time wid) (outcomes (guard_step E C F) es n) = asked (transfer_time wid) es
    else (\<forall>u. length (filter (in_window 60000 u) (passed (transfer_time wid) (outcomes (guard_step E C F) es n)))
        \<le> unat (sp_rate_limit_tx_per_wallet_per_minute (p_security (n_parameters n))))
      \<and> (\<forall>now. sane_time now \<and> (\<forall>t\<in>set (asked (transfer_time wid) es). sint t \<le> sint now) \<longrightarrow>
          is_ok (fst (check_transfer_rate_limit now wid (after (guard_step E C F) es n))) =
          (length (filter (in_window 60000 (sint now)) (passed (transfer_time wid) (outcomes (guard_step E C F) es n)))
           < unat (sp_rate_limit_tx_per_wallet_per_minute (p_security (n_parameters n)))))"
proof (cases "transfer_limit n = 0")
  case True
  have "passed (transfer_time wid) (outcomes (guard_step E C F) es n) = asked (transfer_time wid) es"
  proof (rule passed_all [where good = "\<lambda>n. transfer_limit n = 0"])
    fix m :: "'t node" and e t assume "transfer_limit m = 0" "transfer_time wid e = Some t"
    then show "fst (guard_step E C F e m)" by (cases e) (auto simp: check_transfer_rate_limit_def is_ok_def)
  qed (simp_all add: True step_parameters)
  then show ?thesis using True by simp
next
  case False
  have q: "transfer_queue n wid = []" by (simp add: transfer_queue_def start)
  have good: "transfer_limit n = transfer_limit n \<and> transfer_limit n \<noteq> 0" using False by simp
  have "is_ok (fst (check_transfer_rate_limit now wid (after (guard_step E C F) es n))) =
      (length (filter (in_window 60000 (sint now)) (passed (transfer_time wid) (outcomes (guard_step E C F) es n)))
       < unat (transfer_limit n))"
    if "sane_time now" "\<forall>t\<in>set (asked (transfer_time wid) es). sint t \<le> sint now" for now
    using transfers.keyed_exact [OF good q _ _ clock(3), of now "AskTransfer now wid" E C F] clock(1,2) that
    by (simp add: sorted_append)
  then show ?thesis using transfers.keyed_bound [OF good q clock, of _ E C F] False by simp
qed

text \<open>
  C25. Wallet creation: the same for one address over 24 hours.  With a limit of 0 every creation passes;
  otherwise, as long as the clock does not run backwards between the requests of this address, no 24
  hours hold more passed creations than the limit, and the next passes exactly when fewer than the
  limit passed in the 24 hours that end with it, whatever other addresses do meanwhile.
\<close>

theorem wallet_creations_per_day:
  fixes E :: "('t, 'b) store_lib" and n :: "'t node"
  assumes start: "n_rate_wallet_create n addr = None"
    and clock: "sorted (map sint (asked (create_time addr) es))" "list_all sane_time (asked (create_time addr) es)"
      "length es < 2 ^ 63"
  shows "if sp_rate_limit_wallet_per_ip_per_day (p_security (n_parameters n)) = 0
    then passed (create_time addr) (outcomes (guard_step E C F) es n) = asked (create_time addr) es
    else (\<forall>u. length (filter (in_window 86400000 u) (passed (create_time addr) (outcomes (guard_step E C F) es n)))
        \<le> unat (sp_rate_limit_wallet_per_ip_per_day (p_security (n_parameters n))))
      \<and> (\<forall>now. sane_time now \<and> (\<forall>t\<in>set (asked (create_time addr) es). sint t \<le> sint now) \<longrightarrow>
          is_ok (fst (check_wallet_rate_limit now (Some addr) (after (guard_step E C F) es n))) =
          (length (filter (in_window 86400000 (sint now)) (passed (create_time addr) (outcomes (guard_step E C F) es n)))
           < unat (sp_rate_limit_wallet_per_ip_per_day (p_security (n_parameters n)))))"
proof (cases "create_limit n = 0")
  case True
  have "passed (create_time addr) (outcomes (guard_step E C F) es n) = asked (create_time addr) es"
  proof (rule passed_all [where good = "\<lambda>n. create_limit n = 0"])
    fix m :: "'t node" and e t assume "create_limit m = 0" "create_time addr e = Some t"
    then show "fst (guard_step E C F e m)" by (cases e) (auto simp: check_wallet_rate_limit_def is_ok_def)
  qed (simp_all add: True step_parameters)
  then show ?thesis using True by simp
next
  case False
  have q: "create_queue n addr = []" by (simp add: create_queue_def start)
  have good: "create_limit n = create_limit n \<and> create_limit n \<noteq> 0" using False by simp
  have "is_ok (fst (check_wallet_rate_limit now (Some addr) (after (guard_step E C F) es n))) =
      (length (filter (in_window 86400000 (sint now)) (passed (create_time addr) (outcomes (guard_step E C F) es n)))
       < unat (create_limit n))"
    if "sane_time now" "\<forall>t\<in>set (asked (create_time addr) es). sint t \<le> sint now" for now
    using creations.keyed_exact [OF good q _ _ clock(3), of now "AskCreate now addr" E C F] clock(1,2) that
    by (simp add: sorted_append)
  then show ?thesis using creations.keyed_bound [OF good q clock, of _ E C F] False by simp
qed

section \<open>The replay guard\<close>

text \<open>The drift the replay guard uses.\<close>

abbreviation guard_drift :: "'t node \<Rightarrow> i64" where
  "guard_drift n \<equiv> i64_max (sp_timestamp_drift_ms (p_security (n_parameters n))) 0"

lemma guard_operator_replay_eq:
  "guard_operator_replay now sig ts n =
     (if fst (replay_check (guard_drift n) now sig ts (n_seen_operator_sigs n)) then Inr () else Inl InvalidSignature,
      n\<lparr>n_seen_operator_sigs := snd (replay_check (guard_drift n) now sig ts (n_seen_operator_sigs n))\<rparr>)"
  by (simp add: guard_operator_replay_def Let_def split: prod.splits)

text \<open>The times at which the sequence prunes the recorded signatures.\<close>

fun charge_time :: "guard_event \<Rightarrow> i64 option" where
  "charge_time (AskCharge now r sig) = (if cr_amount r = 0 then None else Some now)"
| "charge_time _ = None"

lemma step_keeps_signature:
  assumes "n_seen_operator_sigs n sig = Some ts" "\<And>now. charge_time e = Some now \<Longrightarrow> \<not> drifted (guard_drift n) now ts"
  shows "n_seen_operator_sigs (snd (guard_step E C F e n)) sig = Some ts"
proof (cases e)
  case (AskCharge now r sg)
  show ?thesis
  proof (cases "cr_amount r = 0")
    case True
    then show ?thesis using assms(1) AskCharge by (simp add: prepare_charge_def bindE_def requireE_def)
  next
    case False
    then have "\<not> drifted (guard_drift n) now ts" using assms(2) AskCharge by simp
    from replay_keeps [where seen = "n_seen_operator_sigs n" and sig = sig, OF assms(1) this] show ?thesis
      using False AskCharge
      by (simp add: prepare_charge_def bindE_def requireE_def guard_operator_replay_eq)
  qed
qed (use assms(1) in \<open>simp_all add: guard_frames\<close>)

lemma after_parameters: "n_parameters (after (guard_step E C F) es n) = n_parameters n"
  by (induction es arbitrary: n) (simp_all add: step_parameters)

lemma signature_kept:
  assumes "n_seen_operator_sigs n sig = Some ts" "\<forall>now\<in>set (asked charge_time es). \<not> drifted (guard_drift n) now ts"
  shows "n_seen_operator_sigs (after (guard_step E C F) es n) sig = Some ts"
  using assms
proof (induction es arbitrary: n)
  case (Cons e es)
  have "n_seen_operator_sigs (snd (guard_step E C F e n)) sig = Some ts"
    using Cons.prems
    by (intro step_keeps_signature) (auto simp: asked_def List.map_filter_simps)
  moreover have "\<forall>now\<in>set (asked charge_time es). \<not> drifted (guard_drift (snd (guard_step E C F e n))) now ts"
    using Cons.prems(2) by (auto simp: asked_def List.map_filter_simps step_parameters split: option.splits)
  ultimately show ?case using Cons.IH by simp
qed simp

text \<open>
  C23. After a charge passed its replay guard, its operator signature is refused, whatever request comes
  with it, after any sequence of other charges, limiter checks and jobs, exactly until the timestamp in
  the body of the first charge has drifted out of the window: then the same signature passes again.
  The timestamp is the one in the body, not the authenticated header.
\<close>

theorem replay_refused_until_drift:
  fixes E :: "('t, 'b) store_lib" and n :: "'t node"
  assumes first: "prepare_charge now r sig n = (Inr (), n1)"
    and between: "\<forall>t\<in>set (asked charge_time es). \<not> drifted (guard_drift n) t (cr_timestamp r)"
    and amount: "cr_amount r' \<noteq> 0"
  shows "fst (prepare_charge now' r' sig (after (guard_step E C F) es n1)) =
      (if drifted (i64_max (sp_timestamp_drift_ms (p_security (n_parameters n))) 0) now' (cr_timestamp r)
       then Inr () else Inl InvalidSignature)
    \<and> (\<not> drifted (i64_max (sp_timestamp_drift_ms (p_security (n_parameters n))) 0) now' (cr_timestamp r) \<longrightarrow>
       fst (charge E C now' now'' r' op sig (after (guard_step E C F) es n1)) = Inl InvalidSignature)"
proof -
  let ?d = "guard_drift n" and ?m = "after (guard_step E C F) es n1"
  have ps: "n_parameters n1 = n_parameters n" using prepare_charge_step(1) [of now r sig n] first by simp
  have "guard_operator_replay now sig (cr_timestamp r) n = (Inr (), n1)"
    using first by (auto simp: prepare_charge_def step_simps)
  then have "n_seen_operator_sigs n1 sig = Some (cr_timestamp r)"
    using replay_records [of ?d now sig "cr_timestamp r" "n_seen_operator_sigs n" "n_seen_operator_sigs n1"]
    by (auto simp: guard_operator_replay_eq prod_eq_iff split: if_splits)
  then have "n_seen_operator_sigs ?m sig = Some (cr_timestamp r)" using signature_kept between ps by metis
  then have once: "fst (prepare_charge now' r' sig ?m) = (if drifted ?d now' (cr_timestamp r) then Inr () else Inl InvalidSignature)"
    using amount replay_refuses
    by (simp add: prepare_charge_def bindE_def requireE_def guard_operator_replay_eq after_parameters ps)
  moreover have "fst (charge E C now' now'' r' op sig ?m) = Inl e" if "fst (prepare_charge now' r' sig ?m) = Inl e" for e
    using that by (cases "prepare_charge now' r' sig ?m") (auto simp: charge_def)
  ultimately show ?thesis by simp
qed

end
