(* ===== verification/Reference.thy ===== *)
theory Reference
  imports Storage_Props Crypto_Props
begin

text \<open>
  Concrete libraries on which the properties are tried out: an in-memory database of sorted
  association lists with an exact codec, a cryptographic library with real hexadecimal conversion
  and a digest that pads or cuts its input, and a second one whose functions are constant.  They are
  inputs of the witnesses only; no property rests on them.
\<close>

section \<open>An in-memory database\<close>

datatype blob =
    BWallet wallet | BOperator operator | BValidator validator | BTransaction transaction
  | BPoh poh_entry | BCommit iteration_commit | BState system_state | BParameters system_parameters
  | BText bytes

type_synonym mem_tree = "(bytes \<times> blob) list"

fun tree_insert :: "mem_tree \<Rightarrow> bytes \<Rightarrow> blob \<Rightarrow> mem_tree" where
  "tree_insert [] k b = [(k, b)]"
| "tree_insert ((k', b') # t) k b =
     (if k < k' then (k, b) # (k', b') # t
      else if k = k' then (k, b) # t else (k', b') # tree_insert t k b)"

definition mem_prefix :: "bytes \<Rightarrow> bytes \<Rightarrow> bool" where
  "mem_prefix p k \<longleftrightarrow> take (length p) k = p"

text \<open>A stored tree is normalised on reading, so every value of the type is a sorted tree.\<close>

definition normal_tree :: "mem_tree \<Rightarrow> mem_tree" where
  "normal_tree t = (if sorted_keys t then t else [])"

fun un_wallet :: "blob \<Rightarrow> bytes + wallet" where
  "un_wallet (BWallet w) = Inr w" | "un_wallet _ = Inl ''type''"
fun un_operator :: "blob \<Rightarrow> bytes + operator" where
  "un_operator (BOperator w) = Inr w" | "un_operator _ = Inl ''type''"
fun un_validator :: "blob \<Rightarrow> bytes + validator" where
  "un_validator (BValidator w) = Inr w" | "un_validator _ = Inl ''type''"
fun un_transaction :: "blob \<Rightarrow> bytes + transaction" where
  "un_transaction (BTransaction w) = Inr w" | "un_transaction _ = Inl ''type''"
fun un_poh :: "blob \<Rightarrow> bytes + poh_entry" where
  "un_poh (BPoh w) = Inr w" | "un_poh _ = Inl ''type''"
fun un_commit :: "blob \<Rightarrow> bytes + iteration_commit" where
  "un_commit (BCommit w) = Inr w" | "un_commit _ = Inl ''type''"
fun un_state :: "blob \<Rightarrow> bytes + system_state" where
  "un_state (BState w) = Inr w" | "un_state _ = Inl ''type''"
fun un_parameters :: "blob \<Rightarrow> bytes + system_parameters" where
  "un_parameters (BParameters w) = Inr w" | "un_parameters _ = Inl ''type''"
fun un_text :: "blob \<Rightarrow> bytes + bytes" where
  "un_text (BText w) = Inr w" | "un_text _ = Inl ''type''"

definition ref_store :: "(mem_tree, blob) store_lib" where
  "ref_store =
     \<lparr>sl_open = (\<lambda>_ _. Inr []), sl_get = (\<lambda>t k. Inr (map_of (normal_tree t) k)),
      sl_insert = (\<lambda>t k b. Inr (tree_insert (normal_tree t) k b)),
      sl_remove = (\<lambda>t k. Inr (filter (\<lambda>kb. fst kb \<noteq> k) (normal_tree t))),
      sl_iter = (\<lambda>t. map Inr (normal_tree t)),
      sl_scan_prefix = (\<lambda>t p. map Inr (filter (\<lambda>(k, b). mem_prefix p k) (normal_tree t))),
      sl_flush = (\<lambda>_. Inr ()), sl_create_dir_all = (\<lambda>_. Inr ()), sl_write_snapshot = (\<lambda>_ _. Inr ()),
      sl_raw = BText, sl_from_utf8 = un_text,
      js_wallet = (\<lambda>w. Inr (BWallet w)), jd_wallet = un_wallet,
      js_operator = (\<lambda>w. Inr (BOperator w)), jd_operator = un_operator,
      js_validator = (\<lambda>w. Inr (BValidator w)), jd_validator = un_validator,
      js_transaction = (\<lambda>w. Inr (BTransaction w)), jd_transaction = un_transaction,
      js_poh_entry = (\<lambda>w. Inr (BPoh w)), jd_poh_entry = un_poh,
      js_commit = (\<lambda>w. Inr (BCommit w)), jd_commit = un_commit,
      js_state = (\<lambda>w. Inr (BState w)), jd_state = un_state,
      js_parameters = (\<lambda>w. Inr (BParameters w)), jd_parameters = un_parameters\<rparr>"

definition right :: "'e + 'a \<Rightarrow> 'a option" where
  "right r = (case r of Inl _ \<Rightarrow> None | Inr a \<Rightarrow> Some a)"

definition ref_view :: "(mem_tree, blob) store_view" where
  "ref_view =
     \<lparr>vw_tree = normal_tree, vw_wallet = (\<lambda>b. map_option wallet_core (right (un_wallet b))),
      vw_operator = (\<lambda>b. right (un_operator b)),
      vw_transaction = (\<lambda>b. map_option tx_core (right (un_transaction b))),
      vw_poh = (\<lambda>b. right (un_poh b)), vw_commit = (\<lambda>b. map_option commit_core (right (un_commit b))),
      vw_state = (\<lambda>b. map_option state_core (right (un_state b))), vw_text = (\<lambda>b. right (un_text b))\<rparr>"

lemma right_simps [simp]: "right (Inl e) = None" "right (Inr a) = Some a"
  by (simp_all add: right_def)

lemma tree_insert_keys: "fst ` set (tree_insert t k b) = insert k (fst ` set t)"
  by (induction t k b rule: tree_insert.induct) auto

lemma tree_insert_map: "map_of (tree_insert t k b) = (map_of t)(k \<mapsto> b)"
  if "sorted_keys t"
  using that
proof (induction t k b rule: tree_insert.induct)
  case (2 k' b' t k b)
  then show ?case by (auto simp: sorted_keys_def fun_eq_iff)
qed (simp add: fun_eq_iff)

lemma tree_insert_sorted: "sorted_keys t \<Longrightarrow> sorted_keys (tree_insert t k b)"
proof (induction t k b rule: tree_insert.induct)
  case (1 k b)
  then show ?case by (simp add: sorted_keys_def)
next
  case (2 k' b' t k b)
  show ?case
  proof (cases "k < k'")
    case True
    then show ?thesis using 2 by (auto simp: sorted_keys_def intro: less_trans)
  next
    case False
    then have "k = k' \<or> k' < k" by auto
    then show ?thesis
      using 2 False tree_insert_keys [of t k b] by (force simp: sorted_keys_def)
  qed
qed

lemma normal_sorted [simp]: "sorted_keys (normal_tree t)"
  by (simp add: normal_tree_def sorted_keys_def)

lemma normal_id [simp]: "sorted_keys t \<Longrightarrow> normal_tree t = t"
  by (simp add: normal_tree_def)

lemma filter_sorted_keys: "sorted_keys t \<Longrightarrow> sorted_keys (filter P t)"
  by (simp add: sorted_keys_def sorted_wrt_filter sorted_wrt_map)

lemma yields_map_Inr [simp]: "yields (map Inr xs) xs"
  by (simp add: yields_def list_all2_conv_all_nth)

lemma map_of_filter_key: "map_of (filter (\<lambda>kb. fst kb \<noteq> k) t) = (map_of t)(k := None)"
  by (induction t) (auto simp: fun_eq_iff)

lemma mem_prefix_eq: "mem_prefix p k = prefix p k"
  by (auto simp: mem_prefix_def prefix_def) (metis append_take_drop_id)

lemma ref_store_laws: "store_laws ref_store ref_view"
proof -
  have "tree_laws ref_store ref_view"
    unfolding tree_laws_def
    by (auto simp: ref_store_def ref_view_def tree_insert_map tree_insert_sorted filter_sorted_keys
        map_of_filter_key mem_prefix_eq)
  moreover have "codec_laws ref_store ref_view"
    unfolding codec_laws_def codec_law_def ref_store_def ref_view_def
    by (auto elim: un_wallet.elims un_operator.elims un_transaction.elims un_poh.elims un_commit.elims
        un_state.elims un_text.elims)
  ultimately show ?thesis by (simp add: store_laws_def)
qed

section \<open>Cryptographic libraries\<close>

definition hex_char :: "nat \<Rightarrow> char" where
  "hex_char d = (if d < 10 then char_of (48 + d) else char_of (87 + d))"

definition hex_value :: "char \<Rightarrow> nat" where
  "hex_value c =
     (let n = of_char c :: nat
      in if n < 58 then n - 48 else if n < 71 then n - 55 else n - 87)"

definition ref_hex_encode :: "bytes \<Rightarrow> bytes" where
  "ref_hex_encode b = concat (map (\<lambda>c. [hex_char (of_char c div 16), hex_char (of_char c mod 16)]) b)"

fun ref_hex_decode :: "bytes \<Rightarrow> bytes option" where
  "ref_hex_decode [] = Some []"
| "ref_hex_decode [c] = None"
| "ref_hex_decode (c # d # s) =
     (case ref_hex_decode s of
        None \<Rightarrow> None
      | Some b \<Rightarrow> Some (char_of (16 * hex_value c + hex_value d) # b))"

definition ref_digest :: "bytes \<Rightarrow> bytes" where
  "ref_digest b = take 32 (b @ replicate 32 (CHR 0x00))"

definition ref_crypto :: crypto_lib where
  "ref_crypto =
     \<lparr>cl_blake3 = ref_digest, cl_hex_encode = ref_hex_encode, cl_hex_decode = ref_hex_decode,
      cl_b64_standard = (\<lambda>_. None), cl_b64_url_no_pad = (\<lambda>_. None), cl_ed_public = ref_digest,
      cl_ed_sign = (\<lambda>sk m. ref_digest sk @ ref_digest m), cl_ed_key_valid = (\<lambda>_. True),
      cl_ed_verify = (\<lambda>pk m s. s = ref_digest pk @ ref_digest m), cl_to_vec = (\<lambda>_. Some [])\<rparr>"

text \<open>
  Constant functions, for witnesses that need only some successful run: \<open>''00''\<close> spells every key
  and digest, every other hexadecimal string a signature.
\<close>

definition const_crypto :: crypto_lib where
  "const_crypto =
     \<lparr>cl_blake3 = (\<lambda>_. []), cl_hex_encode = (\<lambda>_. ''00''),
      cl_hex_decode = (\<lambda>s. Some (replicate (if s = ''00'' then 32 else 64) (CHR 0x00))), cl_b64_standard = (\<lambda>_. None),
      cl_b64_url_no_pad = (\<lambda>_. None), cl_ed_public = (\<lambda>_. []), cl_ed_sign = (\<lambda>_ _. []),
      cl_ed_key_valid = (\<lambda>_. True), cl_ed_verify = (\<lambda>_ _ _. True), cl_to_vec = (\<lambda>_. Some [])\<rparr>"

text \<open>Constant transcendental functions.\<close>

definition plain_floats :: float_lib where
  "plain_floats = \<lparr>fl_ln = (\<lambda>_. f64_one), fl_exp = (\<lambda>_. f64_one), fl_powf = (\<lambda>_ _. f64_one), fl_cos = (\<lambda>_. f64_one)\<rparr>"

lemma hex_value_char: "d < 16 \<Longrightarrow> hex_value (hex_char d) = d"
  by (auto simp: hex_value_def hex_char_def)

lemma hex_chars: "list_all (\<lambda>d. ascii_hexdigit (hex_char d)) [0..<16]"
  by code_simp

lemma hex_char_digit: "d < 16 \<Longrightarrow> ascii_hexdigit (hex_char d)"
  using hex_chars by (simp add: list_all_iff del: upt_rec_numeral)

lemma of_char_less: "(of_char c :: nat) < 256"
  by simp

lemma ref_hex_roundtrip: "ref_hex_decode (ref_hex_encode b) = Some b"
proof (induction b)
  case Nil
  then show ?case by (simp add: ref_hex_encode_def)
next
  case (Cons c b)
  let ?n = "of_char c :: nat"
  have "?n div 16 < 16" using of_char_less [of c] by (simp add: less_mult_imp_div_less)
  then have "char_of (16 * hex_value (hex_char (?n div 16)) + hex_value (hex_char (?n mod 16))) = c"
    by (simp add: hex_value_char)
  then show ?case using Cons by (simp add: ref_hex_encode_def)
qed

lemma ref_hex_laws: "hex_laws ref_crypto"
proof -
  have "length (ref_hex_encode b) = 2 * length b" for b
    by (induction b) (simp_all add: ref_hex_encode_def)
  moreover have "list_all ascii_hexdigit (ref_hex_encode b)" for b
  proof (induction b)
    case (Cons c b)
    have "(of_char c :: nat) div 16 < 16" using of_char_less [of c] by (simp add: less_mult_imp_div_less)
    then show ?case using Cons by (simp add: ref_hex_encode_def hex_char_digit)
  qed (simp add: ref_hex_encode_def)
  moreover have "length (ref_digest b) = 32" for b
    by (simp add: ref_digest_def)
  ultimately show ?thesis by (simp add: hex_laws_def ref_crypto_def ref_hex_roundtrip)
qed

lemma const_fields [simp]:
  "cl_blake3 const_crypto b = []" "cl_hex_encode const_crypto b = ''00''"
  "cl_hex_decode const_crypto s = Some (replicate (if s = ''00'' then 32 else 64) (CHR 0x00))" "cl_ed_sign const_crypto k b = []"
  "cl_ed_key_valid const_crypto b" "cl_ed_verify const_crypto b c d" "cl_to_vec const_crypto p = Some []"
  by (simp_all add: const_crypto_def)

lemma hex_00 [simp]: "trim ''00'' = ''00''" "trim ''ff'' = ''ff''"
  by (rule trim_hex, simp add: ascii_hexdigit_def)+

lemma const_decode [simp]: "decode_bytes const_crypto ''00'' = Inr (replicate 32 (CHR 0x00))"
  "decode_bytes const_crypto ''ff'' = Inr (replicate 64 (CHR 0x00))"
  by (simp_all add: decode_bytes_def ascii_hexdigit_def)

lemma const_normalize [simp]: "normalize_bytes_to_hex const_crypto ''00'' 32 = Inr ''00''"
  by (simp add: normalize_bytes_to_hex_def)

lemma const_hash [simp]: "blake3_hex const_crypto b = ''00''" "hash_serializable const_crypto p = Inr ''00''"
  by (simp_all add: blake3_hex_def hash_serializable_def)

lemma const_ids [simp]: "wallet_id_from_public_key const_crypto ''00'' = Inr ''00''"
  "operator_id_from_public_key const_crypto ''00'' = Inr ''00''"
  "validator_id_from_public_key const_crypto ''00'' = Inr ''00''"
  by (simp_all add: wallet_id_from_public_key_def operator_id_from_public_key_def
      validator_id_from_public_key_def)

lemma const_verify [simp]: "verify_ed25519 const_crypto ''00'' m ''ff'' = Inr True"
  by (simp add: verify_ed25519_def fixed_32_def fixed_64_def)

lemma const_message [simp]: "tx_signing_message const_crypto ''00'' = Inr (replicate 32 (CHR 0x00))"
  by (simp add: tx_signing_message_def)

lemma const_root [simp]: "merkle_root_hex const_crypto [''00''] = Inr ''00''"
  by (simp add: merkle_root_hex_def)

end
