(* ===== verification/Auth.thy ===== *)
theory Auth
  imports Chain
begin

text \<open>
  Who may do what: the acceptance condition of an operator request, the authority behind a
  transfer, and the iteration lock, including the way it stays set.
\<close>

section \<open>Operator requests\<close>

text \<open>
  C8. An operator request is accepted only in two cases: the development bypass is on and the request
  carries no signature, and then it acts as the node's own operator; or it carries a timestamp within
  the drift and a signature that verifies, over exactly this method, path, timestamp and body, under
  the key of a stored, active operator whose id is the one of that key, and which is a genesis
  operator when the endpoint demands one.
\<close>

theorem operator_request_authentic:
  assumes "verify_operator_request E C now method path body timestamp sig id_header key_header admin_only n = Inr op"
  shows "sp_dev_auth_bypass (p_security (n_parameters n)) \<and> sig = None \<and>
      get_operator E (n_storage n) (n_operator_id n) = Inr (Some op)
    \<or> (\<exists>ts sg. timestamp = Some ts \<and> sig = Some sg \<and>
        \<not> drifted (sp_timestamp_drift_ms (p_security (n_parameters n))) now ts \<and>
        verify_ed25519 C (op_pubkey op) (canonical_request_message method path ts body) sg = Inr True \<and>
        (\<exists>oid. operator_id_from_public_key C (op_pubkey op) = Inr oid \<and>
          get_operator E (n_storage n) oid = Inr (Some op) \<and> (id_header = None \<or> id_header = Some oid)) \<and>
        operator_active op \<and> (admin_only \<longrightarrow> op_role op = Genesis))"
proof (cases "sp_dev_auth_bypass (p_security (n_parameters n)) \<and> sig = None")
  case True
  then show ?thesis
    using assms by (auto simp: verify_operator_request_def Let_def and_then_Inr_iff map_err_Inr_iff ok_or_Inr_iff)
next
  case False
  obtain ts sg pk oid where "timestamp = Some ts" "sig = Some sg"
    "\<not> drifted (sp_timestamp_drift_ms (p_security (n_parameters n))) now ts"
    "operator_id_from_public_key C pk = Inr oid" "case id_header of None \<Rightarrow> True | Some h \<Rightarrow> h = oid"
    "get_operator E (n_storage n) oid = Inr (Some op)" "operator_active op" "op_pubkey op = pk"
    "admin_only \<longrightarrow> op_role op = Genesis"
    "verify_ed25519 C pk (canonical_request_message method path ts body) sg = Inr True"
    using assms False
    by (auto simp: verify_operator_request_def Let_def and_then_Inr_iff map_err_Inr_iff ok_or_Inr_iff ensure_Inr)
  then show ?thesis by (cases id_header) auto
qed

section \<open>User signatures\<close>

text \<open>
  C9. A transfer that passes its preparation spends from the wallet of the public key in the request,
  for a positive amount to another wallet, its id is the one computed from exactly these fields, and
  one of two things holds: its signature verifies under that key over that id, or the development
  bypass is on and the signature is blank.  With the bypass on a transfer needs no signature.
\<close>

theorem transfer_authentic:
  assumes "prepare_transfer C security r = Inr (txid, key)"
  shows "wallet_id_from_public_key C (tr_sender_pubkey r) = Inr (tr_from r) \<and> tr_from r \<noteq> tr_to r \<and>
    tr_amount r \<noteq> 0 \<and> normalize_bytes_to_hex C (tr_sender_pubkey r) 32 = Inr key \<and>
    hash_serializable C (TransferPayload (tr_from r) (tr_to r) (tr_amount r) (tr_nonce r) (tr_timestamp r) key)
      = Inr txid \<and>
    (sp_dev_auth_bypass security \<and> trim (tr_user_sig r) = [] \<or>
     (\<exists>m. tx_signing_message C txid = Inr m \<and>
        verify_ed25519 C (tr_sender_pubkey r) m (tr_user_sig r) = Inr True))"
proof -
  have "wallet_id_from_public_key C (tr_sender_pubkey r) = Inr (tr_from r)" "tr_from r \<noteq> tr_to r"
    "tr_amount r \<noteq> 0" "normalize_bytes_to_hex C (tr_sender_pubkey r) 32 = Inr key"
    "transfer_tx_id C r = Inr txid" "verify_user_signature C security (tr_sender_pubkey r) txid (tr_user_sig r) = Inr ()"
    using assms
    by (auto simp: prepare_transfer_def and_then_Inr_iff map_err_Inr_iff ensure_Inr split: if_splits)
  then show ?thesis
    by (auto simp: transfer_tx_id_def verify_user_signature_def and_then_Inr_iff map_err_Inr_iff ensure_Inr
        split: if_splits)
qed

section \<open>The iteration lock\<close>

text \<open>A locked node refuses every job and stays as it is.\<close>

lemma locked_run_job:
  assumes "ss_iteration_lock (n_system n)"
  shows "run_job E C F clock j n = (Inl IterationInProgress, n)"
proof -
  have "check_unlocked n = (Inl IterationInProgress, n)" using assms by (simp add: check_unlocked_def)
  then show ?thesis
    by (cases j) (simp_all add: discard_def create_wallet_locked_def charge_locked_def transfer_locked_def
        burn_locked_def iteration_locked_def install_seed_locked_def)
qed

lemma clamp_panics: "f64_clamp x lo hi = None \<longleftrightarrow> \<not> f64_le lo hi"
  by (simp add: f64_clamp_def)

lemma execute_iteration_panics:
  "\<not> f64_le (ep_burn_min (p_economy ps)) (ep_burn_max (p_economy ps)) \<Longrightarrow>
     execute_iteration F C ws ps s oid = None"
  by (simp add: execute_iteration_def burn_rate_def clamp_panics [THEN iffD2] Let_def)

text \<open>The lock as the storage has it.\<close>

definition stored_lock :: "('t, 'b) store_view \<Rightarrow> 't coin_storage \<Rightarrow> bool option" where
  "stored_lock V st =
     map_option ss_iteration_lock (stored_state V st)"

lemma boot_stored_lock:
  assumes laws: "store_laws E V" and lock: "stored_lock V st = Some True"
    and boot: "boot E C env config st = (Inr n, st')"
  shows "ss_iteration_lock (n_system n)"
proof -
  obtain ps st1 sys0 sys where ps: "store_parameters E ps st = (Inr (), st1)"
    and load: "load_state E st1 = Inr sys0"
    and sys: "sys = (let s = (case sys0 of None \<Rightarrow> default_system_state | Some s \<Rightarrow> s)
       in if ss_last_poh_hash s = [] then s\<lparr>ss_last_poh_hash := ZERO_HASH_HEX\<rparr> else s)"
    and n: "n_system n = sys"
    by (rule boot_run [OF boot])
  have "map_option state_core sys0 = stored_state V st"
    using load_state_view [OF laws load] store_parameters_state [OF laws ps] by simp
  then obtain s where "sys0 = Some s" "ss_iteration_lock (state_core s)"
    using lock by (auto simp: stored_lock_def)
  then show ?thesis by (simp add: n sys state_core_def Let_def)
qed

text \<open>
  C15. Parameters whose minimal burn rate exceeds the maximal one are accepted, and then an iteration
  panics with the lock set in memory and in storage: no job runs any more, and a node started again
  on the same database is locked as well.
\<close>

theorem panic_locks_node_forever:
  assumes laws: "store_laws E V" and unlocked: "\<not> ss_iteration_lock (n_system n)"
    and bad: "\<not> f64_le (ep_burn_min (p_economy ps)) (ep_burn_max (p_economy ps))"
    and st: "store_state E (lock_system n) (n_storage n) = (Inr (), st)" and ws: "list_wallets E st = Inr ws"
  shows "\<exists>n'. iteration_locked E C F now ps n = (Inr None, n') \<and>
    (\<forall>j clock. run_job E C F clock j n' = (Inl IterationInProgress, n')) \<and>
    (\<forall>env config n2 st2. boot E C env config (n_storage n') = (Inr n2, st2) \<longrightarrow>
       (\<forall>j clock. run_job E C F clock j n2 = (Inl IterationInProgress, n2)))"
proof -
  let ?n = "n\<lparr>n_system := lock_system n, n_storage := st\<rparr>"
  have run: "iteration_locked E C F now ps n = (Inr None, ?n)"
    using unlocked st ws
    by (simp add: iteration_locked_def bindE_def check_unlocked_def set_system_def store_system_def store_def
        fetch_def lock_system_def execute_iteration_panics [OF bad])
  have lock: "ss_iteration_lock (n_system ?n)" by (simp add: lock_system_def)
  have "stored_lock V st = Some True"
    using store_state_view [OF laws st] by (simp add: stored_lock_def state_core_def lock_system_def)
  then have "ss_iteration_lock (n_system n2)" if "boot E C env config st = (Inr n2, st2)" for env config n2 st2
    using boot_stored_lock [OF laws _ that] by simp
  then show ?thesis using run locked_run_job [OF lock] locked_run_job by fastforce
qed

section \<open>Nonces\<close>

text \<open>Every wallet stays, and its nonce never goes down.\<close>

definition nonces_grow :: "ledger_map \<Rightarrow> ledger_map \<Rightarrow> bool" where
  "nonces_grow m m' \<longleftrightarrow>
     (\<forall>k w. m k = Some w \<longrightarrow> (\<exists>w'. m' k = Some w' \<and> unat (w_nonce w) \<le> unat (w_nonce w')))"

lemma nonces_grow_refl [simp]: "nonces_grow m m"
  by (auto simp: nonces_grow_def)

lemma nonces_grow_trans: "nonces_grow m1 m2 \<Longrightarrow> nonces_grow m2 m3 \<Longrightarrow> nonces_grow m1 m3"
  unfolding nonces_grow_def by (meson le_trans)

lemma nonces_grow_upd:
  "m k = Some v \<Longrightarrow> unat (w_nonce v) \<le> unat (w_nonce w) \<Longrightarrow> nonces_grow m (m(k \<mapsto> w))"
  by (auto simp: nonces_grow_def)

lemma nonces_grow_next:
  assumes "m k = Some v" "unat (w_nonce w) = unat (w_nonce v) + 1"
  shows "nonces_grow m (m(k \<mapsto> w))"
  by (rule nonces_grow_upd [where v = v]) (use assms in \<open>auto simp only: le_add1\<close>)

lemma unat_next_nonce: "unat (x :: u64) + 1 < 2 ^ 64 \<Longrightarrow> unat (x + 1) = unat x + 1"
  by (simp add: unat_add_small)

lemma spec_create_nonces: "spec_create w m = Inr m' \<Longrightarrow> nonces_grow m m'"
  by (auto simp: spec_create_def nonces_grow_def split: if_splits)

lemma spec_charge_nonces: "spec_charge r m = Inr m' \<Longrightarrow> nonces_grow m m'"
  by (auto simp: spec_charge_def intro!: nonces_grow_upd split: option.splits)

lemma spec_transfer_nonces:
  assumes "spec_transfer it r m = Inr m'" "tr_from r \<noteq> tr_to r"
    and "\<And>w. m (tr_from r) = Some w \<Longrightarrow> unat (w_nonce w) + 1 < 2 ^ 64"
  shows "nonces_grow m m'" and "\<exists>w. m' (tr_from r) = Some w \<and> unat (w_nonce w) = unat (tr_nonce r) + 1"
proof -
  obtain v w where v: "m (tr_from r) = Some v" "w_nonce v = tr_nonce r" and w: "m (tr_to r) = Some w"
    and m': "m' = m(tr_from r \<mapsto> debit_transfer it r v, tr_to r \<mapsto> credit_transfer it r w)"
    using assms(1) by (auto simp: spec_transfer_code split: option.splits if_splits)
  have n: "unat (w_nonce (debit_transfer it r v)) = unat (tr_nonce r) + 1"
    "w_nonce (credit_transfer it r w) = w_nonce w"
    using unat_next_nonce assms(3) [OF v(1)] v(2) by (simp_all add: debit_transfer_def credit_transfer_def)
  have "nonces_grow m (m(tr_from r \<mapsto> debit_transfer it r v))"
    by (rule nonces_grow_next [where v = v]) (use n(1) v in simp_all)
  moreover have "nonces_grow (m(tr_from r \<mapsto> debit_transfer it r v)) m'"
    unfolding m' using w assms(2) n(2) by (intro nonces_grow_upd [of _ _ w]) simp_all
  ultimately show "nonces_grow m m'" by (rule nonces_grow_trans)
  show "\<exists>w. m' (tr_from r) = Some w \<and> unat (w_nonce w) = unat (tr_nonce r) + 1"
    using n(1) assms(2) by (simp add: m')
qed

lemma spec_burn_nonces:
  assumes "spec_burn it r m = Inr m'" "\<And>w. m (br_from r) = Some w \<Longrightarrow> unat (w_nonce w) + 1 < 2 ^ 64"
  shows "nonces_grow m m'"
proof -
  obtain v where v: "m (br_from r) = Some v" and m': "m' = m(br_from r \<mapsto> debit_burn it r v)"
    using assms(1) by (auto simp: spec_burn_code split: option.splits if_splits)
  show ?thesis
    unfolding m' using unat_next_nonce assms(2) [OF v]
    by (intro nonces_grow_next [where v = v]) (simp_all add: debit_burn_def v)
qed

lemma iteration_nonces:
  assumes laws: "store_laws E V" and ids: "ids_ok (ledger V n)"
    and ok: "iteration_locked E C F now ps n = (Inr (Some c), n')"
    and fresh: "distinct (ic_new_wallets c)" "set (ic_new_wallets c) \<inter> dom (ledger V n) = {}"
  shows "nonces_grow (ledger V n) (ledger V n')"
proof -
  obtain ws r old new where ws: "ledger V n = ledger_of ws" "distinct (map w_id ws)"
    and r: "ir_wallets r = old @ new" "map identity old = map identity ws" "distinct (map w_id (ir_wallets r))"
    and app: "applied V C n (ledger_of (ir_wallets r)) (commit_system r (lock_system n)) (IterationCommit c) n'"
    by (rule iteration_locked_ledger [OF laws ids ok fresh])
  show ?thesis
    unfolding nonces_grow_def
  proof (intro allI impI)
    fix k w assume "ledger V n k = Some w"
    then obtain v where v: "v \<in> set ws" "w = wallet_core v" "w_id v = k" using ws(1) ledger_of_Some by metis
    then have "identity v \<in> set (map identity old)" using r(2) by simp
    then obtain u where u: "u \<in> set old" "identity u = identity v" by auto
    have "ledger_of (ir_wallets r) (w_id u) = Some (wallet_core u)"
      using ledger_of_member [OF r(3)] u(1) r(1) by simp
    then show "\<exists>w'. ledger V n' k = Some w' \<and> unat (w_nonce w) \<le> unat (w_nonce w')"
      using u(2) v applied_ledger [OF app] by (simp add: identity_def)
  qed
qed

lemma install_seed_entries_nonces:
  assumes laws: "store_laws E V"
  shows "install_seed_entries E C clock d k entries n = (res, n') \<Longrightarrow> (\<forall>e. res = Inl e \<longrightarrow> \<not> is_internal e)
    \<Longrightarrow> nonces_grow (ledger V n) (ledger V n')"
proof (induction entries arbitrary: k n res)
  case Nil
  then show ?case by simp
next
  case (Cons entry entries)
  obtain new n1 where step: "install_seed_entry E C (clock (3 * k)) (clock (3 * k + 1)) (clock (3 * k + 2)) d entry n
      = (new, n1)" by (metis prod.exhaust)
  show ?case
  proof (cases new)
    case (Inl e)
    then have "res = Inl e" "n' = n1" using Cons.prems(1) step by (simp_all add: bindE_def)
    then have "n' = n" using install_seed_entry_Inl step Cons.prems(2) Inl by blast
    then show ?thesis by simp
  next
    case (Inr b)
    obtain res1 where rest: "install_seed_entries E C clock d (Suc k) entries n1 = (res1, n')"
      and fine: "\<forall>e. res1 = Inl e \<longrightarrow> \<not> is_internal e"
      using Cons.prems step Inr by (auto simp: bindE_def returnE_def split: prod.splits sum.splits)
    have "nonces_grow (ledger V n) (ledger V n1)"
      using install_seed_entry_Inr [OF laws step [unfolded Inr]] spec_create_nonces applied_ledger
      by (metis nonces_grow_refl)
    then show ?thesis using Cons.IH [OF rest fine] nonces_grow_trans by blast
  qed
qed

lemma run_job_nonces:
  assumes laws: "store_laws E V" and ok: "run_job E C F clock j n = (Inr True, n')" and j: "job_ok j"
    and calm: "calm E C F V clock j n n'" and ids: "ids_ok (ledger V n)"
  shows "nonces_grow (ledger V n) (ledger V n')"
proof (cases j)
  case (JCreate ps key wid r op sig)
  then obtain resp where "create_wallet_locked E C (clock 0) ps key wid r op sig n = (Inr resp, n')"
    using ok by (auto simp: discard_Inr)
  from create_wallet_locked_Inr [OF laws this] show ?thesis using spec_create_nonces applied_ledger by metis
next
  case (JCharge r op sig)
  then obtain resp where "charge_locked E C (clock 0) r op sig n = (Inr resp, n')"
    using ok by (auto simp: discard_Inr)
  from charge_locked_Inr [OF laws ids this] show ?thesis using spec_charge_nonces applied_ledger by metis
next
  case (JTransfer r txid key)
  then obtain resp where "transfer_locked E C (clock 0) r txid key n = (Inr resp, n')"
    using ok by (auto simp: discard_Inr)
  from transfer_locked_Inr [OF laws ids this] obtain m where
    "spec_transfer (ss_current_iteration (n_system n)) r (ledger V n) = Inr m" "ledger V n' = m"
    using applied_ledger by blast
  then show ?thesis using spec_transfer_nonces(1) j calm JTransfer by (auto simp: nonce_room_def)
next
  case (JBurn r txid key)
  then obtain resp where "burn_locked E C (clock 0) r txid key n = (Inr resp, n')"
    using ok by (auto simp: discard_Inr)
  from burn_locked_Inr [OF laws ids this] obtain m where
    "spec_burn (ss_current_iteration (n_system n)) r (ledger V n) = Inr m" "ledger V n' = m"
    using applied_ledger by blast
  then show ?thesis using spec_burn_nonces calm JBurn by (auto simp: nonce_room_def)
next
  case (JIteration ps)
  then obtain c where "iteration_locked E C F (clock 0) ps n = (Inr (Some c), n')"
    using ok by (auto simp: step_simps)
  then show ?thesis using iteration_nonces [OF laws ids] calm JIteration by auto
next
  case (JSeed d seed)
  obtain n1 n2 st k where run: "install_seed_entries E C clock d 0 (sf_initial_wallets seed) n = (Inr k, n1)"
    "store_system E n1 = (Inr (), n2)" "storage_flush E (n_storage n2) = (Inr (), st)" "n' = n2\<lparr>n_storage := st\<rparr>"
    using ok JSeed by (auto simp: discard_Inr install_seed_locked_def step_simps)
  have "st = n_storage n2" by (rule storage_flush_frame [OF run(3)])
  then show ?thesis
    using install_seed_entries_nonces [OF laws run(1)] store_system_Inr(2) [where V = V, OF run(2)] run(4) by simp
qed

lemma plain_step_nonces:
  assumes "store_laws E V" "plain_step E C F V c c'" "node_inv C V c"
  shows "nonces_grow (ledger V (fst c)) (ledger V (fst c'))"
  using assms(2,1,3)
proof (induction rule: plain_step.induct)
  case (admit n j n' js)
  then show ?case using admits_frame [OF admit.hyps] by simp
next
  case (refuse_charge now r sig n e n' js)
  then show ?case using prepare_charge_frame [OF refuse_charge.hyps] by simp
next
  case (limit_create now ip n r n' js)
  then show ?case using limit_frames(1) [OF limit_create.hyps] by simp
next
  case (limit_transfer now wid n r n' js)
  then show ?case using limit_frames(2) [OF limit_transfer.hyps] by simp
next
  case (parameters ps n n' js)
  then obtain st where st: "store_parameters E ps (n_storage n) = (Inr (), st)"
    "n' = n\<lparr>n_storage := st, n_parameters := ps\<rparr>" by (auto simp: update_parameters_def step_simps)
  show ?case using store_parameters_frame(1) [where V = V, OF st(1)] by (simp add: st(2))
next
  case (simulation b mode n r n' js)
  then have "n_storage n' = n_storage n" by (cases r) (auto simp: set_simulation_running_def step_simps)
  then show ?case by simp
next
  case (run j js clock n n')
  have j: "job_ok j" using run.hyps(1) run.prems(2) by (auto simp: node_inv_def list_all_iff)
  have "ids_ok (ledger V n)" using run.prems(2) booksD(1) by (auto simp: node_inv_def)
  then show ?case using run_job_nonces [OF run.prems(1) run.hyps(2) j run.hyps(3)] by simp
next
  case (reject j js clock n e n')
  then show ?case using reject_frame by fastforce
next
  case (panic j js clock n n')
  obtain st where st: "store_state E (lock_system n) (n_storage n) = (Inr (), st)"
    "n' = n\<lparr>n_system := lock_system n, n_storage := st\<rparr>" by (rule run_job_panic [OF panic.hyps(2)])
  show ?case using store_state_Inr(1) [where V = V, OF st(1)] by (simp add: st(2))
next
  case (restart env config n n' st' js)
  then show ?case using boot_resumes(1) [OF restart.prems(1) restart.hyps(2,3,1)] by simp
qed

lemma step_nonces:
  assumes laws: "store_laws E V" and "node_step E C F V c c'" "node_inv C V c"
  shows "nonces_grow (ledger V (fst c)) (ledger V (fst c'))"
  using assms(2,3)
proof (induction rule: node_step.induct)
  case (plain c c')
  then show ?case using plain_step_nonces [OF laws] by blast
next
  case (refuse_seed d seed js clock n e n')
  from refused_seed_run [OF refuse_seed.hyps(2,3)] show ?case
  proof
    assume "n' = n"
    then show ?thesis by simp
  next
    assume "install_seed_entries E C clock d 0 (sf_initial_wallets seed) n = (Inl e, n')"
    then show ?thesis using install_seed_entries_nonces [OF laws] refuse_seed.hyps(3) by simp
  qed
qed

lemma reachable_nonces:
  assumes "store_laws E V" "(node_step E C F V)\<^sup>*\<^sup>* c c'" "node_inv C V c"
  shows "nonces_grow (ledger V (fst c)) (ledger V (fst c'))"
  using assms(2,3)
proof induction
  case base
  then show ?case by simp
next
  case (step c1 c2)
  then have "node_inv C V c1" using reachable_inv [OF assms(1)] by blast
  then show ?case using step step_nonces [OF assms(1)] nonces_grow_trans by blast
qed

text \<open>
  C4. A transfer takes effect at most once: after it succeeded, no transfer from the same wallet with
  the same nonce succeeds in any state reached later, under any interleaving.
\<close>

theorem transfer_not_replayable:
  assumes laws: "store_laws E V" and inv: "node_inv C V (n, js)"
    and j: "JTransfer r txid key \<in> set js"
    and ok: "run_job E C F clock (JTransfer r txid key) n = (Inr True, n1)"
    and calm: "calm E C F V clock (JTransfer r txid key) n n1"
    and later: "(node_step E C F V)\<^sup>*\<^sup>* (n1, remove1 (JTransfer r txid key) js) (n2, js2)"
    and same: "tr_from r' = tr_from r" "tr_nonce r' = tr_nonce r"
  shows "fst (transfer_locked E C now r' txid' key' n2) \<noteq> Inr resp"
proof
  assume succ: "fst (transfer_locked E C now r' txid' key' n2) = Inr resp"
  have inv1: "node_inv C V (n1, remove1 (JTransfer r txid key) js)"
    using step_keeps_inv [OF laws plain_steps(7) [OF j ok calm] inv] .
  have ids: "ids_ok (ledger V n)" using inv booksD(1) by (auto simp: node_inv_def)
  have ids2: "ids_ok (ledger V n2)" using reachable_inv [OF laws later inv1] booksD(1) by (auto simp: node_inv_def)
  obtain a where "transfer_locked E C (clock 0) r txid key n = (Inr a, n1)" using ok by (auto simp: discard_Inr)
  from transfer_locked_Inr [OF laws ids this] obtain m where
    m: "spec_transfer (ss_current_iteration (n_system n)) r (ledger V n) = Inr m" "ledger V n1 = m"
    using applied_ledger by blast
  have "tr_from r \<noteq> tr_to r" using inv j by (auto simp: node_inv_def list_all_iff)
  then obtain w where w: "ledger V n1 (tr_from r) = Some w" "unat (w_nonce w) = unat (tr_nonce r) + 1"
    using spec_transfer_nonces(2) [OF m(1)] calm m(2) by (auto simp: nonce_room_def)
  obtain w2 where w2: "ledger V n2 (tr_from r) = Some w2" "unat (w_nonce w) \<le> unat (w_nonce w2)"
    using reachable_nonces [OF laws later inv1] w(1) by (auto simp: nonces_grow_def)
  obtain n3 where "transfer_locked E C now r' txid' key' n2 = (Inr resp, n3)" using succ by (metis prod.collapse)
  from transfer_locked_Inr [OF laws ids2 this] obtain w3 where "ledger V n2 (tr_from r') = Some w3" "w_nonce w3 = tr_nonce r'"
    by (auto simp: spec_transfer_code split: option.splits if_splits)
  then show False using w w2 same by simp
qed

end
