(* ===== verification/Restart.thy ===== *)
theory Restart
  imports Auth
begin

text \<open>
  Persistence.  After every successful job the storage holds the system state of the node
  (\<open>persisted\<close>), and every step but a refused seed file keeps that.  So a node started again on the
  database of such a configuration (\<open>settled\<close>) has the same ledger, the same log and, but for the last
  bits of two floats, the same counters.  What it forgets is the replay guard and the rate limits,
  which live in memory only.
\<close>

lemma commit_iteration_persists:
  assumes "store_laws E V" "commit_iteration E C now ps r n = (Inr u, n')"
  shows "persisted V n'"
  using assms(2) store_system_persists [OF assms(1)]
  by (auto simp: commit_iteration_def step_simps dest!: write_snapshot_frame storage_flush_frame split: if_splits)

lemma run_job_persists:
  assumes laws: "store_laws E V" and ok: "run_job E C F clock j n = (Inr True, n')"
  shows "persisted V n'"
proof (cases j)
  case (JIteration ps)
  then obtain c where "iteration_locked E C F (clock 0) ps n = (Inr (Some c), n')"
    using ok by (auto simp: step_simps)
  then show ?thesis using commit_iteration_persists [OF laws] by (auto elim: iteration_locked_run)
next
  case (JSeed d seed)
  then show ?thesis
    using ok store_system_persists [OF laws]
    by (auto simp: discard_Inr install_seed_locked_def step_simps dest!: storage_flush_frame)
qed (use ok store_system_persists [OF laws] in
    \<open>auto simp: discard_Inr create_wallet_locked_def charge_locked_def transfer_locked_def burn_locked_def step_simps Let_def\<close>)

lemma step_persists:
  assumes laws: "store_laws E V" and "plain_step E C F V c c'" "persisted V (fst c)"
  shows "persisted V (fst c')"
  using assms(2,3)
proof (induction rule: plain_step.induct)
  case (parameters ps n n' js)
  then show ?case
    using store_parameters_state [OF laws] by (auto simp: update_parameters_def step_simps persisted_def)
next
  case (reject j js clock n e n')
  have "n' = n" by (rule reject_frame [OF laws reject(2-4)])
  then show ?case using reject(5) by simp
next
  case (panic j js clock n n')
  obtain st where "store_state E (lock_system n) (n_storage n) = (Inr (), st)"
    "n' = n\<lparr>n_system := lock_system n, n_storage := st\<rparr>" by (rule run_job_panic [OF panic(2)])
  then show ?case using store_state_view [OF laws] by (simp add: persisted_def)
next
  case (restart env config n n' st' js)
  then show ?case using boot_persists [OF laws] by simp
qed (auto simp: persisted_def set_simulation_running_def step_simps
    dest: admits_frame prepare_charge_frame limit_frames run_job_persists [OF laws, unfolded persisted_def])

text \<open>
  The configurations whose system state is stored: the first one, every one right after a successful
  job, and what follows these by steps other than a refused seed file.
\<close>

inductive settled ::
  "('t, 'b) store_lib \<Rightarrow> crypto_lib \<Rightarrow> float_lib \<Rightarrow> ('t, 'b) store_view \<Rightarrow> 't node
     \<Rightarrow> 't node \<times> job list \<Rightarrow> bool"
  for E C F V n0
where
  start: "settled E C F V n0 (n0, [])"
| job: "(node_step E C F V)\<^sup>*\<^sup>* (n0, []) (n, js) \<Longrightarrow> j \<in> set js \<Longrightarrow> run_job E C F clock j n = (Inr True, n') \<Longrightarrow>
    calm E C F V clock j n n' \<Longrightarrow> settled E C F V n0 (n', remove1 j js)"
| step: "settled E C F V n0 c \<Longrightarrow> plain_step E C F V c c' \<Longrightarrow> settled E C F V n0 c'"

lemma settled_reachable: "settled E C F V n0 c \<Longrightarrow> (node_step E C F V)\<^sup>*\<^sup>* (n0, []) c"
proof (induction rule: settled.induct)
  case (job n js j clock n')
  then show ?case using plain_steps(7) [OF job(2-4)] by (meson rtranclp.rtrancl_into_rtrancl)
next
  case (step c c')
  then show ?case using node_step.plain by (meson rtranclp.rtrancl_into_rtrancl)
qed simp

lemma settled_persisted:
  assumes laws: "store_laws E V" and fresh: "fresh_node E C V n0" and "settled E C F V n0 c"
  shows "persisted V (fst c)"
  using assms(3)
proof (induction rule: settled.induct)
  case start
  then show ?case using fresh boot_persists [OF laws] by (auto simp: fresh_node_def)
next
  case (job n js j clock n')
  then show ?case using run_job_persists [OF laws job(3)] by simp
next
  case (step c c')
  then show ?case using step_persists [OF laws] by blast
qed

section \<open>Starting again\<close>

lemma chain_end_nonempty:
  assumes "\<And>b. blake3_hex C b \<noteq> []" "chain_from C p es" "p \<noteq> []"
  shows "chain_end p es \<noteq> []"
  using assms(2,3)
proof (induction es arbitrary: p)
  case (Cons e es)
  then have "pe_hash e \<noteq> []" using assms(1) by (auto simp: verify_chain_True poh_hash_def)
  then show ?case using Cons by simp
qed simp

text \<open>
  C6. A node that stops in a settled configuration and is started again on its database resumes there:
  the ledger, the log and the transactions are the same, and so is the system state up to the
  rounding of its two floats.  Settled are the fresh node, every reachable configuration that a
  successful job has just left, and what follows them by any steps but a refused seed file: admissions,
  refusals, jobs, panics, new parameters and restarts.  The replay guard, however, is empty
  afterwards: it does not survive.
\<close>

theorem restart_resumes:
  assumes laws: "store_laws E V" and fresh: "fresh_node E C V n0" and settled: "settled E C F V n0 (n, js)"
    and boot: "boot E C env config (n_storage n) = (Inr n', st')"
    and digest: "\<And>b. blake3_hex C b \<noteq> []"
  shows "ledger V n' = ledger V n \<and> poh_log V n' = poh_log V n \<and> tx_log V n' = tx_log V n
    \<and> state_core (n_system n') = state_core (n_system n) \<and> n_seen_operator_sigs n' = Map.empty"
proof -
  have "persisted V n" using settled_persisted [OF laws fresh settled] by simp
  moreover obtain es where "chain_from C ZERO_HASH_HEX es" "ss_last_poh_hash (n_system n) = chain_end ZERO_HASH_HEX es"
    using reachable_inv [OF laws settled_reachable [OF settled] fresh_node_inv [OF laws fresh]]
    by (auto simp: node_inv_def log_ok_def)
  then have "ss_last_poh_hash (n_system n) \<noteq> []" using chain_end_nonempty [OF digest] by (simp add: ZERO_HASH_HEX_def)
  moreover have "n_seen_operator_sigs n' = Map.empty"
    using boot by (auto simp: boot_def Let_def step_simps)
  ultimately show ?thesis using boot_resumes [OF laws _ _ boot] by blast
qed

end
