(* ===== verification/Faults.thy ===== *)
theory Faults
  imports Restart
begin

text \<open>
  The two situations in which the bookkeeping of the node breaks: a seed file that is refused half-way
  and then a restart, and an iteration whose faucet wallets carry ids that exist.
\<close>

section \<open>A refused seed file and a restart\<close>

lemma put_system_tree:
  "put_transaction E tx tick st = (r, st1) \<Longrightarrow> cs_system st1 = cs_system st"
  "put_poh_entry E e st = (r', st2) \<Longrightarrow> cs_system st2 = cs_system st"
  "put_wallet E w st = (r'', st3) \<Longrightarrow> cs_system st3 = cs_system st"
  by (auto simp: put_transaction_def put_poh_entry_def put_wallet_def dest!: put_index_frame split: sum.splits)

lemma append_tx_system_tree:
  assumes "append_tx_locked E C now tx n = (Inr u, n')"
  shows "cs_system (n_storage n') = cs_system (n_storage n)"
proof -
  obtain e t st1 st2 where "put_transaction E tx t (n_storage n) = (Inr (), st1)" "put_poh_entry E e st1 = (Inr (), st2)"
    "n_storage n' = st2"
    using assms by (auto simp: append_tx_locked_def step_simps)
  then show ?thesis using put_system_tree(1,2) by metis
qed

lemma install_seed_entry_system_tree:
  "install_seed_entry E C t1 t2 t3 d entry n = (Inr b, n') \<Longrightarrow> cs_system (n_storage n') = cs_system (n_storage n)"
  by (auto simp: install_seed_entry_def step_simps Let_def
      dest!: append_tx_system_tree put_system_tree(3) split: if_splits)

text \<open>The entries of a seed file do not store the system state; only the end of the call does.\<close>

lemma install_seed_entries_system_tree:
  "install_seed_entries E C clock d k entries n = (res, n') \<Longrightarrow> (\<forall>e. res = Inl e \<longrightarrow> \<not> is_internal e)
    \<Longrightarrow> cs_system (n_storage n') = cs_system (n_storage n)"
proof (induction entries arbitrary: k n res)
  case Nil
  then show ?case by simp
next
  case (Cons entry entries)
  obtain new n1 where step: "install_seed_entry E C (clock (3 * k)) (clock (3 * k + 1)) (clock (3 * k + 2)) d entry n
      = (new, n1)" by (metis prod.exhaust)
  show ?case
  proof (cases new)
    case (Inl e)
    then have "res = Inl e" "n' = n1" using Cons.prems(1) step by (simp_all add: bindE_def)
    then have "n' = n" using install_seed_entry_Inl step Cons.prems(2) Inl by blast
    then show ?thesis by simp
  next
    case (Inr b)
    obtain res1 where "install_seed_entries E C clock d (Suc k) entries n1 = (res1, n')"
      "\<forall>e. res1 = Inl e \<longrightarrow> \<not> is_internal e"
      using Cons.prems step Inr by (auto simp: bindE_def returnE_def split: prod.splits sum.splits)
    then show ?thesis using Cons.IH install_seed_entry_system_tree [OF step [unfolded Inr]] by metis
  qed
qed

text \<open>
  C31. Installing a seed file is not atomic.  When an entry is refused after a wallet of an earlier entry
  was installed, the error leaves that wallet and its log entry in the storage without storing the
  system state; a node started again on this database counts fewer wallets than it holds, and the
  log entry of its next tick exists already, so that the next transaction will overwrite it.
\<close>

theorem refused_seed_breaks_restart:
  assumes laws: "store_laws E V" and inv: "node_inv C V (n, js)" and kept: "persisted V n"
    and hash: "ss_last_poh_hash (n_system n) \<noteq> []"
    and run: "install_seed_locked E C clock d seed n = (Inl e, n1)" "\<not> is_internal e"
    and room: "headroom V n (sum_list (map (seed_amount d) (sf_initial_wallets seed))) (length (sf_initial_wallets seed))"
    and grew: "dom (ledger V n1) \<noteq> dom (ledger V n)"
    and boot: "boot E C env config (n_storage n1) = (Inr n2, st')"
  shows "unat (ss_n_wallets (n_system n2)) < card (dom (ledger V n2))
    \<and> poh_log V n2 (ss_current_tick (n_system n2) + 1) \<noteq> None"
proof -
  have job: "run_job E C F clock (JSeed d seed) n = (Inl e, n1)" for F by (simp add: discard_Inl run(1))
  have calm: "calm E C F V clock (JSeed d seed) n n1" for F using room by simp
  obtain es where l: "log_ok C V n es" and b: "books (ledger V n) (n_system n)" using inv by (auto simp: node_inv_def)
  have "books (ledger V n1) (n_system n1) \<and>
    (\<exists>es'. log_ok C V n1 (es @ es') \<and> card (dom (ledger V n1)) = card (dom (ledger V n)) + length es')"
    by (rule refused_seed_keeps [OF laws job run(2) calm b l])
  then obtain es' where b1: "books (ledger V n1) (n_system n1)" and l1: "log_ok C V n1 (es @ es')"
    and count: "card (dom (ledger V n1)) = card (dom (ledger V n)) + length es'"
    by (elim conjE exE)
  have "install_seed_entries E C clock d 0 (sf_initial_wallets seed) n = (Inl e, n1)"
    using refused_seed_run [OF job run(2)] grew by auto
  then have tree: "cs_system (n_storage n1) = cs_system (n_storage n)"
    and grow: "nonces_grow (ledger V n) (ledger V n1)"
    using install_seed_entries_system_tree install_seed_entries_nonces [OF laws] run(2) by blast+
  have "dom (ledger V n) \<subseteq> dom (ledger V n1)" using grow unfolding nonces_grow_def by blast
  then have "dom (ledger V n) \<subset> dom (ledger V n1)" using grew by blast
  from psubset_card_mono [OF booksD(2) [OF b1] this] have new: "0 < length es'" using count by simp
  have "persisted V (n1\<lparr>n_system := n_system n\<rparr>)" using kept tree by (simp add: persisted_def stored_state_def)
  note b2 = boot_resumes [OF laws this, simplified, OF hash boot]
  have r: "ledger V n2 = ledger V n1" "poh_log V n2 = poh_log V n1" "state_core (n_system n2) = state_core (n_system n)"
    by (simp_all add: b2)
  note f = state_core_fields [OF r(3)]
  have "unat (ss_n_wallets (n_system n2)) < card (dom (ledger V n2))"
    using booksD(4) [OF b] count new by (simp add: r(1) f)
  moreover have "unat (ss_current_tick (n_system n2) + 1) = length es + 1"
    using l room by (simp add: f log_ok_def headroom_def unat_add_small)
  then have "poh_log V n2 (ss_current_tick (n_system n2) + 1) \<noteq> None"
    using l1 new by (simp add: r(2) log_ok_def log_of_def Suc_le_eq)
  ultimately show ?thesis by blast
qed

section \<open>Faucet wallets that exist already\<close>

lemma put_wallets_dom:
  assumes laws: "store_laws E V"
  shows "put_wallets E ws st = (Inr u, st') \<Longrightarrow> dom (wallet_contents V st') = dom (wallet_contents V st) \<union> w_id ` set ws"
proof (induction ws arbitrary: st)
  case Nil
  then show ?case by simp
next
  case (Cons w ws)
  then obtain st1 where st1: "put_wallet E w st = (Inr (), st1)" "put_wallets E ws st1 = (Inr u, st')"
    by (auto simp: step_simps)
  show ?case using Cons.IH [OF st1(2)] put_wallet_Inr(1) [OF laws st1(1)] by auto
qed

lemma commit_iteration_dom:
  assumes laws: "store_laws E V" and ok: "commit_iteration E C now ps r n = (Inr u, n')"
  shows "dom (ledger V n') = dom (ledger V n) \<union> w_id ` set (ir_wallets r)"
    and "ss_n_wallets (n_system n') = of_nat (length (ir_wallets r))"
proof -
  obtain st n2 st3 n4 where st: "put_wallets E (ir_wallets r) (n_storage n) = (Inr (), st)"
    and app: "append_tx_locked E C now (IterationCommit (ir_commit r))
        (n\<lparr>n_storage := st, n_system := commit_system r (n_system n)\<rparr>) = (Inr (), n2)"
    and st3: "put_iteration E (ir_commit r) (n_storage n2) = (Inr (), st3)"
    and fin: "store_system E (n2\<lparr>n_storage := st3\<rparr>) = (Inr (), n4)" and n': "n' = n4"
    using ok by (auto simp: commit_iteration_def step_simps dest!: write_snapshot_frame storage_flush_frame split: if_splits)
  obtain e where e: "n_system n2 = advance e (commit_system r (n_system n))" "ledger V n2 = wallet_contents V st"
    using append_tx_Inr [OF laws app] by auto
  note f = store_system_Inr(1) [OF fin] store_system_Inr(2) [where V = V, OF fin]
  show "dom (ledger V n') = dom (ledger V n) \<union> w_id ` set (ir_wallets r)"
    using put_wallets_dom [OF laws st] e(2) put_iteration_frame(1) [where V = V, OF st3] f(2) n' by simp
  show "ss_n_wallets (n_system n') = of_nat (length (ir_wallets r))"
    using e(1) f(1) n' by (simp add: advance_def commit_system_def)
qed

lemma card_Un_list:
  assumes "finite A"
  shows "card (A \<union> set xs) = card A + length xs \<longleftrightarrow> distinct xs \<and> set xs \<inter> A = {}"
proof
  assume eq: "card (A \<union> set xs) = card A + length xs"
  have "card (A \<union> set xs) + card (A \<inter> set xs) = card A + card (set xs)"
    using card_Un_Int [OF assms, of "set xs"] by simp
  then have "card (A \<inter> set xs) = 0" "card (set xs) = length xs" using eq card_length [of xs] by linarith+
  then show "distinct xs \<and> set xs \<inter> A = {}" using assms card_distinct by auto
next
  assume "distinct xs \<and> set xs \<inter> A = {}"
  then show "card (A \<union> set xs) = card A + length xs"
    using card_Un_disjoint [OF assms, of "set xs"] distinct_card [of xs] by (simp add: Int_commute)
qed

text \<open>
  C40. After a successful iteration the wallet counter is the number of stored wallets if and only if
  the ids of the faucet wallets are pairwise different and none of them was stored before.  The code
  does not check this: a faucet id that exists is overwritten in the storage and counted again.
\<close>

theorem iteration_counts_iff_new_ids:
  assumes laws: "store_laws E V" and b: "books (ledger V n) (n_system n)"
    and ok: "iteration_locked E C F now ps n = (Inr (Some c), n')"
    and room: "card (dom (ledger V n)) + length (ic_new_wallets c) < 2 ^ 64"
  shows "unat (ss_n_wallets (n_system n')) = card (dom (ledger V n')) \<longleftrightarrow>
    distinct (ic_new_wallets c) \<and> set (ic_new_wallets c) \<inter> dom (ledger V n) = {}"
proof -
  note B = booksD [OF b]
  obtain st ws r where run: "store_state E (lock_system n) (n_storage n) = (Inr (), st)" "list_wallets E st = Inr ws"
      "execute_iteration F C ws ps (lock_system n) (n_operator_id n) = Some (Inr r)" "c = ir_commit r"
      "commit_iteration E C now ps r (n\<lparr>n_system := lock_system n, n_storage := st\<rparr>) = (Inr (), n')"
    by (rule iteration_locked_run [OF ok])
  have st: "wallet_contents V st = ledger V n" by (rule store_state_Inr(1) [OF run(1)])
  have ws: "distinct (map w_id ws)" "ledger V n = ledger_of ws"
    using list_wallets_ledger [OF laws _ run(2)] B(1) st by simp_all
  obtain beta new where r: "ir_wallets r = rd_wallets (redistribute F ps beta ws) @ new"
      "ic_new_wallets (ir_commit r) = map w_id new"
    by (rule execute_iteration_Inr [OF run(3)])
  have ids: "map w_id (rd_wallets (redistribute F ps beta ws)) = map w_id ws"
    by (rule identity_maps(1) [OF identity_redistribute])
  have old: "w_id ` set (rd_wallets (redistribute F ps beta ws)) = dom (ledger V n)"
    using ids by (metis list.set_map ledger_of_dom ws(2))
  have len: "length (rd_wallets (redistribute F ps beta ws)) = card (dom (ledger V n))"
    using ids ws by (metis length_map ledger_of_dom distinct_card list.set_map)
  have dom: "dom (ledger V n') = dom (ledger V n) \<union> set (ic_new_wallets c)"
    using commit_iteration_dom(1) [OF laws run(5)] st old by (simp add: r run(4) image_Un Un_assoc [symmetric])
  have "ss_n_wallets (n_system n') = of_nat (card (dom (ledger V n)) + length (ic_new_wallets c))"
    using commit_iteration_dom(2) [OF laws run(5)] by (simp add: r run(4) len)
  then have "unat (ss_n_wallets (n_system n')) = card (dom (ledger V n)) + length (ic_new_wallets c)"
    using room by (simp add: unsigned_of_nat take_bit_nat_eq_self del: of_nat_add)
  then show ?thesis using card_Un_list [OF B(2)] by (metis dom)
qed

end
