(* ===== verification/Rewards.thy ===== *)
theory Rewards
  imports Float64_Error Economy_Props
begin

text \<open>
  The rounding analysis behind the supply equation.  Every reward is the floor of a quotient of
  binary64 numbers; nothing in the code checks that the rewards add up to at most the pool they are
  paid from.  They do when the pool times the number of wallets stays below \<open>2^52\<close>: the sum of the
  weights loses at most one half ulp per addition, the product and the quotient gain at most one
  half ulp each, and the total excess stays below one micro unit.
\<close>

lemma ulp_err_pos [simp]: "0 < ulp_err" "0 \<le> ulp_err"
  by (simp_all add: ulp_err_def)

section \<open>Summing the weights\<close>

definition weight_ok :: "f64 \<Rightarrow> bool" where
  "weight_ok w \<longleftrightarrow> nn_fin w \<and> fval w \<le> 2 ^ 64"

lemma fin_range_small: "x < 2 ^ 128 \<Longrightarrow> fin_range x"
  by (rule pow_fin_range [of x 128]) simp_all

lemma f64_sum_step:
  assumes acc: "nn_fin a" "fval a \<le> 2 ^ 66 * real k" "k < 2 ^ 52" and w: "weight_ok w"
  shows "nn_fin (f64_add a w) \<and> fval (f64_add a w) \<le> 2 ^ 66 * real (Suc k) \<and>
    (fval a + fval w) * (1 - ulp_err) \<le> fval (f64_add a w)"
proof -
  have nn: "0 \<le> fval a" "0 \<le> fval w" "fval w \<le> 2 ^ 64"
    using acc(1) w by (simp_all add: nn_fin_nonneg weight_ok_def)
  have k: "real k \<le> 2 ^ 52" using acc(3) by (metis less_imp_le of_nat_le_iff of_nat_numeral of_nat_power)
  have sum: "fval a + fval w \<le> 2 ^ 66 * real k + 2 ^ 64" using acc(2) nn by simp
  then have "fin_range (fval a + fval w)" using k by (intro fin_range_small) simp
  then have add: "nn_fin (f64_add a w)"
    "\<bar>fval (f64_add a w) - (fval a + fval w)\<bar> \<le> (fval a + fval w) * ulp_err"
    using f64_add_nn acc(1) w unfolding weight_ok_def by blast+
  have "(fval a + fval w) * ulp_err \<le> (2 ^ 66 * real k + 2 ^ 64) * ulp_err"
    using sum by (intro mult_right_mono) simp_all
  also have "\<dots> \<le> 2 ^ 65 + 2 ^ 64" using k by (simp add: ulp_err_def)
  finally have "fval (f64_add a w) \<le> 2 ^ 66 * real k + 2 ^ 64 + (2 ^ 65 + 2 ^ 64)"
    using add(2) sum by linarith
  moreover have "(fval a + fval w) * (1 - ulp_err) \<le> fval (f64_add a w)"
    using add(2) by (simp add: algebra_simps abs_le_iff)
  ultimately show ?thesis using add(1) by (simp add: algebra_simps)
qed

lemma f64_sum_acc:
  assumes "nn_fin a" "fval a \<le> 2 ^ 66 * real k" "k + length ws \<le> 2 ^ 52" "\<forall>w\<in>set ws. weight_ok w"
  shows "nn_fin (foldl f64_add a ws) \<and>
    (fval a + sum_list (map fval ws)) * (1 - ulp_err) ^ length ws \<le> fval (foldl f64_add a ws)"
  using assms
proof (induction ws arbitrary: a k)
  case Nil
  then show ?case by simp
next
  case (Cons w ws)
  have k: "k < 2 ^ 52" "Suc k + length ws \<le> 2 ^ 52" using Cons.prems(3) by simp_all
  have step: "nn_fin (f64_add a w)" "fval (f64_add a w) \<le> 2 ^ 66 * real (Suc k)"
    "(fval a + fval w) * (1 - ulp_err) \<le> fval (f64_add a w)"
    using f64_sum_step [OF Cons.prems(1,2) k(1)] Cons.prems(4) by simp_all
  let ?S = "sum_list (map fval ws)" and ?c = "1 - ulp_err"
  have c: "0 \<le> ?c" "?c \<le> 1" by (simp_all add: ulp_err_def)
  have "0 \<le> ?S" using Cons.prems(4) by (intro sum_list_nonneg) (auto simp: weight_ok_def nn_fin_nonneg)
  then have "?S * ?c \<le> ?S" using c by (simp add: mult_left_le)
  then have "(fval a + fval w + ?S) * ?c \<le> fval (f64_add a w) + ?S"
    using step(3) by (simp add: algebra_simps)
  then have "(fval a + fval w + ?S) * ?c * ?c ^ length ws \<le> (fval (f64_add a w) + ?S) * ?c ^ length ws"
    using c by (intro mult_right_mono) simp_all
  also have "\<dots> \<le> fval (foldl f64_add (f64_add a w) ws)"
    using Cons.IH [OF step(1,2) k(2)] Cons.prems(4) by simp
  finally show ?case
    using Cons.IH [OF step(1,2) k(2)] Cons.prems(4) by (simp add: algebra_simps)
qed

lemma f64_sum_lower:
  assumes "length ws \<le> 2 ^ 52" "\<forall>w\<in>set ws. weight_ok w"
  shows "nn_fin (f64_sum ws)"
    and "sum_list (map fval ws) * (1 - real (length ws) * ulp_err) \<le> fval (f64_sum ws)"
proof -
  have acc: "nn_fin (f64_sum ws)"
    "sum_list (map fval ws) * (1 - ulp_err) ^ length ws \<le> fval (f64_sum ws)"
    using f64_sum_acc [of f64_zero 0 ws] assms by (simp_all add: f64_sum_def)
  have "1 - real (length ws) * ulp_err \<le> (1 - ulp_err) ^ length ws"
    using Bernoulli_inequality [of "- ulp_err" "length ws"] by (simp add: ulp_err_def)
  moreover have "0 \<le> sum_list (map fval ws)"
    using assms(2) by (intro sum_list_nonneg) (auto simp: weight_ok_def nn_fin_nonneg)
  ultimately have "sum_list (map fval ws) * (1 - real (length ws) * ulp_err)
      \<le> sum_list (map fval ws) * (1 - ulp_err) ^ length ws" by (intro mult_left_mono)
  then show "sum_list (map fval ws) * (1 - real (length ws) * ulp_err) \<le> fval (f64_sum ws)"
    using acc(2) by linarith
  show "nn_fin (f64_sum ws)" by (rule acc(1))
qed

section \<open>One reward\<close>

lemma on_grid_nat_mult:
  assumes "nn_fin w"
  shows "on_grid (real n * fval w)"
proof -
  from assms obtain m e where "w = Fin False m e" "- 1074 \<le> e" by (auto simp: nn_fin_def wf_fin_def)
  moreover have "real n * mag m e = mag (n * m) e" by (simp add: mag_def)
  ultimately show ?thesis using grid_mag [of e "n * m"] by simp
qed

lemma f64_of_u64_exact: "unat p < 2 ^ 53 \<Longrightarrow> nn_fin (f64_of_u64 p) \<and> fval (f64_of_u64 p) = real (unat p)"
  unfolding f64_of_u64_def by (rule f64_of_nat_exact)

lemma reward_bound:
  assumes p: "unat p < 2 ^ 53" and w: "weight_ok w" and W: "nn_fin W" "0 < fval W" "fval w \<le> 2 * fval W"
  shows "real (unat (reward_of p W w)) \<le> real (unat p) * fval w * (1 + ulp_err) ^ 2 / fval W"
proof -
  let ?p = "real (unat p)" and ?x = "f64_mul (f64_of_u64 p) w"
  have p': "?p < 2 ^ 53" using p by (metis of_nat_less_iff of_nat_numeral of_nat_power)
  have w': "nn_fin w" "0 \<le> fval w" "fval w \<le> 2 ^ 64" using w by (simp_all add: weight_ok_def nn_fin_nonneg)
  have "?p * fval w \<le> 2 ^ 53 * 2 ^ 64" using p' w' by (intro mult_mono) simp_all
  then have "fin_range (?p * fval w)" by (intro fin_range_small) simp
  then have x: "nn_fin ?x" "fval ?x \<le> ?p * fval w * (1 + ulp_err)"
    using f64_mul_nn [of "f64_of_u64 p" w] f64_of_u64_exact [OF p] w'(1) on_grid_nat_mult [OF w'(1), of "unat p"]
    by (auto simp: algebra_simps abs_le_iff)
  have "fval ?x / fval W \<le> ?p * fval w * (1 + ulp_err) / fval W"
    using x(2) W(2) by (simp add: divide_right_mono)
  also have "\<dots> = ?p * (fval w / fval W) * (1 + ulp_err)" by simp
  also have "\<dots> \<le> 2 ^ 53 * 2 * 2"
    using p' w'(2) W by (intro mult_mono) (simp_all add: ulp_err_def divide_le_eq)
  finally have q: "fval ?x / fval W \<le> 2 ^ 55" by simp
  then have "fin_range (fval ?x / fval W)" by (intro fin_range_small) simp
  then have d: "nn_fin (f64_div ?x W)"
    "fval (f64_div ?x W) < 1 \<or> fval (f64_div ?x W) \<le> fval ?x / fval W * (1 + ulp_err)"
    using f64_div_nn [OF x(1) W(1,2)] by blast+
  have "fval ?x / fval W * (1 + ulp_err) \<le> 2 ^ 55 * 2"
    using q by (intro mult_mono) (simp_all add: ulp_err_def)
  then have "fval (f64_div ?x W) \<le> max 1 (2 ^ 55 * 2)" using d(2) by (elim disjE) linarith+
  then have "fval (f64_div ?x W) < 2 ^ 64" by simp
  then have r: "real (unat (reward_of p W w)) \<le> max 0 (fval (f64_div ?x W))"
    using f64_floor_u64_le [OF d(1)] by (auto simp: reward_of_def)
  have rhs: "fval ?x / fval W * (1 + ulp_err) \<le> ?p * fval w * (1 + ulp_err) ^ 2 / fval W"
    using x(2) W(2) mult_right_mono [OF x(2), of "1 + ulp_err"]
    by (simp add: power2_eq_square divide_right_mono mult.assoc)
  have nonneg: "0 \<le> ?p * fval w * (1 + ulp_err) ^ 2 / fval W"
    using w'(2) W(2)
    by (intro divide_nonneg_pos mult_nonneg_nonneg of_nat_0_le_iff zero_le_power) (simp_all add: ulp_err_def)
  show ?thesis
  proof (cases "fval (f64_div ?x W) < 1")
    case True
    then have "unat (reward_of p W w) = 0" using r by linarith
    then show ?thesis using nonneg by simp
  next
    case False
    then show ?thesis using r d(2) rhs nonneg by linarith
  qed
qed

section \<open>All rewards\<close>

lemma excess_below_one:
  fixes p n u :: real
  assumes "0 \<le> p" "0 < u" "u \<le> 1" "(p + 1) * (n + 3) * u \<le> 1 / 2"
  shows "p * (1 + u) ^ 2 < (p + 1) * (1 - n * u)"
proof -
  have "u * u \<le> 1 * u" using assms(2,3) by (intro mult_right_mono) simp_all
  then have "p * (u * u) \<le> p * u" using assms(1) by (intro mult_left_mono) simp_all
  then show ?thesis using assms(2,4) by (simp add: algebra_simps power2_eq_square)
qed

lemma quotient_below:
  fixes p c d S W :: real
  assumes "p * c < (p + 1) * d" "0 \<le> S" "S * d \<le> W" "0 < W" "0 \<le> p"
  shows "p * S * c / W < p + 1"
proof (cases "S = 0")
  case True
  then show ?thesis using assms(5) by simp
next
  case False
  then have "(p * c) * S < ((p + 1) * d) * S" using assms(1,2) by (intro mult_strict_right_mono) simp_all
  also have "\<dots> \<le> (p + 1) * W" using mult_left_mono [OF assms(3), of "p + 1"] assms(5) by (simp add: ac_simps)
  finally have "p * S * c < (p + 1) * W" by (simp add: ac_simps)
  then show ?thesis using assms(4) by (simp add: divide_less_eq)
qed

lemma sum_list_map_le: "(\<And>x. x \<in> set xs \<Longrightarrow> f x \<le> (g x :: real)) \<Longrightarrow> sum_list (map f xs) \<le> sum_list (map g xs)"
  by (rule sum_list_mono)

lemma sum_list_map_scale: "sum_list (map (\<lambda>x. a * f x * b / c) xs) = a * sum_list (map f xs) * b / (c :: real)"
  by (induction xs) (simp_all add: algebra_simps add_divide_distrib)

lemma real_sum_list_map: "real (sum_list (map f xs)) = sum_list (map (\<lambda>x. real (f x)) xs)"
  by (induction xs) simp_all

lemma small_pool:
  assumes "(p + 1) * (n + 3) \<le> (2 :: nat) ^ 52"
  shows "n \<le> 2 ^ 52" "p < 2 ^ 53" "(real p + 1) * (real n + 3) * ulp_err \<le> 1 / 2"
    "real n * ulp_err \<le> 1 / 2" "0 \<le> real n * ulp_err"
proof -
  have "1 * (n + 3) \<le> (p + 1) * (n + 3)" "(p + 1) * 1 \<le> (p + 1) * (n + 3)"
    by (rule mult_le_mono; simp)+
  then show n: "n \<le> 2 ^ 52" and "p < 2 ^ 53" using assms by simp_all
  have "(real p + 1) * (real n + 3) = real ((p + 1) * (n + 3))" by (simp add: algebra_simps)
  also have "\<dots> \<le> real (2 ^ 52)" using assms by (rule of_nat_mono)
  finally show "(real p + 1) * (real n + 3) * ulp_err \<le> 1 / 2" by (simp add: ulp_err_def)
  have "real n \<le> 2 ^ 52" using n by (metis of_nat_le_iff of_nat_numeral of_nat_power)
  then show "real n * ulp_err \<le> 1 / 2" "0 \<le> real n * ulp_err" by (simp_all add: ulp_err_def)
qed

text \<open>
  C22. The rewards paid out never exceed the pool, as long as the pool times the number of wallets is
  below \<open>2^52\<close> (45 billion AGC for a hundred thousand wallets) and the weights are finite.
\<close>

theorem rewards_fit_pool:
  assumes ok: "\<forall>w\<in>set ws. weight_ok w" and small: "(unat p + 1) * (length ws + 3) \<le> 2 ^ 52"
  shows "usum (rewards_of p ws) \<le> unat p"
proof (cases "0 < p \<and> f64_lt f64_zero (f64_sum ws)")
  case False
  then have "rewards_of p ws = map (\<lambda>_. 0) ws" by (auto simp: rewards_of_def reward_of_def)
  then show ?thesis by (simp add: map_replicate_const sum_list_replicate)
next
  case True
  let ?p = "real (unat p)" and ?n = "real (length ws)" and ?W = "fval (f64_sum ws)"
  let ?S = "sum_list (map fval ws)"
  note bounds = small_pool [OF small]
  note n = bounds(1) and p = bounds(2) and s = bounds(3) and nu = bounds(4,5)
  have W: "nn_fin (f64_sum ws)" "?S * (1 - ?n * ulp_err) \<le> ?W" by (rule f64_sum_lower [OF n ok])+
  have Wpos: "0 < ?W" using True f64_zero_lt [OF W(1)] by simp
  have nn: "\<forall>x\<in>set (map fval ws). 0 \<le> x" using ok by (auto simp: weight_ok_def nn_fin_nonneg)
  then have S: "0 \<le> ?S" by (intro sum_list_nonneg) auto
  have two: "fval w \<le> 2 * ?W" if "w \<in> set ws" for w
  proof -
    have "fval w \<le> ?S" using that nn by (intro member_le_sum_list) auto
    moreover have "?S * (1 / 2) \<le> ?S * (1 - ?n * ulp_err)" using S nu by (intro mult_left_mono) simp_all
    ultimately show ?thesis using W(2) by linarith
  qed
  have "real (usum (rewards_of p ws)) = sum_list (map (\<lambda>w. real (unat (reward_of p (f64_sum ws) w))) ws)"
    by (simp add: real_sum_list_map rewards_of_def o_def)
  also have "\<dots> \<le> sum_list (map (\<lambda>w. ?p * fval w * (1 + ulp_err) ^ 2 / ?W) ws)"
    using reward_bound [OF p _ W(1) Wpos two] ok by (intro sum_list_map_le) auto
  also have "\<dots> = ?p * ?S * (1 + ulp_err) ^ 2 / ?W" by (rule sum_list_map_scale)
  also have "\<dots> < ?p + 1"
  proof -
    have "?p * (1 + ulp_err) ^ 2 < (?p + 1) * (1 - ?n * ulp_err)"
      by (rule excess_below_one [OF of_nat_0_le_iff _ _ s]) (simp_all add: ulp_err_def)
    from quotient_below [OF this S W(2) Wpos of_nat_0_le_iff] show ?thesis .
  qed
  finally show ?thesis by linarith
qed

section \<open>The supply equation with the rounding hypothesis discharged\<close>

lemma raw_rewards_fit:
  assumes w: "\<forall>w\<in>set (reward_weights F parameters wallets). weight_ok w"
    and small: "(usum (map w_balance wallets) + 1) * (length wallets + 3) \<le> 2 ^ 52"
  shows "usum (raw_rewards F parameters beta wallets)
    \<le> unat (ps_redistribution_pool (iteration_split F parameters beta wallets))"
proof -
  let ?ps = "penalties F (p_economy parameters) (micro_seed parameters)
    (sum_list (map w_balance wallets)) (map w_balance wallets)"
  let ?pool = "ps_redistribution_pool (iteration_split F parameters beta wallets)"
  have B: "usum (map w_balance wallets) + 1 \<le> 2 ^ 52"
    using small by (metis le_add2 le_trans mult_le_mono2 nat_mult_1_right numeral_3_eq_3 add_Suc_right
      One_nat_def Suc_le_mono zero_le)
  have ps: "usum ?ps \<le> usum (map w_balance wallets)" by (rule usum_le_all2) (rule penalties_bounded)
  then have "unat (penalty_sum F parameters wallets) = usum ?ps"
    using B unfolding penalty_sum_def by (intro unat_sum_list) simp
  then have "unat ?pool \<le> usum (map w_balance wallets)"
    using ps split_pool_exact(1) unfolding iteration_split_def by (metis le_add2 le_trans)
  then have "(unat ?pool + 1) * (length wallets + 3) \<le> (usum (map w_balance wallets) + 1) * (length wallets + 3)"
    by (intro mult_le_mono1) simp
  then have "(unat ?pool + 1) * (length (reward_weights F parameters wallets) + 3) \<le> 2 ^ 52"
    using small unfolding reward_weights_def by (simp only: length_map length_penalized)
  then show ?thesis unfolding raw_rewards_def by (rule rewards_fit_pool [OF w])
qed

text \<open>
  C2. As long as the supply times the number of wallets is below \<open>2^52\<close> the supply equation D.11
  holds for every successful iteration with finite weights: no appeal to the rewards is left.
\<close>

theorem supply_equation_small_supply:
  assumes run: "execute_iteration F C wallets parameters state op = Some (Inr r)"
    and w: "\<forall>w\<in>set (reward_weights F parameters wallets). weight_ok w"
    and small: "(usum (map w_balance wallets) + 1) * (length wallets + 3) \<le> 2 ^ 52"
    and faucet: "usum (map w_balance wallets)
      + unat (iteration_planned parameters wallets) * unat (micro_seed parameters) < 2 ^ 64"
  shows "unat (ic_post_supply (ir_commit r)) + unat (ic_burned (ir_commit r))
     = unat (ic_snapshot_supply (ir_commit r)) + unat (ic_faucet_from_mint (ir_commit r))"
  using raw_rewards_fit [OF w small] by (intro iteration_supply_equation [OF run faucet]) simp

end
