(* ===== verification/Gini.thy ===== *)
theory Gini
  imports Float64_Error Economy "HOL-Library.Multiset"
begin

text \<open>
  The Gini coefficient of the specification (D.12) is a mean over all pairs of wallets; the code
  sorts the balances and uses one weighted sum.  The two integer sums agree, the \<open>u128\<close> arithmetic
  does not wrap, and the coefficient is a number in the unit interval.
\<close>

section \<open>The sorted sum and the pairwise differences\<close>

definition wsum :: "nat \<Rightarrow> nat list \<Rightarrow> int" where
  "wsum k xs = sum_list (map (\<lambda>(i, x). int (i + 1) * int x) (enumerate k xs))"

definition pair_diffs :: "nat list \<Rightarrow> int" where
  "pair_diffs xs = (\<Sum>x\<leftarrow>xs. \<Sum>y\<leftarrow>xs. \<bar>int x - int y\<bar>)"

lemma wsum_Suc: "wsum (Suc k) xs = wsum k xs + int (sum_list xs)"
  unfolding wsum_def by (induction xs arbitrary: k) (simp_all add: algebra_simps)

lemma wsum_Cons: "wsum 0 (x # xs) = int x + wsum 0 xs + int (sum_list xs)"
  using wsum_Suc [of 0 xs] by (simp add: wsum_def)

lemma sum_le_wsum: "int (sum_list xs) \<le> wsum 0 xs"
proof (induction xs)
  case Nil
  then show ?case by (simp add: wsum_def)
next
  case (Cons x xs)
  then show ?case by (simp add: wsum_Cons)
qed

lemma sum_list_diff_left:
  "\<forall>y\<in>set ys. x \<le> y \<Longrightarrow> (\<Sum>y\<leftarrow>ys. \<bar>int x - int y\<bar>) = int (sum_list ys) - int (length ys) * int x"
  by (induction ys) (auto simp: algebra_simps)

lemma pair_diffs_Cons:
  assumes "\<forall>y\<in>set ys. x \<le> y"
  shows "pair_diffs (x # ys) = pair_diffs ys + 2 * (int (sum_list ys) - int (length ys) * int x)"
proof -
  have "pair_diffs (x # ys) = (\<Sum>y\<leftarrow>ys. \<bar>int x - int y\<bar>) + ((\<Sum>y\<leftarrow>ys. \<bar>int y - int x\<bar>) + pair_diffs ys)"
    by (simp add: pair_diffs_def sum_list_addf)
  also have "(\<Sum>y\<leftarrow>ys. \<bar>int y - int x\<bar>) = (\<Sum>y\<leftarrow>ys. \<bar>int x - int y\<bar>)"
    by (simp add: abs_minus_commute)
  finally show ?thesis using sum_list_diff_left [OF assms] by simp
qed

lemma sorted_pair_diffs:
  "sorted xs \<Longrightarrow> pair_diffs xs = 2 * (2 * wsum 0 xs - int (length xs + 1) * int (sum_list xs))"
proof (induction xs)
  case Nil
  then show ?case by (simp add: pair_diffs_def wsum_def)
next
  case (Cons x xs)
  then show ?case by (simp add: pair_diffs_Cons wsum_Cons algebra_simps)
qed

lemma pair_diffs_perm: "mset xs = mset ys \<Longrightarrow> pair_diffs xs = pair_diffs ys"
proof -
  assume eq: "mset xs = mset ys"
  have "(\<Sum>x\<leftarrow>xs. f x) = (\<Sum>x\<leftarrow>ys. f x)" for f :: "nat \<Rightarrow> int"
    using eq by (metis mset_map sum_mset_sum_list)
  then show ?thesis unfolding pair_diffs_def by simp
qed

section \<open>No overflow\<close>

lemma unat_balance_total:
  assumes "length bs < 2 ^ 32"
  shows "unat (balance_total bs) = sum_list (map unat bs)"
proof -
  have each: "unat (ucast b :: u128) = unat b" for b :: u64
    by (simp add: unsigned_ucast_eq take_bit_nat_eq_self less_le_trans [OF unsigned_less])
  have "sum_list (map unat bs) \<le> length bs * 2 ^ 64"
  proof (induction bs)
    case (Cons b bs)
    then show ?case using unsigned_less [of b, where ?'a = nat] by simp
  qed simp
  also have "\<dots> < 2 ^ 32 * 2 ^ 64" using assms by simp
  finally have "sum_list (map unat bs) < 2 ^ 128" by simp
  then have "unat (sum_list (map (\<lambda>b. ucast b :: u128) bs)) = sum_list (map (\<lambda>b. unat (ucast b :: u128)) bs)"
    using unat_sum_list_small [of "map (\<lambda>b. ucast b :: u128) bs"] by (simp add: o_def each)
  then show ?thesis by (simp add: balance_total_def each o_def)
qed

lemma int_sum_list_map: "int (sum_list (map f xs)) = sum_list (map (\<lambda>x. int (f x)) xs)"
  by (induction xs) simp_all

lemma wsum_map: "wsum k (map f xs) = sum_list (map (\<lambda>(i, b). int ((i + 1) * f b)) (enumerate k xs))"
  unfolding wsum_def by (induction xs arbitrary: k) (simp_all add: algebra_simps)

lemma unat_weighted_step:
  assumes "i < 2 ^ 32"
  shows "unat ((of_nat i + 1) * (ucast (b :: u64)) :: u128) = (i + 1) * unat b"
proof -
  have b: "unat (ucast b :: u128) = unat b" "unat b < 2 ^ 64"
    using unsigned_less [of b, where ?'a = nat]
    by (simp_all add: unsigned_ucast_eq take_bit_nat_eq_self less_le_trans [OF unsigned_less])
  have i: "unat (of_nat i + 1 :: u128) = i + 1"
  proof -
    have "i < 2 ^ 128" using assms by (rule less_le_trans) simp
    then have "unat (of_nat i :: u128) = i" by (simp add: unsigned_of_nat take_bit_nat_eq_self)
    then show ?thesis using assms by (subst unat_add_small) simp_all
  qed
  have "(i + 1) * unat b < 2 ^ 32 * 2 ^ 64"
    using assms b(2) by (intro mult_le_less_imp_less) simp_all
  then show ?thesis using unat_mult_lem [of "of_nat i + 1 :: u128" "ucast b"] by (simp add: i b(1))
qed

lemma unat_weighted_total:
  assumes "length bs < 2 ^ 32"
  shows "int (unat (weighted_total bs)) = wsum 0 (map unat bs)"
proof -
  let ?f = "\<lambda>(i, b). (of_nat i + 1) * ucast b :: u128"
  let ?g = "\<lambda>(i, b). (i + 1) * unat (b :: u64)"
  have eq: "map (unat \<circ> ?f) (enumerate 0 bs) = map ?g (enumerate 0 bs)"
  proof (rule map_cong [OF refl])
    fix p assume p: "p \<in> set (enumerate 0 bs)"
    obtain i b where ib: "p = (i, b)" by (cases p)
    then have "i < 2 ^ 32" using p assms by (auto simp: in_set_enumerate_eq)
    then show "(unat \<circ> ?f) p = ?g p" using unat_weighted_step [of i b] ib by simp
  qed
  have bound: "sum_list (map ?g xs) \<le> length xs * (2 ^ 32 * 2 ^ 64)"
    if "\<forall>p\<in>set xs. fst p < 2 ^ 32" for xs
    using that
  proof (induction xs)
    case (Cons p xs)
    obtain i b where p: "p = (i, b)" by (cases p)
    have "(i + 1) * unat b \<le> 2 ^ 32 * 2 ^ 64"
      using Cons.prems p unsigned_less [of b, where ?'a = nat] by (intro mult_le_mono) simp_all
    then show ?case using Cons p by simp
  qed simp
  have "sum_list (map ?g (enumerate 0 bs)) \<le> length bs * (2 ^ 32 * 2 ^ 64)"
    using bound [of "enumerate 0 bs"] assms by (auto simp: in_set_enumerate_eq)
  also have "\<dots> < 2 ^ 32 * (2 ^ 32 * 2 ^ 64)" using assms by (intro mult_strict_right_mono) simp_all
  finally have "sum_list (map ?g (enumerate 0 bs)) < 2 ^ 128" by simp
  then have "unat (weighted_total bs) = sum_list (map ?g (enumerate 0 bs))"
    using unat_sum_list_small [of "map ?f (enumerate 0 bs)"] unfolding weighted_total_def map_map eq by simp
  also have "int \<dots> = wsum 0 (map unat bs)"
    by (simp only: int_sum_list_map wsum_map case_prod_unfold)
  finally show ?thesis .
qed

text \<open>
  C20. For fewer than \<open>2^32\<close> wallets the two \<open>u128\<close> sums the code forms from the sorted balances do
  not wrap, and twice the weighted sum less \<open>(n + 1)\<close> times the total is half the sum of all pairwise
  differences: the sorted formula is the Gini coefficient of the specification.
\<close>

theorem gini_sorted_formula:
  assumes "length bs < 2 ^ 32"
  shows "2 * (2 * int (unat (weighted_total (sort bs)))
      - int (length bs + 1) * int (unat (balance_total (sort bs))))
    = (\<Sum>x\<leftarrow>bs. \<Sum>y\<leftarrow>bs. \<bar>int (unat x) - int (unat y)\<bar>)"
proof -
  have len: "length (sort bs) < 2 ^ 32" using assms by simp
  have "sorted (map unat (sort bs))"
    by (rule sorted_map_mono) (auto simp: mono_on_def word_le_nat_alt)
  then have "pair_diffs (map unat (sort bs)) = 2 * (2 * wsum 0 (map unat (sort bs))
      - int (length bs + 1) * int (sum_list (map unat (sort bs))))"
    using sorted_pair_diffs [of "map unat (sort bs)"] by simp
  moreover have "pair_diffs (map unat (sort bs)) = pair_diffs (map unat bs)"
    by (rule pair_diffs_perm) simp
  ultimately show ?thesis
    unfolding unat_weighted_total [OF len] unat_balance_total [OF len]
    by (simp add: pair_diffs_def o_def)
qed

section \<open>The coefficient is in the unit interval\<close>

fun f64_nan_free :: "f64 \<Rightarrow> bool" where
  "f64_nan_free FNaN = False"
| "f64_nan_free _ = True"

definition in_unit :: "f64 \<Rightarrow> bool" where
  "in_unit x \<longleftrightarrow> f64_le f64_zero x \<and> f64_le x f64_one"

lemma f64_total: "f64_nan_free x \<Longrightarrow> f64_nan_free y \<Longrightarrow> \<not> f64_lt x y \<Longrightarrow> f64_le y x"
  by (cases x; cases y) (auto simp: f64_le_def min.commute)

lemma f64_consts [simp]: "f64_nan_free f64_zero" "f64_nan_free f64_one" "f64_le f64_zero f64_zero"
  "f64_le f64_one f64_one" "f64_le f64_zero f64_one"
  by (simp_all add: f64_one_eq f64_zero_def f64_le_def aligned_def signed_mag_def scale_up_def)

lemma clamp_in_unit: "f64_nan_free x \<Longrightarrow> in_unit (f64_clamp_unit x)"
  using f64_total [of x f64_zero] f64_total [of f64_one x]
  by (auto simp: f64_clamp_unit_def in_unit_def Let_def)

lemma round_nan_free [simp]: "f64_nan_free (round_ratio s n d)" "f64_nan_free (round_scaled s n e)"
  by (simp_all add: round_scaled_def round_ratio_def Let_def)

lemma sub_nan_free: "f64_nan_free (f64_sub (Fin s m e) y)" if "f64_nan_free y"
  using that by (cases y) (auto simp: f64_sub_def Let_def)

lemma on_grid_quarter: "1 / 4 \<le> x \<Longrightarrow> on_grid x"
proof -
  assume "1 / 4 \<le> x"
  moreover have "(2::real) powr - 1022 \<le> 2 powr - 2" by (intro powr_mono) simp_all
  moreover have "(2::real) powr - 2 = 1 / 4" by (simp add: powr_minus powr_numeral)
  ultimately have "2 powr - 1022 \<le> x" by linarith
  then show ?thesis by (simp add: on_grid_def)
qed

lemma fin_range_mid: "x < 2 ^ 512 \<Longrightarrow> fin_range x"
  by (rule pow_fin_range [of x 512]) simp_all

lemma f64_of_nat_nn:
  assumes "n < 2 ^ 128"
  shows "nn_fin (f64_of_nat n)" and "real n / 2 \<le> fval (f64_of_nat n)" and "fval (f64_of_nat n) \<le> 2 ^ 129"
proof -
  have "real n < real (2 ^ 128)" using assms by (simp only: of_nat_less_iff)
  then have n: "real n < 2 ^ 128" by simp
  then have fin: "fin_range (real n / real 1)" by (intro fin_range_mid) simp
  have grid: "on_grid (real n / real 1)"
  proof (cases "n = 0")
    case True
    then have "real n / real 1 = real (0::nat) * 2 powr - 1074" by simp
    then show ?thesis unfolding on_grid_def by blast
  next
    case False
    then show ?thesis by (intro on_grid_quarter) simp
  qed
  obtain m e where r: "f64_of_nat n = Fin False m e" "wf_fin m e"
    "\<bar>mag m e - real n\<bar> \<le> real n * ulp_err"
    using round_ratio_rel [OF _ fin grid, of False] by (auto simp: f64_of_nat_def)
  have "real n * ulp_err \<le> real n * (1 / 2)" by (intro mult_left_mono) (simp_all add: ulp_err_def)
  then show "real n / 2 \<le> fval (f64_of_nat n)" "fval (f64_of_nat n) \<le> 2 ^ 129"
    using r(1,3) n by (simp_all add: abs_le_iff)
  show "nn_fin (f64_of_nat n)" using r by (auto simp: nn_fin_def)
qed

lemma f64_of_nat_pos:
  assumes "n < 2 ^ 128" "0 < n"
  shows "nn_fin (f64_of_nat n) \<and> 1 / 2 \<le> fval (f64_of_nat n) \<and> fval (f64_of_nat n) \<le> 2 ^ 129"
proof -
  have "1 \<le> real n" using assms(2) by simp
  then show ?thesis using f64_of_nat_nn [OF assms(1)] by linarith
qed

lemma f64_mul_mid:
  assumes "nn_fin x" "nn_fin y" "fval x \<le> 2 ^ 129" "fval y \<le> 2 ^ 129" "1 / 2 \<le> fval x" "1 / 2 \<le> fval y"
  shows "nn_fin (f64_mul x y) \<and> 1 / 8 \<le> fval (f64_mul x y) \<and> fval (f64_mul x y) \<le> 2 ^ 259"
proof -
  have lo: "1 / 2 * (1 / 2) \<le> fval x * fval y" using assms by (intro mult_mono) simp_all
  have hi: "fval x * fval y \<le> 2 ^ 129 * 2 ^ 129" using assms by (intro mult_mono) simp_all
  have "fin_range (fval x * fval y)" using hi by (intro fin_range_mid) simp
  moreover have "on_grid (fval x * fval y)" using lo by (intro on_grid_quarter) simp
  ultimately have m: "nn_fin (f64_mul x y)"
    "\<bar>fval (f64_mul x y) - fval x * fval y\<bar> \<le> fval x * fval y * ulp_err"
    using f64_mul_nn assms(1,2) by blast+
  have "fval x * fval y * ulp_err \<le> fval x * fval y * (1 / 2)"
    using lo by (intro mult_left_mono) (simp_all add: ulp_err_def)
  then have "1 / 8 \<le> fval (f64_mul x y)" "fval (f64_mul x y) \<le> 2 * (fval x * fval y)"
    using m(2) lo by (simp_all add: abs_le_iff)
  then show ?thesis using m(1) hi by simp
qed

lemma f64_div_mid:
  assumes "nn_fin x" "nn_fin y" "fval x \<le> 2 ^ 259" "1 / 8 \<le> fval y"
  shows "nn_fin (f64_div x y)"
proof -
  have "fval x / fval y \<le> 2 ^ 259 / (1 / 8)"
    using assms nn_fin_nonneg [OF assms(1)] by (intro frac_le) simp_all
  then have "fin_range (fval x / fval y)" by (intro fin_range_mid) simp
  then show ?thesis using f64_div_nn [OF assms(1,2)] assms(4) by simp
qed

lemma nn_fin_Fin: "nn_fin x \<Longrightarrow> \<exists>m e. x = Fin False m e"
  by (auto simp: nn_fin_def)

lemma nn_fin_nan_free: "nn_fin x \<Longrightarrow> f64_nan_free x"
  by (auto simp: nn_fin_def)

lemma gini_bounded:
  assumes "length wallets < 2 ^ 32"
  shows "in_unit (compute_gini wallets)"
proof -
  define bs where "bs = sort (map w_balance wallets)"
  have len: "length bs < 2 ^ 32" using assms by (simp add: bs_def)
  show ?thesis
  proof (cases "wallets = [] \<or> balance_total bs = 0")
    case True
    then show ?thesis
      by (auto simp: compute_gini_def compute_gini_from_balances_def bs_def Let_def in_unit_def)
  next
    case False
    then have l0: "0 < length bs" by (simp add: bs_def)
    let ?n = "f64_of_nat (length bs)" and ?T = "f64_of_u128 (balance_total bs)"
      and ?W = "f64_of_u128 (weighted_total bs)" and ?two = "f64_of_nat 2"
    have u128: "unat (x :: u128) < 2 ^ 128" for x using unsigned_less [of x, where ?'a = nat] by simp
    have n: "nn_fin ?n" "1 / 2 \<le> fval ?n" "fval ?n \<le> 2 ^ 129"
      using f64_of_nat_pos [of "length bs"] len l0 by simp_all
    have T0: "0 < unat (balance_total bs)" using False by (simp add: unat_gt_0)
    then have T: "nn_fin ?T" "1 / 2 \<le> fval ?T" "fval ?T \<le> 2 ^ 129"
      using f64_of_nat_pos [OF u128, of "balance_total bs"] unfolding f64_of_u128_def by simp_all
    have "int (unat (balance_total bs)) \<le> int (unat (weighted_total bs))"
      unfolding unat_weighted_total [OF len] unat_balance_total [OF len] by (rule sum_le_wsum)
    then have "0 < unat (weighted_total bs)" using T0 by linarith
    then have W: "nn_fin ?W" "1 / 2 \<le> fval ?W" "fval ?W \<le> 2 ^ 129"
      using f64_of_nat_pos [OF u128, of "weighted_total bs"] unfolding f64_of_u128_def by simp_all
    have two: "nn_fin ?two" "1 / 2 \<le> fval ?two" "fval ?two \<le> 2 ^ 129"
      using f64_of_nat_pos [of 2] by simp_all
    have num: "nn_fin (f64_mul ?two ?W)" "fval (f64_mul ?two ?W) \<le> 2 ^ 259"
      and den: "nn_fin (f64_mul ?n ?T)" "1 / 8 \<le> fval (f64_mul ?n ?T)"
      using f64_mul_mid two W n T by blast+
    obtain m e where q: "f64_div (f64_mul ?two ?W) (f64_mul ?n ?T) = Fin False m e"
      using nn_fin_Fin [OF f64_div_mid [OF num(1) den(1) num(2) den(2)]] by blast
    have one: "nn_fin f64_one" "fval f64_one = 1"
      using f64_of_nat_exact [of 1] by (simp_all add: f64_one_def)
    have "fin_range (fval ?n + fval f64_one)" using n one by (intro fin_range_mid) simp
    then have add: "nn_fin (f64_add ?n f64_one)"
      "fval (f64_add ?n f64_one) \<le> (fval ?n + 1) + (fval ?n + 1) * ulp_err"
      using f64_add_nn [OF n(1) one(1)] one(2) by (auto simp: abs_le_iff)
    have "(fval ?n + 1) * ulp_err \<le> (2 ^ 129 + 1) * 1"
      using n by (intro mult_mono) (simp_all add: ulp_err_def)
    then have "fval (f64_add ?n f64_one) \<le> (2 ^ 129 + 1) + (2 ^ 129 + 1) * 1" using add(2) n(3) by linarith
    also have "\<dots> \<le> 2 ^ 259" by simp
    finally have "fval (f64_add ?n f64_one) \<le> 2 ^ 259" .
    then have "nn_fin (f64_div (f64_add ?n f64_one) ?n)"
      using add(1) n by (intro f64_div_mid) simp_all
    then have "f64_nan_free (f64_sub (f64_div (f64_mul ?two ?W) (f64_mul ?n ?T))
        (f64_div (f64_add ?n f64_one) ?n))"
      unfolding q by (intro sub_nan_free nn_fin_nan_free)
    then show ?thesis
      using False clamp_in_unit
      by (simp add: compute_gini_def compute_gini_from_balances_def bs_def [symmetric] Let_def)
  qed
qed

text \<open>
  C21. The Gini coefficient of fewer than \<open>2^32\<close> wallets is never NaN and lies between 0 and 1.
\<close>

theorem gini_in_unit_interval:
  assumes "length wallets < 2 ^ 32"
  shows "in_unit (compute_gini wallets)"
  using assms by (rule gini_bounded)

end
