(* ===== verification/Witnesses.thy ===== *)
theory Witnesses
  imports Reference Rewards Gini Rate_Limits
begin

text \<open>
  Concrete inputs at which the hypotheses of the properties on hashes, economics and guards hold.
\<close>

section \<open>Hashes and keys\<close>

lemma ref_decode:
  "list_all ascii_hexdigit s \<Longrightarrow> s \<noteq> [] \<Longrightarrow> even (length s) \<Longrightarrow>
     decode_bytes ref_crypto s = ok_or ''hex decode failed'' (ref_hex_decode s)"
  by (simp add: decode_bytes_def trim_hex ref_crypto_def)

lemma char_codes [simp]:
  "char_of (170 :: nat) = CHR 0xAA" "char_of (10 :: nat) = CHR 0x0A" "char_of (80 :: nat) = CHR ''P''"
  "char_of (79 :: nat) = CHR ''O''" "char_of (83 :: nat) = CHR ''S''" "char_of (84 :: nat) = CHR ''T''"
  by code_simp+

lemma ref_decode_aa: "decode_bytes ref_crypto ''aa'' = Inr [CHR 0xAA]"
  "decode_bytes ref_crypto ''AA'' = Inr [CHR 0xAA]"
  by (simp_all add: ref_decode ascii_hexdigit_def hex_value_def)

lemma merkle_root_binding_witness:
  "\<exists>r. merkle_root_hex ref_crypto [''aa''] = Inr r \<and> merkle_root_hex ref_crypto [''AA''] = Inr r \<and>
     (map (decode_bytes ref_crypto) [''aa''] = map (decode_bytes ref_crypto) [''AA'']
      \<or> collision_among ref_crypto (merkle_inputs ref_crypto [''aa''] @ merkle_inputs ref_crypto [''AA'']))"
proof -
  obtain r where r: "merkle_root_hex ref_crypto [''aa''] = Inr r" "merkle_root_hex ref_crypto [''AA''] = Inr r"
    by (simp add: merkle_root_hex_def ref_decode_aa)
  show ?thesis using r merkle_root_binding [OF ref_hex_laws _ r] by simp
qed

lemma merkle_root_duplicate_last_witness:
  "merkle_root_hex ref_crypto ([''aa'', ''bb''] @ [''cc'']) = merkle_root_hex ref_crypto ([''aa'', ''bb''] @ [''cc'', ''cc''])"
  by (rule merkle_root_duplicate_last) simp_all

lemma normalize_canonical_witness:
  "normalize_bytes_to_hex ref_crypto (cl_hex_encode ref_crypto (replicate 32 (CHR 0x07))) 32
     = Inr (cl_hex_encode ref_crypto (replicate 32 (CHR 0x07)))
   \<and> length (cl_hex_encode ref_crypto (replicate 32 (CHR 0x07))) = 64"
proof -
  have n: "normalize_bytes_to_hex ref_crypto (cl_hex_encode ref_crypto (replicate 32 (CHR 0x07))) 32
     = Inr (cl_hex_encode ref_crypto (replicate 32 (CHR 0x07)))"
    using normalize_hex [OF ref_hex_laws, of "replicate 32 (CHR 0x07)"] by simp
  show ?thesis using normalize_canonical [OF ref_hex_laws n] by simp
qed

lemma canonical_request_injective_witness:
  "map ascii_upper ''post'' = map ascii_upper ''POST'' \<and> ''/a'' = ''/a'' \<and> (5 :: i64) = 5 \<and> ''b'' = ''b''"
  by (rule canonical_request_injective) (simp_all add: newline_def canonical_request_message_def ascii_upper_def)

definition demo_entry :: poh_entry where
  "demo_entry = \<lparr>pe_tick = 1, pe_prev_hash = ZERO_HASH_HEX,
     pe_hash = poh_hash ref_crypto ZERO_HASH_HEX 1 ZERO_HASH_HEX ''v'', pe_tx_root = ZERO_HASH_HEX,
     pe_tx_ids = [], pe_leader_id = ''v'', pe_leader_sig = [], pe_wall_clock = 0\<rparr>"

lemma demo_entry_built: "build_entry ref_crypto 0 1 ZERO_HASH_HEX [] ''v'' None = Inr demo_entry"
  by (simp add: build_entry_def merkle_root_hex_def demo_entry_def)

lemma build_entry_verifies_witness: "verify_chain ref_crypto ZERO_HASH_HEX demo_entry = Inr True"
  by (rule build_entry_verifies [OF demo_entry_built])

lemma chain_anchor_binding_witness:
  "map entry_content [demo_entry] = map entry_content [demo_entry]
   \<or> collision_among ref_crypto (chain_inputs [demo_entry] @ chain_inputs [demo_entry])"
proof (rule chain_anchor_binding [OF ref_hex_laws])
  show "length ZERO_HASH_HEX = 64" by (simp add: ZERO_HASH_HEX_def)
  show "chain_from ref_crypto ZERO_HASH_HEX [demo_entry]" "chain_from ref_crypto ZERO_HASH_HEX [demo_entry]"
    by (simp_all add: verify_chain_def demo_entry_def merkle_root_hex_def)
qed simp_all

section \<open>The drift test\<close>

lemma drift_test_witness: "\<not> drifted 60000 5 (5 - 0x8000000000000000)"
  using drift_test [of 5 60000] by (simp add: sane_time_def)

section \<open>Economics\<close>

lemma f64_one_weight: "weight_ok f64_one"
  using f64_of_nat_exact [of 1] by (simp add: weight_ok_def f64_one_def)

lemma rewards_fit_pool_witness: "usum (rewards_of 10 [f64_one, f64_one, f64_one]) \<le> 10"
  using rewards_fit_pool [of "[f64_one, f64_one, f64_one]" 10] by (simp add: f64_one_weight)

lemma gini_sorted_formula_witness:
  "2 * (2 * int (unat (weighted_total (sort [3, 1, 2]))) - 4 * int (unat (balance_total (sort [3, 1, 2])))) = 8"
  using gini_sorted_formula [of "[3, 1, 2]"] by simp

text \<open>An economy whose rates are zero or one, so that an iteration can be evaluated.\<close>

definition plain_economy :: economy_parameters where
  "plain_economy = default_economy
     \<lparr>ep_penalty_rate := f64_one, ep_target_penalty_share_of_supply := f64_zero, ep_burn_base := f64_zero, ep_burn_min := f64_zero,
      ep_burn_sensitivity := f64_zero, ep_burn_max := f64_one, ep_target_inflation_per_iter := f64_zero,
      ep_faucet_share_of_penalty := f64_zero, ep_redistribution_active_min := f64_one,
      ep_redistribution_active_max := f64_one, ep_activity_ema_lambda := f64_zero,
      ep_inverse_balance_weight := f64_zero\<rparr>"

definition plain_parameters :: system_parameters where
  "plain_parameters = default_parameters
     \<lparr>p_economy := plain_economy, p_growth := default_growth\<lparr>gp_growth_factor_per_iteration := f64_zero\<rparr>\<rparr>"

definition plain_wallet :: wallet where
  "plain_wallet = \<lparr>w_id = ''w'', w_pubkey = ''w'', w_balance = 1000, w_nonce = 0, w_created_at_tick = 0,
     w_created_at_iteration = 0, w_created_by_operator = ''o'', w_iteration_tx_count = 0,
     w_iteration_counterparties = {}, w_last_active_iteration = 0, w_activity_score = f64_one\<rparr>"

lemma zero_one [simp]:
  "f64_sub f64_zero f64_zero = f64_zero" "f64_sub f64_one f64_one = f64_zero" "f64_sub f64_one f64_zero = f64_one"
  "f64_add f64_zero f64_zero = f64_zero" "f64_add f64_zero f64_one = f64_one" "f64_add f64_one f64_zero = f64_one"
  "f64_mul f64_zero f64_zero = f64_zero" "f64_mul f64_zero f64_one = f64_zero" "f64_mul f64_one f64_zero = f64_zero"
  "f64_mul f64_one f64_one = f64_one" "f64_clamp_unit f64_zero = f64_zero" "f64_clamp_unit f64_one = f64_one"
  "f64_clamp f64_zero f64_zero f64_one = Some f64_zero" "\<not> f64_lt f64_zero f64_zero"
  "f64_max f64_one f64_zero = f64_one" "f64_to_u64 (f64_floor f64_zero) = 0" "f64_of_u64 1 = f64_one"
  by (simp_all add: f64_clamp_unit_def f64_one_eq f64_eval)

lemma plain_fields [simp]:
  "p_economy plain_parameters = plain_economy"
  "planned_new_wallets (p_growth plain_parameters) 1 = 0"
  "burn_rate plain_economy (iteration_inflation default_system_state) = Some f64_zero"
  by (simp_all add: plain_parameters_def plain_economy_def planned_new_wallets_def burn_rate_def
      iteration_inflation_def default_system_state_def)

lemma plain_run:
  "\<exists>r. execute_iteration plain_floats const_crypto [plain_wallet] plain_parameters default_system_state oid
     = Some (Inr r)"
  by (simp add: execute_iteration_def faucet_wallets_def iteration_commit_hash_def Let_def)

lemma plain_score: "w_activity_score (apply_penalty plain_economy plain_wallet p) = f64_one"
  by (simp add: apply_penalty_def raw_activity_def plain_economy_def plain_wallet_def Let_def)

lemma plain_weight: "w_activity_score w = f64_one \<Longrightarrow> reward_weight plain_floats plain_economy w = f64_one"
  by (simp add: reward_weight_def plain_economy_def Let_def)

lemma plain_weights: "reward_weights plain_floats plain_parameters [plain_wallet] = [f64_one]"
proof -
  define ps where "ps = penalties plain_floats plain_economy (micro_seed plain_parameters)
      (w_balance plain_wallet) [w_balance plain_wallet]"
  have "length ps = 1" by (simp add: ps_def)
  then obtain p where "ps = [p]" by (auto simp: length_Suc_conv)
  then have "penalties plain_floats plain_economy (micro_seed plain_parameters) (w_balance plain_wallet)
      [w_balance plain_wallet] = [p]" by (simp add: ps_def)
  then have "penalized plain_floats plain_parameters [plain_wallet] = [apply_penalty plain_economy plain_wallet p]"
    by (simp add: penalized_def Let_def)
  then show ?thesis by (simp add: reward_weights_def plain_weight plain_score)
qed

lemma supply_equation_small_supply_witness:
  "\<exists>r. execute_iteration plain_floats const_crypto [plain_wallet] plain_parameters default_system_state ''o''
      = Some (Inr r) \<and>
     unat (ic_post_supply (ir_commit r)) + unat (ic_burned (ir_commit r))
       = unat (ic_snapshot_supply (ir_commit r)) + unat (ic_faucet_from_mint (ir_commit r))"
proof -
  obtain r where r: "execute_iteration plain_floats const_crypto [plain_wallet] plain_parameters
      default_system_state ''o'' = Some (Inr r)"
    using plain_run by blast
  have "w_balance plain_wallet = 1000" "iteration_planned plain_parameters [plain_wallet] = 0"
    by (simp_all add: plain_wallet_def iteration_planned_def)
  then show ?thesis
    using r supply_equation_small_supply [OF r] by (simp add: plain_weights f64_one_weight)
qed

lemma gini_in_unit_interval_witness:
  "in_unit (compute_gini [plain_wallet, plain_wallet\<lparr>w_balance := 0\<rparr>])"
  by (rule gini_in_unit_interval) simp

end
