(* ===== verification/History.thy ===== *)
theory History
  imports Ledger_Props
begin

text \<open>
  The transaction history of a wallet: what is appended to the log can be looked up under every
  wallet it concerns, as long as the wallet has no more transactions than the caller asks for.
\<close>

definition index_entries :: "('t, 'b) store_view \<Rightarrow> 't coin_storage \<Rightarrow> wallet_id \<Rightarrow> (bytes \<times> 'b) list" where
  "index_entries V st wid = filter (\<lambda>(k, b). prefix (wid @ '':'') k) (vw_tree V (cs_tx_by_wallet st))"

definition indexed :: "('t, 'b) store_view \<Rightarrow> hash \<Rightarrow> bytes \<Rightarrow> 't coin_storage \<Rightarrow> bool" where
  "indexed V txid k st \<longleftrightarrow> (\<exists>b. tree_map V (cs_tx_by_wallet st) k = Some b \<and> vw_text V b = Some txid)"

lemma index_key_prefix: "prefix (wid @ '':'') (index_key wid tick txid)"
  by (simp add: index_key_def)

lemma insert_indexed:
  assumes laws: "store_laws E V" and "sl_insert E (cs_tx_by_wallet st) k (sl_raw E txid) = Inr t"
  shows "indexed V txid k' (st\<lparr>cs_tx_by_wallet := t\<rparr>) \<longleftrightarrow> k' = k \<or> indexed V txid k' st"
proof -
  have "tree_map V t = (tree_map V (cs_tx_by_wallet st))(k \<mapsto> sl_raw E txid)"
    using store_lawsD(1) [OF laws] assms(2) by (simp add: tree_laws_def)
  moreover have "vw_text V (sl_raw E txid) = Some txid"
    using store_lawsD(8) [OF laws] by (simp add: codec_law_def)
  ultimately show ?thesis by (auto simp: indexed_def)
qed

lemma put_index_indexed:
  assumes laws: "store_laws E V"
  shows "put_index E txid tick wids st = (Inr u, st') \<Longrightarrow> wid \<in> set wids \<or> indexed V txid (index_key wid tick txid) st \<Longrightarrow>
    indexed V txid (index_key wid tick txid) st'"
proof (induction wids arbitrary: st)
  case (Cons w wids)
  obtain t where t: "sl_insert E (cs_tx_by_wallet st) (index_key w tick txid) (sl_raw E txid) = Inr t"
    "put_index E txid tick wids (st\<lparr>cs_tx_by_wallet := t\<rparr>) = (Inr u, st')"
    using Cons.prems(1) by (auto split: sum.splits)
  show ?case
    using Cons.prems(2) by (intro Cons.IH [OF t(2)]) (auto simp: insert_indexed [OF laws t(1)])
qed simp

lemma listed_ids:
  assumes laws: "store_laws E V"
    and ids: "collect_results (map (\<lambda>item. and_then item (\<lambda>kv. sl_from_utf8 E (snd kv)))
      (sl_scan_prefix E (cs_tx_by_wallet st) (wid @ '':''))) = Inr ids"
  shows "length ids = length (index_entries V st wid)"
    and "indexed V txid k st \<Longrightarrow> prefix (wid @ '':'') k \<Longrightarrow> txid \<in> set ids"
proof -
  have "yields (sl_scan_prefix E (cs_tx_by_wallet st) (wid @ '':'')) (index_entries V st wid)"
    using store_lawsD(1) [OF laws] by (simp add: tree_laws_def index_entries_def)
  then have all: "list_all2 (\<lambda>kv i. sl_from_utf8 E (snd kv) = Inr i) (index_entries V st wid) ids"
    using ids by (rule yields_collect)
  then show "length ids = length (index_entries V st wid)" by (simp add: list_all2_lengthD)
  assume "indexed V txid k st" "prefix (wid @ '':'') k"
  then obtain b where b: "(k, b) \<in> set (index_entries V st wid)" "vw_text V b = Some txid"
    by (auto simp: indexed_def index_entries_def dest: map_of_SomeD)
  then obtain i where "i \<in> set ids" "sl_from_utf8 E b = Inr i"
    using all by (fastforce simp: list_all2_conv_all_nth in_set_conv_nth)
  then show "txid \<in> set ids"
    using store_lawsD(8) [OF laws] b(2) by (auto simp: codec_law_def)
qed

lemma set_take_all: "length xs \<le> m \<Longrightarrow> set (take m (rev (sort xs))) = set xs"
  by simp

lemma listed_transaction:
  assumes laws: "store_laws E V" and listed: "list_transactions_for_wallet E st wid limit = Inr txs"
    and few: "length (index_entries V st wid) \<le> limit"
    and idx: "indexed V txid k st" "prefix (wid @ '':'') k" and tx: "tx_contents V st txid = Some c"
  shows "\<exists>t\<in>set txs. tx_core t = c"
proof -
  obtain ids found where ids: "collect_results (map (\<lambda>item. and_then item (\<lambda>kv. sl_from_utf8 E (snd kv)))
      (sl_scan_prefix E (cs_tx_by_wallet st) (wid @ '':''))) = Inr ids"
    and found: "collect_results (map (get_transaction E st) (take limit (rev (sort ids)))) = Inr found"
    and txs: "txs = List.map_filter id found"
    using listed by (auto simp: list_transactions_for_wallet_def step_simps)
  have "txid \<in> set (take limit (rev (sort ids)))"
    using listed_ids [OF laws ids] idx few set_take_all [of ids limit] by simp
  moreover have "map Inr found = map (get_transaction E st) (take limit (rev (sort ids)))"
    using found unfolding collect_results_Inr by simp
  ultimately obtain r where r: "get_transaction E st txid = Inr r" "r \<in> set found"
    by (metis (no_types, lifting) image_iff list.set_map)
  then have "map_option tx_core r = Some c"
    using get_json_view [OF store_lawsD(1) [OF laws] store_lawsD(4) [OF laws]] tx
    unfolding get_transaction_def tx_contents_def by metis
  then obtain t where "r = Some t" "tx_core t = c" by auto
  then show ?thesis using r(2) by (auto simp: txs map_filter_def intro!: bexI [of _ t] image_eqI [of _ _ "Some t"])
qed

text \<open>
  C16. A transaction that was appended is in the history of every wallet it concerns, as long as the
  wallet has no more entries than the limit of the query (the floats of an iteration commit may
  come back rounded).
\<close>

theorem history_lists_transaction:
  assumes laws: "store_laws E V" and app: "append_tx_locked E C now tx n = (Inr u, n')"
    and "wid \<in> set (wallet_ids tx)" "length (index_entries V (n_storage n') wid) \<le> limit"
    and listed: "list_transactions_for_wallet E (n_storage n') wid limit = Inr txs"
  shows "\<exists>t\<in>set txs. tx_core t = tx_core tx"
proof -
  let ?tick = "sat_add (ss_current_tick (n_system n)) 1"
  obtain e st1 st2 where st1: "put_transaction E tx ?tick (n_storage n) = (Inr (), st1)"
    and st2: "put_poh_entry E e st1 = (Inr (), st2)" and n': "n_storage n' = st2"
    using app by (auto simp: append_tx_locked_def step_simps)
  obtain t1 where t1: "put_index E (tx_id tx) ?tick (wallet_ids tx) ((n_storage n)\<lparr>cs_transactions := t1\<rparr>) = (Inr (), st1)"
    using st1 by (auto simp: put_transaction_def split: sum.splits)
  have "indexed V (tx_id tx) (index_key wid ?tick (tx_id tx)) st1"
    using put_index_indexed [OF laws t1] assms(3) by blast
  moreover have "cs_tx_by_wallet st2 = cs_tx_by_wallet st1"
    using st2 by (auto simp: put_poh_entry_def split: sum.splits)
  ultimately have "indexed V (tx_id tx) (index_key wid ?tick (tx_id tx)) st2" by (simp add: indexed_def)
  moreover have "tx_contents V st2 (tx_id tx) = Some (tx_core tx)"
    using put_transaction_Inr(1) [OF laws st1] put_poh_entry_Inr(3) [OF laws st2] by simp
  ultimately show ?thesis
    using listed_transaction [OF laws listed [unfolded n'] _ _ index_key_prefix] assms(4) n' by simp
qed

end
