(* ===== verification/Node_Witnesses.thy ===== *)
theory Node_Witnesses
  imports Faults Guards History Reference
begin

text \<open>
  Concrete nodes at which the hypotheses of the properties on the node hold: one started on an
  empty in-memory database, and one with two wallets.
\<close>

section \<open>A fresh node\<close>

definition demo_config :: node_config where
  "demo_config = \<lparr>nc_parameters = default_parameters, nc_db_path = ''db'', nc_snapshot_path = ''snap'',
     nc_operator_secret = Some ''00'', nc_operator_public_key = Some ''00'', nc_validator_endpoint = ''x''\<rparr>"

definition empty_trees :: "mem_tree coin_storage" where
  "empty_trees = \<lparr>cs_wallets = [], cs_operators = [], cs_validators = [], cs_transactions = [],
     cs_poh_log = [], cs_tx_by_wallet = [], cs_iterations = [], cs_system = [], cs_snapshot_path = ''snap''\<rparr>"

definition fresh_demo :: "mem_tree node" where
  "fresh_demo = \<lparr>n_storage = empty_trees
      \<lparr>cs_operators := [(''00'', BOperator (genesis_operator ''00'' ''00''))],
       cs_validators := [(''00'', BValidator (genesis_validator ''00'' ''00'' ''x'' 0))],
       cs_system := [(''parameters'', BParameters default_parameters), (''state'', BState default_system_state)]\<rparr>,
     n_parameters = default_parameters, n_system = default_system_state, n_operator_secret = Some ''00'',
     n_operator_public_key = ''00'', n_operator_id = ''00'', n_validator_id = ''00'',
     n_simulation = \<lparr>sim_running = False, sim_mode = ''idle'', sim_iterations_executed = 0\<rparr>,
     n_seen_operator_sigs = Map.empty, n_rate_wallet_create = Map.empty, n_rate_wallet_tx = Map.empty\<rparr>"

lemmas storage_eval =
  load_parameters_def load_state_def get_json_def put_json_def store_parameters_def store_state_def
  put_operator_def put_validator_def put_wallet_def get_wallet_def put_transaction_def put_poh_entry_def
  storage_flush_def ref_store_def normal_tree_def sorted_keys_def

lemma fresh_demo_boot:
  "boot ref_store const_crypto (\<lambda>_. None) demo_config empty_trees = (Inr fresh_demo, n_storage fresh_demo)"
  by (simp add: boot_def storage_eval bindE_def demo_config_def empty_trees_def fresh_demo_def
      operator_secret_of_def operator_key_of_def or_else_def Let_def
      genesis_operator_def genesis_validator_def default_system_state_def)

lemma fresh_demo_node: "fresh_node ref_store const_crypto ref_view fresh_demo"
proof -
  have "empty_storage ref_view empty_trees"
    by (simp add: empty_storage_def empty_trees_def ref_view_def normal_tree_def sorted_keys_def)
  then show ?thesis using fresh_demo_boot unfolding fresh_node_def by blast
qed

lemma default_seed: "micro_seed default_parameters = 10000000"
  by (simp add: micro_seed_def default_parameters_def default_economy_def MICRO_AGC_PER_AGC_def sat_mul_def)

definition demo_request :: wallet_create_request where
  "demo_request = \<lparr>wr_public_key = ''00'', wr_captcha_token = ''00'', wr_timestamp = 0, wr_metadata = []\<rparr>"

definition demo_operator :: operator where
  "demo_operator = genesis_operator ''00'' ''00''"

abbreviation demo_create :: job where
  "demo_create \<equiv> JCreate default_parameters ''00'' ''00'' demo_request demo_operator ''00''"

lemma demo_admits: "admits const_crypto fresh_demo demo_create fresh_demo"
proof -
  have "prepare_create const_crypto (n_parameters fresh_demo) demo_request = Inr (''00'', ''00'')"
    by (simp add: prepare_create_def demo_request_def)
  from admits.create [OF this, of demo_operator "''00''"] show ?thesis by (simp add: fresh_demo_def)
qed

lemma demo_run:
  "\<exists>n. run_job ref_store const_crypto F clock demo_create fresh_demo = (Inr True, n)
     \<and> ss_current_tick (n_system n) = 1"
  by (simp add: fresh_demo_def empty_trees_def discard_def create_wallet_locked_def bindE_def check_unlocked_def
      fetch_def store_def storage_eval append_tx_locked_def build_entry_def poh_hash_def sign_with_secret_hex_def
      fixed_32_def mint_tx_id_def seed_mint_def set_system_def store_system_def default_system_state_def
      count_new_wallet_def demo_operator_def genesis_operator_def next_tick_def default_seed Let_def
      requireE_def map_err_def fresh_wallet_def sat_add_def)

section \<open>A node with two wallets\<close>

definition demo_wallet :: "wallet_id \<Rightarrow> wallet" where
  "demo_wallet wid = fresh_wallet wid ''00'' 1000 0 0 ''00''"

definition demo_pair :: "mem_tree node" where
  "demo_pair = fresh_demo
     \<lparr>n_storage := (n_storage fresh_demo)
        \<lparr>cs_wallets := [(''00'', BWallet (demo_wallet ''00'')), (''01'', BWallet (demo_wallet ''01''))]\<rparr>,
      n_system := default_system_state
        \<lparr>ss_total_supply := 2000, ss_n_wallets := 2, ss_n_active_wallets := 2,
         ss_last_poh_hash := ZERO_HASH_HEX\<rparr>\<rparr>"

definition demo_transfer :: transfer_request where
  "demo_transfer = \<lparr>tr_from = ''00'', tr_to = ''01'', tr_amount = 100, tr_nonce = 0, tr_timestamp = 0,
     tr_sender_pubkey = ''00'', tr_user_sig = ''ff''\<rparr>"

definition demo_burn :: burn_request where
  "demo_burn = \<lparr>br_from = ''00'', br_amount = 100, br_nonce = 0, br_timestamp = 0,
     br_sender_pubkey = ''00'', br_user_sig = ''ff''\<rparr>"

definition demo_charge :: charge_request where
  "demo_charge = \<lparr>cr_to = ''01'', cr_amount = 100, cr_eur_amount = 1, cr_timestamp = 0\<rparr>"

lemma demo_pair_ledger:
  "ledger ref_view demo_pair = [''00'' \<mapsto> wallet_core (demo_wallet ''00''), ''01'' \<mapsto> wallet_core (demo_wallet ''01'')]"
  by (rule ext) (simp add: wallet_contents_def demo_pair_def fresh_demo_def ref_view_def normal_tree_def
      sorted_keys_def)

lemma demo_pair_ids: "ids_ok (ledger ref_view demo_pair)"
  unfolding demo_pair_ledger by (simp add: ids_ok_def demo_wallet_def)

lemma demo_prepare: "prepare_transfer const_crypto default_security demo_transfer = Inr (''00'', ''00'')"
  by (simp add: prepare_transfer_def demo_transfer_def transfer_tx_id_def verify_user_signature_def ensure_def
      default_security_def)


section \<open>The ledger operations\<close>

lemma demo_pair_unlocked: "\<not> ss_iteration_lock (n_system demo_pair)"
  by (simp add: demo_pair_def default_system_state_def)

lemma transfer_refines_spec_witness:
  "refines ref_view demo_pair
     (spec_transfer (ss_current_iteration (n_system demo_pair)) demo_transfer (ledger ref_view demo_pair))
     (transfer_locked ref_store const_crypto 0 demo_transfer ''00'' ''00'' demo_pair)"
  by (rule transfer_refines_spec [OF ref_store_laws demo_pair_ids])

lemma burn_refines_spec_witness:
  "refines ref_view demo_pair
     (spec_burn (ss_current_iteration (n_system demo_pair)) demo_burn (ledger ref_view demo_pair))
     (burn_locked ref_store const_crypto 0 demo_burn ''00'' ''00'' demo_pair)"
  by (rule burn_refines_spec [OF ref_store_laws demo_pair_ids])

lemma charge_refines_spec_witness:
  "refines ref_view demo_pair (spec_charge demo_charge (ledger ref_view demo_pair))
     (charge_locked ref_store const_crypto 0 demo_charge demo_operator ''ff'' demo_pair)"
  by (rule charge_refines_spec [OF ref_store_laws demo_pair_ids])

lemma create_wallet_refines_spec_witness:
  "refines ref_view fresh_demo
     (spec_create
        \<lparr>w_id = ''00'', w_pubkey = ''00'', w_balance = micro_seed default_parameters, w_nonce = 0,
         w_created_at_tick = ss_current_tick (n_system fresh_demo) + 1,
         w_created_at_iteration = ss_current_iteration (n_system fresh_demo), w_created_by_operator = op_id demo_operator,
         w_iteration_tx_count = 0, w_iteration_counterparties = {},
         w_last_active_iteration = ss_current_iteration (n_system fresh_demo), w_activity_score = f64_zero\<rparr>
        (ledger ref_view fresh_demo))
     (create_wallet_locked ref_store const_crypto 0 default_parameters ''00'' ''00'' demo_request demo_operator ''ff''
        fresh_demo)"
  by (rule create_wallet_refines_spec [OF ref_store_laws])

section \<open>Reachable states\<close>

lemma demo_calm: "calm ref_store const_crypto plain_floats ref_view (\<lambda>_. 0) demo_create fresh_demo n"
  by (simp add: headroom_def fresh_demo_def default_system_state_def default_seed)

lemma demo_reaches:
  assumes "run_job ref_store const_crypto plain_floats (\<lambda>_. 0) demo_create fresh_demo = (Inr True, n)"
  shows "(node_step ref_store const_crypto plain_floats ref_view)\<^sup>*\<^sup>* (fresh_demo, []) (n, [])"
proof -
  let ?step = "node_step ref_store const_crypto plain_floats ref_view"
  have "?step (fresh_demo, []) (fresh_demo, [demo_create])" by (rule plain_steps(1) [OF demo_admits])
  moreover have "?step (fresh_demo, [demo_create]) (n, remove1 demo_create [demo_create])"
    using assms demo_calm by (intro plain_steps(7)) simp_all
  ultimately show ?thesis by simp
qed

lemma demo_steps:
  "\<exists>n. (node_step ref_store const_crypto plain_floats ref_view)\<^sup>*\<^sup>* (fresh_demo, []) (n, []) \<and>
     ss_current_tick (n_system n) = 1"
  using demo_run [of plain_floats "\<lambda>_. 0"] demo_reaches by blast

lemma reachable_books_witness:
  "\<exists>n :: mem_tree node. ss_current_tick (n_system n) = 1 \<and> unat (ss_total_supply (n_system n))
      = (\<Sum>k\<in>dom (ledger ref_view n). unat (w_balance (the (ledger ref_view n k))))"
proof -
  obtain n where n: "(node_step ref_store const_crypto plain_floats ref_view)\<^sup>*\<^sup>* (fresh_demo, []) (n, [])"
    "ss_current_tick (n_system n) = 1"
    using demo_steps by blast
  show ?thesis using n(2) reachable_books [OF ref_store_laws fresh_demo_node n(1)] by blast
qed

lemma reachable_log_verifies_witness:
  "\<exists>(n :: mem_tree node) es. chain_from const_crypto ZERO_HASH_HEX es \<and> length es = 1
     \<and> ss_last_poh_hash (n_system n) = chain_end ZERO_HASH_HEX es"
proof -
  obtain n where n: "(node_step ref_store const_crypto plain_floats ref_view)\<^sup>*\<^sup>* (fresh_demo, []) (n, [])"
    "ss_current_tick (n_system n) = 1"
    using demo_steps by blast
  show ?thesis
    using reachable_log_verifies [OF ref_store_laws fresh_demo_node n(1)] unfolding n(2) unat_1 by blast
qed

section \<open>Authentication and the iteration lock\<close>

lemma operator_request_authentic_witness:
  "verify_ed25519 const_crypto ''00'' (canonical_request_message ''POST'' ''/charge'' 5 ''{}'') ''ff'' = Inr True
   \<and> verify_operator_request ref_store const_crypto 7 ''POST'' ''/charge'' ''{}'' (Some 5) (Some ''ff'')
        None (Some ''00'') True fresh_demo = Inr demo_operator"
proof -
  have ok: "verify_operator_request ref_store const_crypto 7 ''POST'' ''/charge'' ''{}'' (Some 5) (Some ''ff'')
        None (Some ''00'') True fresh_demo = Inr demo_operator"
    by (simp add: verify_operator_request_def fresh_demo_def default_parameters_def default_security_def
        drifted_def i64_gt_def i64_abs_def ensure_def request_public_key_def get_operator_def get_json_def
        ref_store_def normal_tree_def sorted_keys_def demo_operator_def genesis_operator_def
        operator_active_def)
  show ?thesis
    using ok operator_request_authentic [OF ok]
    by (simp add: demo_operator_def genesis_operator_def fresh_demo_def default_parameters_def default_security_def)
qed

lemma transfer_authentic_witness: "wallet_id_from_public_key const_crypto ''00'' = Inr (tr_from demo_transfer)"
  using transfer_authentic [OF demo_prepare] by (simp add: demo_transfer_def)

definition bad_parameters :: system_parameters where
  "bad_parameters = default_parameters
     \<lparr>p_economy := default_economy\<lparr>ep_burn_min := f64_one, ep_burn_max := f64_zero\<rparr>\<rparr>"

lemma panic_locks_node_forever_witness:
  "\<exists>n'. iteration_locked ref_store const_crypto plain_floats 0 bad_parameters fresh_demo = (Inr None, n') \<and>
    (\<forall>j clock. run_job ref_store const_crypto plain_floats clock j n' = (Inl IterationInProgress, n'))"
proof -
  have bad: "\<not> f64_le (ep_burn_min (p_economy bad_parameters)) (ep_burn_max (p_economy bad_parameters))"
    by (simp add: bad_parameters_def f64_one_def f64_eval)
  have un: "\<not> ss_iteration_lock (n_system fresh_demo)"
    by (simp add: fresh_demo_def default_system_state_def)
  obtain st where st: "store_state ref_store (lock_system fresh_demo) (n_storage fresh_demo) = (Inr (), st)"
    "cs_wallets st = []"
    by (simp add: store_state_def put_json_def ref_store_def fresh_demo_def empty_trees_def)
  have ws: "list_wallets ref_store st = Inr []"
    by (simp add: list_wallets_def scan_values_def ref_store_def st(2) normal_tree_def)
  show ?thesis using panic_locks_node_forever [OF ref_store_laws un bad st(1) ws] by blast
qed

section \<open>A transfer runs once\<close>

lemma demo_wallet_fields [simp]:
  "w_id (demo_wallet k) = k" "w_balance (demo_wallet k) = 1000" "w_nonce (demo_wallet k) = 0"
  "w_last_active_iteration (demo_wallet k) = 0"
  by (simp_all add: demo_wallet_def fresh_wallet_def)

lemma demo_pair_system [simp]:
  "ss_total_supply (n_system demo_pair) = 2000" "ss_n_wallets (n_system demo_pair) = 2"
  "ss_n_active_wallets (n_system demo_pair) = 2" "ss_current_iteration (n_system demo_pair) = 0"
  "ss_current_tick (n_system demo_pair) = 0" "ss_last_poh_hash (n_system demo_pair) = ZERO_HASH_HEX"
  by (simp_all add: demo_pair_def default_system_state_def)

lemma demo_pair_inv: "node_inv const_crypto ref_view (demo_pair, [JTransfer demo_transfer ''00'' ''00''])"
proof -
  have act: "active_in 0 (ledger ref_view demo_pair) = {''00'', ''01''}"
    by (auto simp: active_in_def demo_pair_ledger split: if_splits)
  have "finite (dom (ledger ref_view demo_pair))" "supply_of (ledger ref_view demo_pair) = 2000"
    "card (dom (ledger ref_view demo_pair)) = 2"
    by (simp_all add: demo_pair_ledger supply_of_def)
  moreover have "\<forall>k w. ledger ref_view demo_pair k = Some w \<longrightarrow> w_last_active_iteration w \<le> 0"
    by (auto simp: demo_pair_ledger split: if_splits)
  ultimately have "books (ledger ref_view demo_pair) (n_system demo_pair)"
    unfolding books_def using demo_pair_ids act by simp
  moreover have "log_ok const_crypto ref_view demo_pair []"
    by (auto simp: log_ok_def log_of_def poh_contents_def demo_pair_def fresh_demo_def
        empty_trees_def ref_view_def normal_tree_def sorted_keys_def default_system_state_def)
  ultimately show ?thesis
    unfolding node_inv_def by (auto simp: demo_transfer_def)
qed

lemma demo_pair_run:
  "\<exists>n. run_job ref_store const_crypto plain_floats (\<lambda>_. 0) (JTransfer demo_transfer ''00'' ''00'') demo_pair = (Inr True, n)"
  by (simp add: demo_pair_def fresh_demo_def empty_trees_def discard_def transfer_locked_def bindE_def
      check_unlocked_def need_wallet_def fetch_def store_def storage_eval append_tx_locked_def build_entry_def
      poh_hash_def sign_with_secret_hex_def fixed_32_def set_system_def store_system_def
      default_system_state_def next_tick_def Let_def requireE_def map_err_def demo_transfer_def
      transfer_tx_of_def demo_wallet_def fresh_wallet_def debit_transfer_def credit_transfer_def)

lemma transfer_not_replayable_witness:
  "\<exists>n. run_job ref_store const_crypto plain_floats (\<lambda>_. 0) (JTransfer demo_transfer ''00'' ''00'') demo_pair = (Inr True, n) \<and>
     (\<forall>resp. fst (transfer_locked ref_store const_crypto 0 demo_transfer ''00'' ''00'' n) \<noteq> Inr resp)"
proof -
  let ?j = "JTransfer demo_transfer ''00'' ''00''"
  obtain n where n: "run_job ref_store const_crypto plain_floats (\<lambda>_. 0) ?j demo_pair = (Inr True, n)"
    using demo_pair_run by blast
  have calm: "calm ref_store const_crypto plain_floats ref_view (\<lambda>_. 0) ?j demo_pair n"
    by (simp add: headroom_def nonce_room_def demo_pair_ledger)
  have j: "?j \<in> set [?j]" by simp
  show ?thesis
    using n transfer_not_replayable [OF ref_store_laws demo_pair_inv j n calm rtranclp.rtrancl_refl refl refl] by blast
qed

section \<open>A restart\<close>

lemma demo_restart:
  "\<exists>n. run_job ref_store const_crypto F clock demo_create fresh_demo = (Inr True, n) \<and>
     ss_current_tick (n_system n) = 1 \<and>
     (\<exists>n' st'. boot ref_store const_crypto (\<lambda>_. None) demo_config (n_storage n) = (Inr n', st'))"
  by (simp add: fresh_demo_def empty_trees_def discard_def create_wallet_locked_def bindE_def check_unlocked_def
      fetch_def store_def storage_eval append_tx_locked_def build_entry_def poh_hash_def sign_with_secret_hex_def
      fixed_32_def mint_tx_id_def seed_mint_def set_system_def store_system_def default_system_state_def
      count_new_wallet_def demo_operator_def genesis_operator_def next_tick_def default_seed Let_def
      requireE_def map_err_def fresh_wallet_def sat_add_def
      boot_def demo_config_def operator_secret_of_def operator_key_of_def or_else_def)

lemma restart_resumes_witness:
  "\<exists>n n' st'. ss_current_tick (n_system n) = 1 \<and>
     boot ref_store const_crypto (\<lambda>_. None) demo_config (n_storage n) = (Inr n', st') \<and>
     ledger ref_view n' = ledger ref_view n \<and> state_core (n_system n') = state_core (n_system n)"
proof -
  obtain n n' st' where n: "run_job ref_store const_crypto plain_floats (\<lambda>_. 0) demo_create fresh_demo = (Inr True, n)"
    "ss_current_tick (n_system n) = 1"
    "boot ref_store const_crypto (\<lambda>_. None) demo_config (n_storage n) = (Inr n', st')"
    using demo_restart [of plain_floats "\<lambda>_. 0"] by blast
  have "plain_step ref_store const_crypto plain_floats ref_view (fresh_demo, []) (fresh_demo, [demo_create])"
    by (rule plain_step.admit [OF demo_admits])
  then have "settled ref_store const_crypto plain_floats ref_view fresh_demo (fresh_demo, [demo_create])"
    by (rule settled.step [OF settled.start])
  moreover have "plain_step ref_store const_crypto plain_floats ref_view (fresh_demo, [demo_create]) (n, remove1 demo_create [demo_create])"
    using demo_calm n(1) by (intro plain_step.run) simp_all
  ultimately have "settled ref_store const_crypto plain_floats ref_view fresh_demo (n, [])"
    using settled.step by fastforce
  from restart_resumes [OF ref_store_laws fresh_demo_node this n(3)] show ?thesis using n(2,3) by auto
qed

section \<open>A refused seed file\<close>

definition demo_seed :: seed_file where
  "demo_seed = \<lparr>sf_metadata = ''{}'', sf_initial_wallets =
     [\<lparr>sw_public_key = ''00'', sw_initial_balance = Some 5\<rparr>, \<lparr>sw_public_key = ''ff'', sw_initial_balance = None\<rparr>],
     sf_scripted_events = []\<rparr>"

lemma const_refused: "\<exists>m. normalize_bytes_to_hex const_crypto ''ff'' 32 = Inl m"
  by (simp add: normalize_bytes_to_hex_def)

lemma demo_seed_run:
  "\<exists>e n. install_seed_locked ref_store const_crypto (\<lambda>_. 0) 7 demo_seed fresh_demo = (Inl e, n) \<and>
     \<not> is_internal e \<and> ledger ref_view n ''00'' \<noteq> None \<and>
     (\<exists>n' st'. boot ref_store const_crypto (\<lambda>_. None) demo_config (n_storage n) = (Inr n', st'))"
proof -
  obtain m where "normalize_bytes_to_hex const_crypto ''ff'' 32 = Inl m" using const_refused by blast
  then show ?thesis
    by (simp add: fresh_demo_def empty_trees_def demo_seed_def install_seed_locked_def install_seed_entry_def bindE_def
      check_unlocked_def fetch_def store_def storage_eval append_tx_locked_def build_entry_def poh_hash_def
      sign_with_secret_hex_def fixed_32_def mint_tx_id_def bootstrap_mint_def set_system_def default_system_state_def
      count_new_wallet_def next_tick_def Let_def requireE_def map_err_def fresh_wallet_def sat_add_def
      ref_view_def wallet_contents_def
      boot_def demo_config_def operator_secret_of_def operator_key_of_def or_else_def)
qed

lemma refused_seed_breaks_restart_witness:
  "\<exists>e n n' st'. install_seed_locked ref_store const_crypto (\<lambda>_. 0) 7 demo_seed fresh_demo = (Inl e, n) \<and>
     boot ref_store const_crypto (\<lambda>_. None) demo_config (n_storage n) = (Inr n', st') \<and>
     unat (ss_n_wallets (n_system n')) < card (dom (ledger ref_view n'))"
proof -
  obtain e n n' st' where n: "install_seed_locked ref_store const_crypto (\<lambda>_. 0) 7 demo_seed fresh_demo = (Inl e, n)"
    "\<not> is_internal e" "ledger ref_view n ''00'' \<noteq> None"
    "boot ref_store const_crypto (\<lambda>_. None) demo_config (n_storage n) = (Inr n', st')"
    using demo_seed_run by blast
  have inv: "node_inv const_crypto ref_view (fresh_demo, [])" by (rule fresh_node_inv [OF ref_store_laws fresh_demo_node])
  have kept: "persisted ref_view fresh_demo" by (rule boot_persists [OF ref_store_laws fresh_demo_boot])
  have hash: "ss_last_poh_hash (n_system fresh_demo) \<noteq> []"
    by (simp add: fresh_demo_def default_system_state_def)
  have room: "headroom ref_view fresh_demo (sum_list (map (seed_amount 7) (sf_initial_wallets demo_seed)))
      (length (sf_initial_wallets demo_seed))"
    by (simp add: headroom_def fresh_demo_def default_system_state_def demo_seed_def seed_amount_def)
  have "ledger ref_view fresh_demo = Map.empty"
    by (simp add: fresh_demo_def empty_trees_def ref_view_def wallet_contents_def fun_eq_iff normal_tree_def sorted_keys_def)
  then have grew: "dom (ledger ref_view n) \<noteq> dom (ledger ref_view fresh_demo)" using n(3) by auto
  show ?thesis
    using refused_seed_breaks_restart [OF ref_store_laws inv kept hash n(1,2) room grew n(4)] n(1,4) by blast
qed

section \<open>Guards\<close>

definition demo_events :: "guard_event list" where
  "demo_events = [AskTransfer 0 ''00'', AskTransfer 1 ''01'', AskCreate 1 ''::1'', AskTransfer 2 ''00'',
     AskCharge 3 demo_charge ''aa'']"

lemma demo_asked:
  "asked (transfer_time ''00'') demo_events = [0, 2]" "asked (create_time ''::1'') demo_events = [1]"
  "asked charge_time demo_events = [3]" "length demo_events = 5"
  by (simp_all add: asked_def demo_events_def List.map_filter_simps demo_charge_def)

lemma demo_guards:
  "n_rate_wallet_tx fresh_demo = Map.empty" "n_rate_wallet_create fresh_demo = Map.empty"
  "n_seen_operator_sigs fresh_demo = Map.empty" "n_parameters fresh_demo = default_parameters"
  "p_security default_parameters = default_security"
  "sp_rate_limit_tx_per_wallet_per_minute default_security = 60"
  "sp_rate_limit_wallet_per_ip_per_day default_security = 5" "sp_timestamp_drift_ms default_security = 60000"
  by (simp_all add: fresh_demo_def default_parameters_def default_security_def)

abbreviation demo_step :: "guard_event \<Rightarrow> mem_tree node \<Rightarrow> bool \<times> mem_tree node" where
  "demo_step \<equiv> guard_step ref_store const_crypto plain_floats"

lemma transfers_per_minute_witness:
  "length (filter (in_window 60000 2) (passed (transfer_time ''00'') (outcomes demo_step demo_events fresh_demo))) \<le> 60"
proof -
  have "sorted (map sint (asked (transfer_time ''00'') demo_events))" "list_all sane_time (asked (transfer_time ''00'') demo_events)"
    "length demo_events < 2 ^ 63" "n_rate_wallet_tx fresh_demo ''00'' = None"
    by (simp_all add: demo_asked sane_time_def demo_guards)
  then show ?thesis
    using transfers_per_minute [of fresh_demo "''00''" demo_events ref_store const_crypto plain_floats]
    by (simp add: demo_guards)
qed

lemma wallet_creations_per_day_witness:
  "length (filter (in_window 86400000 2) (passed (create_time ''::1'') (outcomes demo_step demo_events fresh_demo))) \<le> 5"
proof -
  have "sorted (map sint (asked (create_time ''::1'') demo_events))" "list_all sane_time (asked (create_time ''::1'') demo_events)"
    "length demo_events < 2 ^ 63" "n_rate_wallet_create fresh_demo ''::1'' = None"
    by (simp_all add: demo_asked sane_time_def demo_guards)
  then show ?thesis
    using wallet_creations_per_day [of fresh_demo "''::1''" demo_events ref_store const_crypto plain_floats]
    by (simp add: demo_guards)
qed

lemma replay_refused_until_drift_witness:
  "fst (prepare_charge 4 demo_charge ''ff'' (after demo_step demo_events (snd (prepare_charge 0 demo_charge ''ff'' fresh_demo))))
     = Inl InvalidSignature \<and>
   fst (prepare_charge 70000 demo_charge ''ff'' (after demo_step demo_events (snd (prepare_charge 0 demo_charge ''ff'' fresh_demo))))
     = Inr ()"
proof -
  have first: "prepare_charge 0 demo_charge ''ff'' fresh_demo = (Inr (), snd (prepare_charge 0 demo_charge ''ff'' fresh_demo))"
    by (simp add: prepare_charge_def demo_charge_def bindE_def requireE_def guard_operator_replay_eq replay_check_def demo_guards)
  have drift: "i64_max 60000 0 = 60000" "\<not> drifted 60000 3 0" "\<not> drifted 60000 4 0" "drifted 60000 70000 0"
    by (simp_all add: i64_max_def drifted_def i64_gt_def i64_abs_def)
  have charge: "cr_timestamp demo_charge = 0" "cr_amount demo_charge \<noteq> 0" by (simp_all add: demo_charge_def)
  have between: "\<forall>t\<in>set (asked charge_time demo_events).
      \<not> drifted (i64_max (sp_timestamp_drift_ms (p_security (n_parameters fresh_demo))) 0) t (cr_timestamp demo_charge)"
    by (simp add: demo_asked demo_guards drift charge)
  note refused = replay_refused_until_drift [OF first between charge(2), where E = ref_store and C = const_crypto and F = plain_floats]
  show ?thesis using refused [of 4] refused [of 70000] by (simp add: demo_guards drift charge)
qed

section \<open>The history of a wallet\<close>

lemma demo_history:
  "\<exists>n txs. append_tx_locked ref_store const_crypto 0 (burn_tx_of ''00'' ''00'' demo_burn) demo_pair = (Inr (), n) \<and>
     length (index_entries ref_view (n_storage n) ''00'') = 1 \<and>
     list_transactions_for_wallet ref_store (n_storage n) ''00'' 100 = Inr txs"
  by (simp add: demo_pair_def fresh_demo_def empty_trees_def append_tx_locked_def bindE_def store_def storage_eval
      build_entry_def poh_hash_def sign_with_secret_hex_def fixed_32_def set_system_def default_system_state_def
      Let_def map_err_def burn_tx_of_def demo_burn_def index_entries_def ref_view_def list_transactions_for_wallet_def
      get_transaction_def index_key_def mem_prefix_def sat_add_def)

lemma history_lists_transaction_witness:
  "\<exists>n txs. append_tx_locked ref_store const_crypto 0 (burn_tx_of ''00'' ''00'' demo_burn) demo_pair = (Inr (), n) \<and>
     list_transactions_for_wallet ref_store (n_storage n) ''00'' 100 = Inr txs \<and>
     (\<exists>t\<in>set txs. tx_core t = burn_tx_of ''00'' ''00'' demo_burn)"
proof -
  obtain n txs where n: "append_tx_locked ref_store const_crypto 0 (burn_tx_of ''00'' ''00'' demo_burn) demo_pair = (Inr (), n)"
    "length (index_entries ref_view (n_storage n) ''00'') = 1"
    "list_transactions_for_wallet ref_store (n_storage n) ''00'' 100 = Inr txs"
    using demo_history by blast
  have "''00'' \<in> set (wallet_ids (burn_tx_of ''00'' ''00'' demo_burn))"
    "length (index_entries ref_view (n_storage n) ''00'') \<le> 100"
    using n(2) by (simp_all add: burn_tx_of_def demo_burn_def)
  from history_lists_transaction [OF ref_store_laws n(1) this n(3)] show ?thesis
    using n by (auto simp: burn_tx_of_def)
qed

end
