(* ===== verification/Accounting.thy ===== *)
theory Accounting
  imports Iteration
begin

text \<open>
  What an iteration does to each wallet, and that its commit record accounts for it: the recorded
  penalty and reward of a wallet explain its new balance exactly, residual included.
\<close>

lemma sat_add_assoc: "sat_add (sat_add a b) c = sat_add a (sat_add b c)"
  by (rule word_unat_eq_iff [THEN iffD2]) (auto simp: unat_sat_add min_def)

lemma settle_pointwise:
  assumes "settle_residual policy residual burned (map2 apply_reward ws rs) rs = (ws', rs', burned')"
    and "length rs = length ws"
  shows "length ws' = length ws \<and> length rs' = length ws \<and>
    (\<forall>i<length ws. w_balance (ws' ! i) = sat_add (w_balance (ws ! i)) (rs' ! i))"
proof (cases policy)
  case BurnResidual
  then show ?thesis using assms by (auto simp: settle_residual_def apply_reward_def)
next
  case GenesisWallet
  then show ?thesis
    using assms
    by (cases ws; cases rs) (auto simp: settle_residual_def apply_reward_def sat_add_assoc nth_Cons split: nat.splits)
qed

lemma redistribute_pointwise:
  fixes F parameters beta wallets
  defines "rd \<equiv> redistribute F parameters beta wallets"
  shows "length (rd_wallets rd) = length wallets" and "length (rd_rewards rd) = length wallets"
    and "list_all2 (\<le>) (rd_penalties rd) (map w_balance wallets)"
    and "i < length wallets \<Longrightarrow>
      w_balance (rd_wallets rd ! i) = sat_add (sat_sub (w_balance (wallets ! i)) (rd_penalties rd ! i)) (rd_rewards rd ! i)"
proof -
  let ?ec = "p_economy parameters" and ?bs = "map w_balance wallets"
  let ?ws = "penalized F parameters wallets" and ?rs = "raw_rewards F parameters beta wallets"
  have pens: "rd_penalties rd = penalties F ?ec (micro_seed parameters) (sum_list ?bs) ?bs"
    by (simp add: rd_def redistribute_def Let_def split: prod.splits)
  then show "list_all2 (\<le>) (rd_penalties rd) ?bs" using penalties_bounded by simp
  obtain ws' rs' burned' where st: "settle_residual (ep_residual_policy ?ec)
      (sat_sub (ps_redistribution_pool (iteration_split F parameters beta wallets)) (fold (\<lambda>r d. sat_add d r) ?rs 0))
      (ps_burned_base (iteration_split F parameters beta wallets)) (map2 apply_reward ?ws ?rs) ?rs = (ws', rs', burned')"
    by (metis prod_cases3)
  have parts: "rd_wallets rd = ws'" "rd_rewards rd = rs'" using st by (simp_all add: rd_def redistribute_parts)
  have w1: "w_balance (?ws ! i) = sat_sub (w_balance (wallets ! i)) (rd_penalties rd ! i)" if "i < length wallets"
    using that by (simp add: pens penalized_def apply_penalty_def Let_def)
  show "length (rd_wallets rd) = length wallets" "length (rd_rewards rd) = length wallets"
    using settle_pointwise [OF st] parts by simp_all
  show "w_balance (rd_wallets rd ! i) = sat_add (sat_sub (w_balance (wallets ! i)) (rd_penalties rd ! i)) (rd_rewards rd ! i)"
    if "i < length wallets"
    using settle_pointwise [OF st] parts w1 [OF that] that by simp
qed

text \<open>
  C7. The commit of an iteration explains every balance: it lists one penalty and one reward per
  wallet, in order; the penalty is at most the balance, and the new balance is the old one less the
  penalty plus the reward, cut at the largest \<open>u64\<close>.  Ids, keys, nonces, last activity and age are kept,
  and the only other wallets are the planned faucet wallets, which the commit lists.
\<close>

theorem commit_explains_balances:
  assumes "execute_iteration F C wallets parameters state op = Some (Inr r)"
  shows "map fst (ic_penalties (ir_commit r)) = map w_id wallets
    \<and> map fst (ic_rewards (ir_commit r)) = map w_id wallets
    \<and> (\<forall>i<length wallets.
        snd (ic_penalties (ir_commit r) ! i) \<le> w_balance (wallets ! i) \<and>
        unat (w_balance (ir_wallets r ! i)) =
          min (2 ^ 64 - 1) (unat (w_balance (wallets ! i)) - unat (snd (ic_penalties (ir_commit r) ! i))
            + unat (snd (ic_rewards (ir_commit r) ! i))))
    \<and> map identity (take (length wallets) (ir_wallets r)) = map identity wallets
    \<and> map w_id (drop (length wallets) (ir_wallets r)) = ic_new_wallets (ir_commit r)
    \<and> map w_balance (drop (length wallets) (ir_wallets r))
        = replicate (unat (iteration_planned parameters wallets)) (micro_seed parameters)"
proof -
  obtain beta new where new: "faucet_wallets C state op (ss_current_iteration state + 1) (micro_seed parameters)
       (iteration_planned parameters wallets) = Inr new"
    and r: "ir_wallets r = rd_wallets (redistribute F parameters beta wallets) @ new"
      "ic_penalties (ir_commit r) = zip (map w_id wallets) (rd_penalties (redistribute F parameters beta wallets))"
      "ic_rewards (ir_commit r) = zip (map w_id wallets) (rd_rewards (redistribute F parameters beta wallets))"
      "ic_new_wallets (ir_commit r) = map w_id new"
    by (rule execute_iteration_Inr [OF assms])
  note rd = redistribute_pointwise [where F = F and parameters = parameters and beta = beta and wallets = wallets]
  have len: "length (rd_penalties (redistribute F parameters beta wallets)) = length wallets"
    using list_all2_lengthD [OF rd(3)] by simp
  have le: "rd_penalties (redistribute F parameters beta wallets) ! i \<le> w_balance (wallets ! i)"
    if "i < length wallets" for i
    using list_all2_nthD [OF rd(3), of i] that len by simp
  have "map w_balance new = replicate (unat (iteration_planned parameters wallets)) (micro_seed parameters)"
    using faucet_wallets_balances(2,3) [OF new] by (intro replicate_eqI) auto
  then show ?thesis
    using rd(1,2,4) len le identity_redistribute [of F parameters beta wallets]
    by (simp add: r nth_append unat_sat_add unat_sat_sub word_le_nat_alt)
qed

end
