(* ===== verification/Rest.thy ===== *)
theory Rest
  imports Auth
begin

text \<open>
  \<open>crates/aggora-rest/src/lib.rs\<close>: the HTTP interface.  A handler takes the node to a reply and the
  node after the request, run without interruption; how concurrent requests interleave inside a
  handler is the subject of \<open>Chain\<close>.  What axum and serde_json do is the parameter \<open>rest_lib\<close>: matching
  a path against a route pattern, reading a header value as text, decoding a JSON body.  A reply is
  an answer of a handler, axum's own refusal (no route, a path segment of the wrong type) or the
  loss of the connection after a panic, or the switch to a web socket, whose messages are those of
  \<open>events_loop\<close>.  \<open>HEAD\<close> requests, which axum answers as \<open>GET\<close> without a body, are left out.
\<close>

section \<open>The libraries\<close>

record rest_lib =
  rl_to_str :: "bytes \<Rightarrow> bytes option"
  rl_match :: "bytes \<Rightarrow> bytes \<Rightarrow> bytes list option"
  rl_upgrades :: "(bytes \<rightharpoonup> bytes) \<Rightarrow> bool"
  rl_path_u64 :: "bytes \<Rightarrow> u64 option"
  rl_wallet_create :: "bytes \<Rightarrow> bytes + wallet_create_request"
  rl_charge :: "bytes \<Rightarrow> bytes + charge_request"
  rl_transfer :: "bytes \<Rightarrow> bytes + transfer_request"
  rl_burn :: "bytes \<Rightarrow> bytes + burn_request"
  rl_parameters :: "bytes \<Rightarrow> bytes + system_parameters"
  rl_simulation_start :: "bytes \<Rightarrow> bytes + u64 option"

type_synonym header_map = "bytes \<rightharpoonup> bytes"

section \<open>Answers\<close>

datatype api_data =
    DHealth
  | DOperator operator_id public_key
  | DWalletCreated wallet_create_response
  | DAccepted tx_accepted_response
  | DWallet wallet
  | DTransactions "transaction list"
  | DTransaction transaction
  | DGenesis
  | DIteration iteration_commit
  | DIterationId iteration_id
  | DStats stats_response
  | DGini "gini_point list"
  | DSupply "supply_point list"
  | DParameters system_parameters
  | DSimulation simulation_status
  | DSnapshot snapshot

record api_error_body =
  ae_code :: bytes
  ae_message :: bytes

record api_response =
  ar_success :: bool
  ar_data :: "api_data option"
  ar_error :: "api_error_body option"
  ar_tick :: tick
  ar_iteration :: iteration_id

record response =
  rs_status :: nat
  rs_body :: api_response

datatype reply = Answer response | Rejected | Crashed | Upgraded

text \<open>The envelopes of \<open>ok\<close> and \<open>error\<close>, with tick and iteration of the node as it is then.\<close>

definition ok_response :: "nat \<Rightarrow> api_data \<Rightarrow> 't node \<Rightarrow> reply \<times> 't node" where
  "ok_response status data n =
     (Answer \<lparr>rs_status = status, rs_body = \<lparr>ar_success = True, ar_data = Some data, ar_error = None,
        ar_tick = ss_current_tick (n_system n), ar_iteration = ss_current_iteration (n_system n)\<rparr>\<rparr>, n)"

definition error_response :: "nat \<Rightarrow> bytes \<Rightarrow> bytes \<Rightarrow> 't node \<Rightarrow> reply \<times> 't node" where
  "error_response status code message n =
     (Answer \<lparr>rs_status = status, rs_body = \<lparr>ar_success = False, ar_data = None,
        ar_error = Some \<lparr>ae_code = code, ae_message = message\<rparr>,
        ar_tick = ss_current_tick (n_system n), ar_iteration = ss_current_iteration (n_system n)\<rparr>\<rparr>, n)"

text \<open>The texts of \<open>#[error(...)]\<close>.\<close>

fun error_message :: "state_error \<Rightarrow> bytes" where
  "error_message InvalidSignature = ''invalid signature''"
| "error_message InvalidNonce = ''invalid nonce''"
| "error_message InsufficientBalance = ''insufficient balance''"
| "error_message WalletNotFound = ''wallet not found''"
| "error_message OperatorUnauthorized = ''operator unauthorized''"
| "error_message WalletAlreadyExists = ''wallet already exists''"
| "error_message IterationInProgress = ''iteration in progress''"
| "error_message RateLimitExceeded = ''rate limit exceeded''"
| "error_message (BadRequest m) = ''bad request: '' @ m"
| "error_message (Internal m) = m"

fun error_status :: "state_error \<Rightarrow> nat" where
  "error_status InvalidSignature = 401"
| "error_status OperatorUnauthorized = 403"
| "error_status InvalidNonce = 400"
| "error_status InsufficientBalance = 400"
| "error_status (BadRequest m) = 400"
| "error_status WalletAlreadyExists = 400"
| "error_status WalletNotFound = 404"
| "error_status IterationInProgress = 409"
| "error_status RateLimitExceeded = 429"
| "error_status (Internal m) = 500"

definition state_error_response :: "state_error \<Rightarrow> 't node \<Rightarrow> reply \<times> 't node" where
  "state_error_response e n = error_response (error_status e) (error_code e) (error_message e) n"

text \<open>
  \<open>match outcome { Ok(a) => ok(...), Err(err) => state_error(...) }\<close>, and the same for a read of the
  storage, whose error is an \<open>Internal\<close> one.
\<close>

definition answer ::
  "(state_error + 'a) \<times> 't node \<Rightarrow> ('a \<Rightarrow> 't node \<Rightarrow> reply \<times> 't node) \<Rightarrow> reply \<times> 't node"
where
  "answer outcome k =
     (case outcome of (Inl e, n) \<Rightarrow> state_error_response e n | (Inr a, n) \<Rightarrow> k a n)"

definition decoded ::
  "(bytes + 'a) \<Rightarrow> ('a \<Rightarrow> 't node \<Rightarrow> reply \<times> 't node) \<Rightarrow> 't node \<Rightarrow> reply \<times> 't node"
where
  "decoded r k n =
     (case r of Inl msg \<Rightarrow> error_response 400 ''BAD_REQUEST'' msg n | Inr a \<Rightarrow> k a n)"

section \<open>Operator authentication\<close>

text \<open>\<open>str::parse::<i64>\<close>: an optional sign, at least one digit, nothing else, in range.\<close>

definition is_dec_digit :: "char \<Rightarrow> bool" where
  "is_dec_digit c \<longleftrightarrow> 48 \<le> (of_char c :: nat) \<and> (of_char c :: nat) < 58"

definition parse_digits :: "bytes \<Rightarrow> nat option" where
  "parse_digits s = (if s \<noteq> [] \<and> list_all is_dec_digit s then Some (dec_val s) else None)"

definition parse_i64 :: "bytes \<Rightarrow> i64 option" where
  "parse_i64 s =
     (let (neg, digits) =
        (case s of
           [] \<Rightarrow> (False, [])
         | c # cs \<Rightarrow> if c = CHR ''-'' then (True, cs) else if c = CHR ''+'' then (False, cs) else (False, s))
      in case parse_digits digits of
           None \<Rightarrow> None
         | Some v \<Rightarrow>
             if neg then (if v \<le> 2 ^ 63 then Some (word_of_int (- int v)) else None)
             else (if v < 2 ^ 63 then Some (word_of_int (int v)) else None))"

definition header_str :: "rest_lib \<Rightarrow> header_map \<Rightarrow> bytes \<Rightarrow> bytes option" where
  "header_str L headers name = Option.bind (headers name) (rl_to_str L)"

definition operator_auth ::
  "('t, 'b) store_lib \<Rightarrow> crypto_lib \<Rightarrow> rest_lib \<Rightarrow> i64 \<Rightarrow> bytes \<Rightarrow> bytes \<Rightarrow> header_map \<Rightarrow> bytes \<Rightarrow> bool
     \<Rightarrow> ('t, operator \<times> bytes) handler"
where
  "operator_auth E C L now method path headers body admin_only n =
     (let timestamp = Option.bind (header_str L headers ''x-operator-timestamp'') parse_i64;
          sig = header_str L headers ''x-operator-signature'';
          operator_id = header_str L headers ''x-operator-id'';
          operator_public_key = header_str L headers ''x-operator-public-key''
      in (and_then (verify_operator_request E C now method path body timestamp sig operator_id
                      operator_public_key admin_only n)
            (\<lambda>op. Inr (op, case sig of None \<Rightarrow> [] | Some s \<Rightarrow> s)), n))"

section \<open>Handlers that write\<close>

text \<open>The clock readings of one handler are \<open>clock 0\<close>, \<open>clock 1\<close>, ... in the order the code takes them.\<close>

definition create_wallet_handler ::
  "('t, 'b) store_lib \<Rightarrow> crypto_lib \<Rightarrow> rest_lib \<Rightarrow> (nat \<Rightarrow> i64) \<Rightarrow> ip_addr \<Rightarrow> header_map \<Rightarrow> bytes
     \<Rightarrow> 't node \<Rightarrow> reply \<times> 't node"
where
  "create_wallet_handler E C L clock addr headers body =
     decoded (rl_wallet_create L body) (\<lambda>request n.
       answer (check_wallet_rate_limit (clock 0) (Some addr) n) (\<lambda>_ n.
       answer (operator_auth E C L (clock 1) ''POST'' ''/api/v1/wallet'' headers body False n) (\<lambda>(op, sig) n.
       answer (create_wallet E C (clock 2) request op sig n) (\<lambda>response n.
         ok_response 201 (DWalletCreated response) n))))"

definition charge_handler ::
  "('t, 'b) store_lib \<Rightarrow> crypto_lib \<Rightarrow> rest_lib \<Rightarrow> (nat \<Rightarrow> i64) \<Rightarrow> header_map \<Rightarrow> bytes
     \<Rightarrow> 't node \<Rightarrow> reply \<times> 't node"
where
  "charge_handler E C L clock headers body =
     decoded (rl_charge L body) (\<lambda>request n.
       answer (operator_auth E C L (clock 0) ''POST'' ''/api/v1/charge'' headers body False n) (\<lambda>(op, sig) n.
       answer (charge E C (clock 1) (clock 2) request op sig n) (\<lambda>response n.
         ok_response 202 (DAccepted response) n)))"

definition transfer_handler ::
  "('t, 'b) store_lib \<Rightarrow> crypto_lib \<Rightarrow> rest_lib \<Rightarrow> (nat \<Rightarrow> i64) \<Rightarrow> bytes \<Rightarrow> 't node \<Rightarrow> reply \<times> 't node"
where
  "transfer_handler E C L clock body =
     decoded (rl_transfer L body) (\<lambda>request n.
       answer (check_transfer_rate_limit (clock 0) (tr_from request) n) (\<lambda>_ n.
       answer (transfer E C (clock 1) request n) (\<lambda>response n.
         ok_response 202 (DAccepted response) n)))"

definition burn_handler ::
  "('t, 'b) store_lib \<Rightarrow> crypto_lib \<Rightarrow> rest_lib \<Rightarrow> (nat \<Rightarrow> i64) \<Rightarrow> bytes \<Rightarrow> 't node \<Rightarrow> reply \<times> 't node"
where
  "burn_handler E C L clock body =
     decoded (rl_burn L body) (\<lambda>request n.
       answer (burn E C (clock 0) request n) (\<lambda>response n. ok_response 202 (DAccepted response) n))"

definition update_parameters_handler ::
  "('t, 'b) store_lib \<Rightarrow> crypto_lib \<Rightarrow> rest_lib \<Rightarrow> (nat \<Rightarrow> i64) \<Rightarrow> header_map \<Rightarrow> bytes
     \<Rightarrow> 't node \<Rightarrow> reply \<times> 't node"
where
  "update_parameters_handler E C L clock headers body =
     decoded (rl_parameters L body) (\<lambda>ps n.
       answer (operator_auth E C L (clock 0) ''PUT'' ''/admin/parameters'' headers body True n) (\<lambda>_ n.
       answer (update_parameters E ps n) (\<lambda>_ n. ok_response 200 (DParameters (n_parameters n)) n)))"

definition default_one :: u64 where
  "default_one = 1"

text \<open>An absent field \<open>iterations\<close> takes its serde default, an empty body is the request for one.\<close>

definition simulation_start_request :: "rest_lib \<Rightarrow> bytes \<Rightarrow> bytes + u64" where
  "simulation_start_request L body =
     (if body = [] then Inr 1
      else and_then (rl_simulation_start L body) (\<lambda>field.
             Inr (case field of None \<Rightarrow> default_one | Some i \<Rightarrow> i)))"

definition simulation_start_handler ::
  "('t, 'b) store_lib \<Rightarrow> crypto_lib \<Rightarrow> float_lib \<Rightarrow> rest_lib \<Rightarrow> (nat \<Rightarrow> i64) \<Rightarrow> header_map \<Rightarrow> bytes
     \<Rightarrow> 't node \<Rightarrow> reply \<times> 't node"
where
  "simulation_start_handler E C F L clock headers body =
     decoded (simulation_start_request L body) (\<lambda>iterations n.
       answer (operator_auth E C L (clock 0) ''POST'' ''/admin/simulation/start'' headers body True n) (\<lambda>_ n.
       answer (run_simulation_iterations E C F (\<lambda>k. clock (Suc k)) (max iterations 1) n) (\<lambda>status n.
         case status of None \<Rightarrow> (Crashed, n) | Some s \<Rightarrow> ok_response 202 (DSimulation s) n)))"

definition simulation_stop_handler ::
  "('t, 'b) store_lib \<Rightarrow> crypto_lib \<Rightarrow> rest_lib \<Rightarrow> (nat \<Rightarrow> i64) \<Rightarrow> header_map \<Rightarrow> bytes
     \<Rightarrow> 't node \<Rightarrow> reply \<times> 't node"
where
  "simulation_stop_handler E C L clock headers body n =
     answer (operator_auth E C L (clock 0) ''POST'' ''/admin/simulation/stop'' headers body True n) (\<lambda>_ n.
     answer (set_simulation_running False ''stopped'' n) (\<lambda>status n. ok_response 200 (DSimulation status) n))"

definition admin_snapshot_handler ::
  "('t, 'b) store_lib \<Rightarrow> crypto_lib \<Rightarrow> rest_lib \<Rightarrow> (nat \<Rightarrow> i64) \<Rightarrow> header_map \<Rightarrow> bytes
     \<Rightarrow> 't node \<Rightarrow> reply \<times> 't node"
where
  "admin_snapshot_handler E C L clock headers body n =
     answer (operator_auth E C L (clock 0) ''POST'' ''/admin/snapshot'' headers body True n) (\<lambda>_ n.
     answer (create_manual_snapshot E (clock 1) n) (\<lambda>snapshot n. ok_response 201 (DSnapshot snapshot) n))"

definition admin_operator_placeholder ::
  "('t, 'b) store_lib \<Rightarrow> crypto_lib \<Rightarrow> rest_lib \<Rightarrow> (nat \<Rightarrow> i64) \<Rightarrow> header_map \<Rightarrow> bytes
     \<Rightarrow> 't node \<Rightarrow> reply \<times> 't node"
where
  "admin_operator_placeholder E C L clock headers body n =
     answer (operator_auth E C L (clock 0) ''POST'' ''/admin/operator'' headers body True n) (\<lambda>_ n.
     error_response 501 ''OPERATOR_CHANGE_DISABLED''
       ''operator changes are disabled in v1.0 single-operator prototype'' n)"

section \<open>Handlers that read\<close>

definition get_wallet_handler :: "('t, 'b) store_lib \<Rightarrow> bytes \<Rightarrow> 't node \<Rightarrow> reply \<times> 't node" where
  "get_wallet_handler E wid n =
     answer (fetch (\<lambda>st. get_wallet E st wid) n) (\<lambda>found n.
       case found of
         Some w \<Rightarrow> ok_response 200 (DWallet w) n
       | None \<Rightarrow> state_error_response WalletNotFound n)"

definition wallet_transactions_handler :: "('t, 'b) store_lib \<Rightarrow> bytes \<Rightarrow> 't node \<Rightarrow> reply \<times> 't node" where
  "wallet_transactions_handler E wid n =
     answer (fetch (\<lambda>st. list_transactions_for_wallet E st wid 100) n) (\<lambda>txs n.
       ok_response 200 (DTransactions txs) n)"

definition get_transaction_handler :: "('t, 'b) store_lib \<Rightarrow> bytes \<Rightarrow> 't node \<Rightarrow> reply \<times> 't node" where
  "get_transaction_handler E txid n =
     answer (fetch (\<lambda>st. get_transaction E st txid) n) (\<lambda>found n.
       case found of
         Some tx \<Rightarrow> ok_response 200 (DTransaction tx) n
       | None \<Rightarrow> error_response 404 ''TRANSACTION_NOT_FOUND'' ''transaction not found'' n)"

definition current_iteration_handler :: "('t, 'b) store_lib \<Rightarrow> 't node \<Rightarrow> reply \<times> 't node" where
  "current_iteration_handler E n =
     (let i = ss_current_iteration (n_system n)
      in if i = 0 then ok_response 200 DGenesis n
         else answer (fetch (\<lambda>st. get_iteration E st i) n) (\<lambda>found n.
                case found of
                  Some c \<Rightarrow> ok_response 200 (DIteration c) n
                | None \<Rightarrow> ok_response 200 (DIterationId i) n))"

definition get_iteration_handler ::
  "('t, 'b) store_lib \<Rightarrow> iteration_id \<Rightarrow> 't node \<Rightarrow> reply \<times> 't node"
where
  "get_iteration_handler E i n =
     answer (fetch (\<lambda>st. get_iteration E st i) n) (\<lambda>found n.
       case found of
         Some c \<Rightarrow> ok_response 200 (DIteration c) n
       | None \<Rightarrow> error_response 404 ''ITERATION_NOT_FOUND'' ''iteration not found'' n)"

definition gini_history_handler :: "('t, 'b) store_lib \<Rightarrow> 't node \<Rightarrow> reply \<times> 't node" where
  "gini_history_handler E n =
     answer (fetch (gini_history E) n) (\<lambda>points n. ok_response 200 (DGini points) n)"

definition supply_history_handler :: "('t, 'b) store_lib \<Rightarrow> 't node \<Rightarrow> reply \<times> 't node" where
  "supply_history_handler E n =
     answer (fetch (supply_history E) n) (\<lambda>points n. ok_response 200 (DSupply points) n)"

definition admin_parameters_handler ::
  "('t, 'b) store_lib \<Rightarrow> crypto_lib \<Rightarrow> rest_lib \<Rightarrow> (nat \<Rightarrow> i64) \<Rightarrow> header_map \<Rightarrow> bytes
     \<Rightarrow> 't node \<Rightarrow> reply \<times> 't node"
where
  "admin_parameters_handler E C L clock headers body n =
     answer (operator_auth E C L (clock 0) ''GET'' ''/admin/parameters'' headers body True n) (\<lambda>_ n.
     ok_response 200 (DParameters (n_parameters n)) n)"

section \<open>The event socket\<close>

text \<open>
  What wakes the loop of \<open>events\<close>: the two-second timer, at which it reads the node as it is then and
  the socket takes the message or not, a message of the client, or the end of the connection.
\<close>

datatype 't socket_event = Timer "'t node" bool | Incoming | Closed

text \<open>The statistics sent, the last one perhaps in vain.\<close>

fun events_loop :: "'t socket_event list \<Rightarrow> stats_response list" where
  "events_loop [] = []"
| "events_loop (Timer n taken # es) = stats n # (if taken then events_loop es else [])"
| "events_loop (Incoming # es) = events_loop es"
| "events_loop (Closed # es) = []"

section \<open>The router\<close>

datatype endpoint =
    EHealthz | EGenesisOperator | ECreateWallet | ECharge | ETransfer | EBurn | EGetWallet
  | EWalletTransactions | EGetTransaction | ECurrentIteration | EGetIteration | EStats
  | EGiniHistory | ESupplyHistory | EEvents | EAdminParameters | EUpdateParameters | ESimulationStart
  | ESimulationStop | ESimulationStatus | EAdminSnapshot | EAdminOperator

definition routes :: "(bytes \<times> bytes \<times> endpoint) list" where
  "routes =
     [(''/healthz'', ''GET'', EHealthz),
      (''/api/v1/health'', ''GET'', EHealthz),
      (''/api/v1/operator/genesis'', ''GET'', EGenesisOperator),
      (''/api/v1/wallet'', ''POST'', ECreateWallet),
      (''/api/v1/charge'', ''POST'', ECharge),
      (''/api/v1/transaction'', ''POST'', ETransfer),
      (''/api/v1/burn'', ''POST'', EBurn),
      (''/api/v1/wallet/:id'', ''GET'', EGetWallet),
      (''/api/v1/wallet/:id/transactions'', ''GET'', EWalletTransactions),
      (''/api/v1/transaction/:id'', ''GET'', EGetTransaction),
      (''/api/v1/iteration/current'', ''GET'', ECurrentIteration),
      (''/api/v1/iteration/:id'', ''GET'', EGetIteration),
      (''/api/v1/stats'', ''GET'', EStats),
      (''/api/v1/stats/gini'', ''GET'', EGiniHistory),
      (''/api/v1/stats/supply'', ''GET'', ESupplyHistory),
      (''/api/v1/events'', ''GET'', EEvents),
      (''/admin/parameters'', ''GET'', EAdminParameters),
      (''/admin/parameters'', ''PUT'', EUpdateParameters),
      (''/admin/simulation/start'', ''POST'', ESimulationStart),
      (''/admin/simulation/stop'', ''POST'', ESimulationStop),
      (''/admin/simulation/status'', ''GET'', ESimulationStatus),
      (''/admin/snapshot'', ''POST'', EAdminSnapshot),
      (''/admin/operator'', ''POST'', EAdminOperator)]"

record http_request =
  hr_method :: bytes
  hr_path :: bytes
  hr_headers :: header_map
  hr_body :: bytes
  hr_peer :: ip_addr

definition dispatch ::
  "('t, 'b) store_lib \<Rightarrow> crypto_lib \<Rightarrow> float_lib \<Rightarrow> rest_lib \<Rightarrow> (nat \<Rightarrow> i64) \<Rightarrow> endpoint \<Rightarrow> bytes list
     \<Rightarrow> http_request \<Rightarrow> 't node \<Rightarrow> reply \<times> 't node"
where
  "dispatch E C F L clock ep args r n =
     (let headers = hr_headers r; body = hr_body r; arg = (case args of [] \<Rightarrow> [] | a # _ \<Rightarrow> a)
      in case ep of
           EHealthz \<Rightarrow> ok_response 200 DHealth n
         | EGenesisOperator \<Rightarrow> ok_response 200 (DOperator (n_operator_id n) (n_operator_public_key n)) n
         | ECreateWallet \<Rightarrow> create_wallet_handler E C L clock (hr_peer r) headers body n
         | ECharge \<Rightarrow> charge_handler E C L clock headers body n
         | ETransfer \<Rightarrow> transfer_handler E C L clock body n
         | EBurn \<Rightarrow> burn_handler E C L clock body n
         | EGetWallet \<Rightarrow> get_wallet_handler E arg n
         | EWalletTransactions \<Rightarrow> wallet_transactions_handler E arg n
         | EGetTransaction \<Rightarrow> get_transaction_handler E arg n
         | ECurrentIteration \<Rightarrow> current_iteration_handler E n
         | EGetIteration \<Rightarrow>
             (case rl_path_u64 L arg of None \<Rightarrow> (Rejected, n) | Some i \<Rightarrow> get_iteration_handler E i n)
         | EStats \<Rightarrow> ok_response 200 (DStats (stats n)) n
         | EGiniHistory \<Rightarrow> gini_history_handler E n
         | ESupplyHistory \<Rightarrow> supply_history_handler E n
         | EEvents \<Rightarrow> (if rl_upgrades L headers then Upgraded else Rejected, n)
         | EAdminParameters \<Rightarrow> admin_parameters_handler E C L clock headers body n
         | EUpdateParameters \<Rightarrow> update_parameters_handler E C L clock headers body n
         | ESimulationStart \<Rightarrow> simulation_start_handler E C F L clock headers body n
         | ESimulationStop \<Rightarrow> simulation_stop_handler E C L clock headers body n
         | ESimulationStatus \<Rightarrow> ok_response 200 (DSimulation (n_simulation n)) n
         | EAdminSnapshot \<Rightarrow> admin_snapshot_handler E C L clock headers body n
         | EAdminOperator \<Rightarrow> admin_operator_placeholder E C L clock headers body n)"

text \<open>
  The route of a request: a static pattern before one with a parameter, as axum's matcher prefers
  it, which is the order of the table wherever both could match.
\<close>

definition route_of :: "rest_lib \<Rightarrow> bytes \<Rightarrow> bytes \<Rightarrow> (endpoint \<times> bytes list) option" where
  "route_of L verb path =
     (case List.find (\<lambda>(pattern, m, ep). m = verb \<and> rl_match L pattern path \<noteq> None) routes of
        None \<Rightarrow> None
      | Some (pattern, m, ep) \<Rightarrow> map_option (\<lambda>args. (ep, args)) (rl_match L pattern path))"

definition router ::
  "('t, 'b) store_lib \<Rightarrow> crypto_lib \<Rightarrow> float_lib \<Rightarrow> rest_lib \<Rightarrow> (nat \<Rightarrow> i64) \<Rightarrow> http_request
     \<Rightarrow> 't node \<Rightarrow> reply \<times> 't node"
where
  "router E C F L clock r n =
     (case route_of L (hr_method r) (hr_path r) of
        None \<Rightarrow> (Rejected, n)
      | Some (ep, args) \<Rightarrow> dispatch E C F L clock ep args r n)"

end
