(* ===== verification/Rest_Props.thy ===== *)
theory Rest_Props
  imports Rest
begin

text \<open>
  What every request can rely on: the shape of an answer, which requests can change the node, and
  that an operator endpoint does nothing for a request it cannot authenticate.
\<close>

section \<open>The envelope\<close>

definition enveloped :: "reply \<times> 't node \<Rightarrow> bool" where
  "enveloped rn \<longleftrightarrow>
     (\<forall>a. fst rn = Answer a \<longrightarrow>
        ar_success (rs_body a) = (rs_status a < 300) \<and>
        (ar_data (rs_body a) \<noteq> None) = ar_success (rs_body a) \<and>
        (ar_error (rs_body a) = None) = ar_success (rs_body a) \<and>
        ar_tick (rs_body a) = ss_current_tick (n_system (snd rn)) \<and>
        ar_iteration (rs_body a) = ss_current_iteration (n_system (snd rn)))"

named_theorems envelopes \<open>the steps of a handler keep the envelope\<close>

lemma enveloped_ok [envelopes]: "s < 300 \<Longrightarrow> enveloped (ok_response s d n)"
  by (simp add: enveloped_def ok_response_def)

lemma enveloped_error [envelopes]: "300 \<le> s \<Longrightarrow> enveloped (error_response s c m n)"
  by (simp add: enveloped_def error_response_def)

lemma enveloped_state_error [envelopes]: "enveloped (state_error_response e n)"
  unfolding state_error_response_def by (rule enveloped_error) (cases e; simp)

lemma enveloped_other [envelopes]: "enveloped (Rejected, n)" "enveloped (Crashed, n)" "enveloped (Upgraded, n)"
  by (simp_all add: enveloped_def)

lemma enveloped_answer [envelopes]:
  "(\<And>a n'. enveloped (k a n')) \<Longrightarrow> enveloped (answer outcome k)"
  by (auto simp: answer_def envelopes split: prod.splits sum.splits)

lemma enveloped_decoded [envelopes]:
  "(\<And>a n'. enveloped (k a n')) \<Longrightarrow> enveloped (decoded r k n)"
  by (auto simp: decoded_def envelopes split: sum.splits)

lemmas write_handlers = create_wallet_handler_def charge_handler_def transfer_handler_def burn_handler_def
  update_parameters_handler_def simulation_start_handler_def simulation_stop_handler_def
  admin_snapshot_handler_def admin_operator_placeholder_def

lemmas read_handlers = get_wallet_handler_def wallet_transactions_handler_def get_transaction_handler_def
  current_iteration_handler_def get_iteration_handler_def gini_history_handler_def
  supply_history_handler_def admin_parameters_handler_def

lemma dispatch_enveloped: "enveloped (dispatch E C F L clock ep args r n)"
  by (cases ep)
    (auto simp: dispatch_def Let_def write_handlers read_handlers split: option.splits prod.splits list.splits
      intro!: envelopes)

text \<open>
  C33. Every answer has the uniform envelope: \<open>success\<close> tells exactly whether the status is below 300,
  \<open>data\<close> is present exactly on success and \<open>error\<close> exactly on failure, and tick and iteration are
  those of the node after the request.
\<close>

theorem answers_are_enveloped:
  "case router E C F L clock r n of
     (Answer a, n') \<Rightarrow>
        ar_success (rs_body a) = (rs_status a < 300) \<and>
        (ar_data (rs_body a) \<noteq> None) = ar_success (rs_body a) \<and>
        (ar_error (rs_body a) = None) = ar_success (rs_body a) \<and>
        ar_tick (rs_body a) = ss_current_tick (n_system n') \<and>
        ar_iteration (rs_body a) = ss_current_iteration (n_system n')
   | (_, n') \<Rightarrow> True"
proof -
  have "enveloped (router E C F L clock r n)"
    by (auto simp: router_def dispatch_enveloped envelopes split: option.splits)
  then show ?thesis by (auto simp: enveloped_def split: prod.splits reply.splits)
qed

section \<open>Requests that only read\<close>

lemma route_of_Some:
  assumes "route_of L m path = Some (ep, args)"
  shows "\<exists>pattern. (pattern, m, ep) \<in> set routes \<and> rl_match L pattern path = Some args"
proof -
  obtain pattern m' ep' where f: "List.find (\<lambda>(pattern, m', ep). m' = m \<and> rl_match L pattern path \<noteq> None) routes
      = Some (pattern, m', ep')" "map_option (\<lambda>args. (ep', args)) (rl_match L pattern path) = Some (ep, args)"
    using assms by (auto simp: route_of_def split: option.splits prod.splits)
  then have "(pattern, m', ep') \<in> set routes" "m' = m" unfolding find_Some_iff by (metis nth_mem, auto)
  then show ?thesis using f(2) by auto
qed

named_theorems readers \<open>steps that leave the node as it is\<close>

lemma answer_reads [readers]:
  "snd outcome = n \<Longrightarrow> (\<And>a. snd (k a n) = n) \<Longrightarrow> snd (answer outcome k) = n"
  by (cases outcome) (auto simp: answer_def state_error_response_def error_response_def split: sum.splits)

lemma responses_read [readers, simp]:
  "snd (ok_response s d n) = n" "snd (error_response s c m n) = n" "snd (state_error_response e n) = n"
  by (simp_all add: ok_response_def error_response_def state_error_response_def)

lemma fetch_reads [readers, simp]: "snd (fetch f n) = n"
  by (simp add: fetch_def)

lemma auth_reads [readers, simp]: "snd (operator_auth E C L now m p h b a n) = n"
  by (simp add: operator_auth_def Let_def)

text \<open>
  C32. A \<open>GET\<close> request leaves the node exactly as it was, rate-limit queues included.
\<close>

theorem get_changes_nothing:
  assumes "hr_method r = ''GET''"
  shows "snd (router E C F L clock r n) = n"
proof (cases "route_of L (hr_method r) (hr_path r)")
  case None
  then show ?thesis by (simp add: router_def)
next
  case (Some x)
  obtain ep args where x: "x = (ep, args)" by (cases x)
  obtain pattern where "(pattern, ''GET'', ep) \<in> set routes"
    using route_of_Some Some assms x by metis
  then have "ep \<in> {EHealthz, EGenesisOperator, EGetWallet, EWalletTransactions, EGetTransaction,
      ECurrentIteration, EGetIteration, EStats, EGiniHistory, ESupplyHistory, EEvents, EAdminParameters, ESimulationStatus}"
    by (auto simp: routes_def)
  then have "snd (dispatch E C F L clock ep args r n) = n"
    by (auto simp: dispatch_def Let_def read_handlers split: option.splits intro!: readers)
  then show ?thesis using Some by (simp add: router_def x)
qed

section \<open>Operator endpoints\<close>

text \<open>Which request an endpoint has the operator sign, and whether it demands the genesis role.\<close>

fun operator_scope :: "endpoint \<Rightarrow> (bytes \<times> bytes \<times> bool) option" where
  "operator_scope ECreateWallet = Some (''POST'', ''/api/v1/wallet'', False)"
| "operator_scope ECharge = Some (''POST'', ''/api/v1/charge'', False)"
| "operator_scope EAdminParameters = Some (''GET'', ''/admin/parameters'', True)"
| "operator_scope EUpdateParameters = Some (''PUT'', ''/admin/parameters'', True)"
| "operator_scope ESimulationStart = Some (''POST'', ''/admin/simulation/start'', True)"
| "operator_scope ESimulationStop = Some (''POST'', ''/admin/simulation/stop'', True)"
| "operator_scope EAdminSnapshot = Some (''POST'', ''/admin/snapshot'', True)"
| "operator_scope EAdminOperator = Some (''POST'', ''/admin/operator'', True)"
| "operator_scope _ = None"

text \<open>The request an operator signs names the method and the pattern the endpoint is routed under.\<close>

lemma scopes_are_routes:
  "list_all (\<lambda>(pattern, m, ep). case operator_scope ep of None \<Rightarrow> True | Some (m', p, adm) \<Rightarrow> m' = m \<and> p = pattern) routes"
  by (simp add: routes_def)

lemma scope_method:
  assumes "(pattern, m, ep) \<in> set routes" "operator_scope ep = Some (m', p, adm)"
  shows "m' = m \<and> p = pattern"
proof -
  have "case operator_scope ep of None \<Rightarrow> True | Some (m', p, adm) \<Rightarrow> m' = m \<and> p = pattern"
    using scopes_are_routes assms(1) unfolding list_all_iff by fast
  then show ?thesis by (simp add: assms(2))
qed

text \<open>A refusal before the operator is known leaves everything but the creation queues alone.\<close>

definition harmless :: "'t node \<Rightarrow> reply \<times> 't node \<Rightarrow> bool" where
  "harmless n rn \<longleftrightarrow>
     (\<exists>q. snd rn = n\<lparr>n_rate_wallet_create := q\<rparr>) \<and> (\<forall>a. fst rn = Answer a \<longrightarrow> \<not> ar_success (rs_body a))"

lemma harmless_same: "harmless n (state_error_response e n)" "harmless n (error_response s c m n)"
  by (auto simp: harmless_def state_error_response_def error_response_def
      intro: exI [of _ "n_rate_wallet_create n"])

lemma harmless_limit: "harmless n (state_error_response e (n\<lparr>n_rate_wallet_create := q\<rparr>))"
  by (auto simp: harmless_def state_error_response_def error_response_def)

lemma answer_Inl [simp]: "answer (Inl e, n) k = state_error_response e n"
  by (simp add: answer_def)

lemma harmless_decoded: "(\<And>a. harmless n (k a n)) \<Longrightarrow> harmless n (decoded r k n)"
  by (cases r) (simp_all add: decoded_def harmless_same)

lemma verify_ignores_queues [simp]:
  "verify_operator_request E C now m p b ts sig oid key adm (n\<lparr>n_rate_wallet_create := q\<rparr>)
     = verify_operator_request E C now m p b ts sig oid key adm n"
  by (simp add: verify_operator_request_def Let_def)

lemma auth_Inl:
  assumes "\<nexists>op. verify_operator_request E C now m p b
      (Option.bind (header_str L h ''x-operator-timestamp'') parse_i64) (header_str L h ''x-operator-signature'')
      (header_str L h ''x-operator-id'') (header_str L h ''x-operator-public-key'') adm n = Inr op"
  shows "\<exists>e. operator_auth E C L now m p h b adm n = (Inl e, n)"
  using assms
  by (cases "verify_operator_request E C now m p b
      (Option.bind (header_str L h ''x-operator-timestamp'') parse_i64) (header_str L h ''x-operator-signature'')
      (header_str L h ''x-operator-id'') (header_str L h ''x-operator-public-key'') adm n")
    (simp_all add: operator_auth_def Let_def)

lemma same_queue: "\<exists>q. n = n\<lparr>n_rate_wallet_create := q\<rparr>"
  by (rule exI [of _ "n_rate_wallet_create n"]) simp

lemma limit_result:
  "\<exists>r q. check_wallet_rate_limit now ip n = (r, n\<lparr>n_rate_wallet_create := q\<rparr>)"
  using same_queue [of n] by (auto simp: check_wallet_rate_limit_def Let_def split: option.splits prod.splits)

lemma create_refused:
  assumes "\<And>q. \<exists>e. operator_auth E C L (clock 1) ''POST'' ''/api/v1/wallet'' h b False
      (n\<lparr>n_rate_wallet_create := q\<rparr>) = (Inl e, n\<lparr>n_rate_wallet_create := q\<rparr>)"
  shows "harmless n (create_wallet_handler E C L clock addr h b n)"
proof (cases "rl_wallet_create L b")
  case (Inl m)
  then show ?thesis by (simp add: create_wallet_handler_def decoded_def harmless_same)
next
  case (Inr request)
  obtain r q where l: "check_wallet_rate_limit (clock 0) (Some addr) n = (r, n\<lparr>n_rate_wallet_create := q\<rparr>)"
    using limit_result by blast
  obtain e where e: "operator_auth E C L (clock 1) ''POST'' ''/api/v1/wallet'' h b False
      (n\<lparr>n_rate_wallet_create := q\<rparr>) = (Inl e, n\<lparr>n_rate_wallet_create := q\<rparr>)"
    using assms by blast
  then show ?thesis
    by (cases r) (simp_all add: Inr create_wallet_handler_def decoded_def answer_def l harmless_limit)
qed

text \<open>
  C13. An operator endpoint does nothing for a request it cannot authenticate: unless the headers
  carry what \<open>verify_operator_request\<close> accepts for the method and the route of this very endpoint and
  for this body (in the genesis role for every admin endpoint), the answer is a failure and the node
  is unchanged up to the queue of the creation rate limit.
\<close>

theorem unauthenticated_requests_harmless:
  assumes "route_of L (hr_method r) (hr_path r) = Some (ep, args)" "operator_scope ep = Some (m, p, adm)"
    and "\<And>k. \<nexists>op. verify_operator_request E C (clock k) (hr_method r) p (hr_body r)
      (Option.bind (header_str L (hr_headers r) ''x-operator-timestamp'') parse_i64)
      (header_str L (hr_headers r) ''x-operator-signature'') (header_str L (hr_headers r) ''x-operator-id'')
      (header_str L (hr_headers r) ''x-operator-public-key'') adm n = Inr op"
  shows "harmless n (router E C F L clock r n)"
proof -
  have m: "m = hr_method r" using scope_method route_of_Some [OF assms(1)] assms(2) by blast
  have auth: "\<exists>e. operator_auth E C L (clock k) m p (hr_headers r) (hr_body r) adm (n\<lparr>n_rate_wallet_create := q\<rparr>)
      = (Inl e, n\<lparr>n_rate_wallet_create := q\<rparr>)" for k q
    using assms(3) [of k] by (intro auth_Inl) (simp add: m)
  have same: "n\<lparr>n_rate_wallet_create := n_rate_wallet_create n\<rparr> = n" by simp
  obtain e where e: "operator_auth E C L (clock 0) m p (hr_headers r) (hr_body r) adm n = (Inl e, n)"
    using auth [of 0 "n_rate_wallet_create n"] unfolding same by blast
  have "harmless n (dispatch E C F L clock ep args r n)"
  proof (cases "ep = ECreateWallet")
    case True
    then show ?thesis using assms(2) auth [of 1] by (auto simp: dispatch_def Let_def intro!: create_refused)
  next
    case False
    then show ?thesis
      using assms(2) e
      by (cases ep) (simp_all add: dispatch_def Let_def write_handlers admin_parameters_handler_def
          harmless_same harmless_decoded)
  qed
  then show ?thesis by (simp add: router_def assms(1))
qed

end
