(* ===== verification/Simulator.thy ===== *)
theory Simulator
  imports Economy
begin

text \<open>
  \<open>crates/aggora-economy/src/simulator.rs\<close>: the offline simulator that drives \<open>execute_iteration\<close> over
  a synthetic population.  The random generator (\<open>ChaCha20Rng\<close>) is the parameter \<open>rng_lib\<close> over an
  abstract generator state \<open>'r\<close>.  A value \<open>None\<close> means that the run panics or does not return: the
  rejection loop of \<open>sample_poisson\<close> may go on forever.  Memory is unbounded.
\<close>

section \<open>Further float operations\<close>

text \<open>\<open>f64::round\<close>, half away from zero.\<close>

fun f64_round :: "f64 \<Rightarrow> f64" where
  "f64_round FNaN = FNaN"
| "f64_round (FInf s) = FInf s"
| "f64_round (Fin s m e) =
     (let q = trunc_mag m e; d = scale_up 1 (- e); r = scale_up m e mod d
      in round_ratio s (if d \<le> 2 * r then Suc q else q) 1)"

fun isqrt :: "nat \<Rightarrow> nat" where
  "isqrt n =
     (if n = 0 then 0
      else let r = 2 * isqrt (n div 4) in if (r + 1) * (r + 1) \<le> n then r + 1 else r)"

declare isqrt.simps [simp del]

text \<open>
  \<open>f64::sqrt\<close>, correctly rounded: the root of the mantissa scaled to at least 108 bits and an even
  exponent, with one sticky bit below it, is rounded once.
\<close>

fun f64_sqrt :: "f64 \<Rightarrow> f64" where
  "f64_sqrt FNaN = FNaN"
| "f64_sqrt (FInf s) = (if s then FNaN else FInf False)"
| "f64_sqrt (Fin s m e) =
     (if m = 0 then Fin s m e
      else if s then FNaN
      else let k = (if even e then 108 else 109); big = m * 2 ^ k; r = isqrt big
           in round_scaled False (2 * r + (if r * r = big then 0 else 1)) ((e - int k) div 2 - 1))"

text \<open>\<open>format!("{:.6}", x)\<close>: the exact value rounded to six decimals, ties to even.\<close>

fun show_fixed6 :: "f64 \<Rightarrow> bytes" where
  "show_fixed6 FNaN = ''NaN''"
| "show_fixed6 (FInf s) = (if s then ''-inf'' else ''inf'')"
| "show_fixed6 (Fin s m e) =
     (let v = rne_div (scale_up m e * 10 ^ 6) (scale_up 1 (- e))
      in (if s then ''-'' else []) @ show_nat (v div 10 ^ 6) @ ''.'' @ pad_left 6 (show_nat (v mod 10 ^ 6)))"

definition f64_tau :: f64 where
  "f64_tau = f64_lit 628318530717958647692528676655900577 (10 ^ 35)"

section \<open>Configuration and metrics\<close>

record sim_config =
  sc_initial_wallets :: u64
  sc_initial_wealth_sigma :: f64
  sc_iterations :: u64
  sc_tx_per_wallet_mean :: f64
  sc_transfer_fraction_mean :: f64
  sc_rng_seed :: u64
  sc_scripted_events :: "scripted_event list"

definition default_sim_config :: sim_config where
  "default_sim_config =
     \<lparr>sc_initial_wallets = 100, sc_initial_wealth_sigma = f64_lit 8 10, sc_iterations = 24,
      sc_tx_per_wallet_mean = f64_of_nat 5, sc_transfer_fraction_mean = f64_lit 5 100,
      sc_rng_seed = 0xA660C01E, sc_scripted_events = []\<rparr>"

definition with_seed :: "sim_config \<Rightarrow> seed_file \<Rightarrow> sim_config" where
  "with_seed config seed = config\<lparr>sc_scripted_events := sf_scripted_events seed\<rparr>"

record sim_metrics =
  sm_iteration :: u64
  sm_supply :: u64
  sm_n_wallets :: u64
  sm_n_active :: u64
  sm_gini :: f64
  sm_top10_share :: f64
  sm_median_balance :: u64
  sm_penalty_total :: u64
  sm_burned :: u64
  sm_reward_total :: u64
  sm_faucet_from_mint :: u64
  sm_new_wallets :: u64
  sm_n_txs :: u64
  sm_burn_rate :: f64
  sm_inflation :: f64

definition csv_columns :: "bytes list" where
  "csv_columns =
     [''iteration'', ''supply'', ''n_wallets'', ''n_active'', ''gini'', ''top10_share'', ''median_balance'',
      ''penalty_total'', ''burned'', ''reward_total'', ''faucet_from_mint'', ''new_wallets'', ''n_txs'',
      ''burn_rate'', ''inflation'']"

fun comma_separated :: "bytes list \<Rightarrow> bytes" where
  "comma_separated [] = []"
| "comma_separated [x] = x"
| "comma_separated (x # y # xs) = x @ '','' @ comma_separated (y # xs)"

definition csv_header :: bytes where
  "csv_header = comma_separated csv_columns"

definition to_csv_row :: "sim_metrics \<Rightarrow> bytes" where
  "to_csv_row r = comma_separated
     [show_u64 (sm_iteration r), show_u64 (sm_supply r), show_u64 (sm_n_wallets r), show_u64 (sm_n_active r),
      show_fixed6 (sm_gini r), show_fixed6 (sm_top10_share r), show_u64 (sm_median_balance r),
      show_u64 (sm_penalty_total r), show_u64 (sm_burned r), show_u64 (sm_reward_total r),
      show_u64 (sm_faucet_from_mint r), show_u64 (sm_new_wallets r), show_u64 (sm_n_txs r),
      show_fixed6 (sm_burn_rate r), show_fixed6 (sm_inflation r)]"

section \<open>Sampling\<close>

record 'r rng_lib =
  rg_seed :: "u64 \<Rightarrow> 'r"
  rg_f64 :: "'r \<Rightarrow> f64 \<times> 'r"
  rg_range :: "nat \<Rightarrow> 'r \<Rightarrow> nat \<times> 'r"

partial_function (option) poisson_loop ::
  "'r rng_lib \<Rightarrow> f64 \<Rightarrow> u64 \<Rightarrow> f64 \<Rightarrow> 'r \<Rightarrow> (u64 \<times> 'r) option"
where
  "poisson_loop R l k p g =
     (if f64_le (f64_mul p (fst (rg_f64 R g))) l then Some (k + 1 - 1, snd (rg_f64 R g))
      else poisson_loop R l (k + 1) (f64_mul p (fst (rg_f64 R g))) (snd (rg_f64 R g)))"

definition sample_poisson :: "float_lib \<Rightarrow> 'r rng_lib \<Rightarrow> f64 \<Rightarrow> 'r \<Rightarrow> (u64 \<times> 'r) option" where
  "sample_poisson F R lambda g =
     (if f64_le lambda f64_zero then Some (0, g)
      else poisson_loop R (fl_exp F (f64_neg lambda)) 0 f64_one g)"

definition sample_standard_normal :: "float_lib \<Rightarrow> 'r rng_lib \<Rightarrow> 'r \<Rightarrow> f64 \<times> 'r" where
  "sample_standard_normal F R g =
     (let (x1, g1) = rg_f64 R g; u1 = f64_max x1 f64_min_positive; (u2, g2) = rg_f64 R g1
      in (f64_mul (f64_sqrt (f64_mul (f64_neg (f64_of_nat 2)) (fl_ln F u1)))
            (fl_cos F (f64_mul f64_tau u2)), g2))"

section \<open>The population\<close>

definition sim_wallet :: "crypto_lib \<Rightarrow> u64 \<Rightarrow> u64 \<Rightarrow> wallet" where
  "sim_wallet C idx balance =
     (let wid = blake3_hex C (''aggora-sim-wallet:'' @ show_u64 idx)
      in \<lparr>w_id = wid, w_pubkey = wid, w_balance = balance, w_nonce = 0, w_created_at_tick = 0,
          w_created_at_iteration = 0, w_created_by_operator = ''sim'', w_iteration_tx_count = 0,
          w_iteration_counterparties = {}, w_last_active_iteration = 0, w_activity_score = f64_one\<rparr>)"

text \<open>The first wallets, each drawing its balance in turn.\<close>

fun initial_wallets ::
  "float_lib \<Rightarrow> crypto_lib \<Rightarrow> 'r rng_lib \<Rightarrow> f64 \<Rightarrow> u64 \<Rightarrow> nat \<Rightarrow> nat \<Rightarrow> 'r \<Rightarrow> wallet list \<times> 'r"
where
  "initial_wallets F C R sigma seed i 0 g = ([], g)"
| "initial_wallets F C R sigma seed i (Suc k) g =
     (let (balance, g1) =
        (if f64_lt f64_zero sigma
         then let (z, g1) = sample_standard_normal F R g
              in (max (f64_to_u64 (f64_round (f64_mul (f64_of_u64 seed) (fl_exp F (f64_mul sigma z))))) 1, g1)
         else (seed, g));
          (ws, g2) = initial_wallets F C R sigma seed (Suc i) k g1
      in (sim_wallet C (of_nat i) balance # ws, g2))"

definition top10_share :: "u64 list \<Rightarrow> u128 \<Rightarrow> f64" where
  "top10_share sorted_desc tot =
     (if tot = 0 \<or> sorted_desc = [] then f64_zero
      else let cut = unat (f64_to_u64 (f64_ceil (f64_mul (f64_of_nat (length sorted_desc)) (f64_lit 10 100))));
               top = balance_total (take (max cut 1) sorted_desc)
           in f64_div (f64_of_u128 top) (f64_of_u128 tot))"

section \<open>Transfers between synthetic wallets\<close>

text \<open>\<open>x.clamp(0.0001, 0.95)\<close>, whose bounds are in order.\<close>

definition clamp_fraction :: "f64 \<Rightarrow> f64" where
  "clamp_fraction x =
     (let y = (if f64_lt x (f64_lit 1 10000) then f64_lit 1 10000 else x)
      in if f64_lt (f64_lit 95 100) y then f64_lit 95 100 else y)"

lemma clamp_fraction: "f64_clamp x (f64_lit 1 10000) (f64_lit 95 100) = Some (clamp_fraction x)"
proof -
  have "f64_le (f64_lit 1 10000) (f64_lit 95 100)" by (simp add: f64_eval)
  then show ?thesis by (simp add: f64_clamp_def clamp_fraction_def)
qed

definition pick_recipient :: "'r rng_lib \<Rightarrow> nat \<Rightarrow> nat \<Rightarrow> 'r \<Rightarrow> nat \<times> 'r" where
  "pick_recipient R n sender g =
     (let (r, g1) = rg_range R n g in (if r = sender then (r + 1) mod n else r, g1))"

text \<open>The part of a balance that one transfer moves.\<close>

definition draw_amount :: "float_lib \<Rightarrow> 'r rng_lib \<Rightarrow> f64 \<Rightarrow> u64 \<Rightarrow> 'r \<Rightarrow> u64 \<times> 'r" where
  "draw_amount F R frac_mean balance g =
     (let (z, g1) = sample_standard_normal F R g;
          fraction = clamp_fraction (f64_mul frac_mean (fl_exp F (f64_mul (f64_lit 5 10) z)))
      in (min (f64_to_u64 (f64_floor (f64_mul (f64_of_u64 balance) fraction))) balance, g1))"

text \<open>\<open>it\<close> is the iteration to record as last active; scripted bursts record none.\<close>

definition sim_debit :: "iteration_id option \<Rightarrow> u64 \<Rightarrow> wallet_id \<Rightarrow> wallet \<Rightarrow> wallet" where
  "sim_debit it amount recipient w =
     w\<lparr>w_balance := w_balance w - amount, w_nonce := w_nonce w + 1,
       w_iteration_tx_count := w_iteration_tx_count w + 1,
       w_iteration_counterparties := insert recipient (w_iteration_counterparties w),
       w_last_active_iteration := (case it of None \<Rightarrow> w_last_active_iteration w | Some i \<Rightarrow> i)\<rparr>"

definition sim_credit :: "iteration_id option \<Rightarrow> u64 \<Rightarrow> wallet_id \<Rightarrow> wallet \<Rightarrow> wallet" where
  "sim_credit it amount sender w =
     w\<lparr>w_balance := sat_add (w_balance w) amount,
       w_iteration_tx_count := w_iteration_tx_count w + 1,
       w_iteration_counterparties := insert sender (w_iteration_counterparties w),
       w_last_active_iteration := (case it of None \<Rightarrow> w_last_active_iteration w | Some i \<Rightarrow> i)\<rparr>"

definition sim_transfer :: "iteration_id option \<Rightarrow> nat \<Rightarrow> nat \<Rightarrow> u64 \<Rightarrow> wallet list \<Rightarrow> wallet list" where
  "sim_transfer it i j amount ws =
     (let recipient = w_id (ws ! j); sender = w_id (ws ! i);
          ws1 = ws[i := sim_debit it amount recipient (ws ! i)]
      in ws1[j := sim_credit it amount sender (ws1 ! j)])"

section \<open>Synthetic activity\<close>

record 'r sim_state =
  si_wallets :: "wallet list"
  si_next :: u64
  si_rng :: 'r
  si_txs :: u64

text \<open>The transfers of one sender: at most \<open>k\<close>, stopping when its balance is used up.\<close>

fun sender_loop ::
  "float_lib \<Rightarrow> 'r rng_lib \<Rightarrow> f64 \<Rightarrow> iteration_id \<Rightarrow> nat \<Rightarrow> nat \<Rightarrow> nat \<Rightarrow> 'r sim_state \<Rightarrow> 'r sim_state"
where
  "sender_loop F R frac_mean it n i 0 s = s"
| "sender_loop F R frac_mean it n i (Suc k) s =
     (if w_balance (si_wallets s ! i) = 0 then s
      else let (j, g1) = pick_recipient R n i (si_rng s);
               (amount, g2) = draw_amount F R frac_mean (w_balance (si_wallets s ! i)) g1;
               s1 = s\<lparr>si_rng := g2\<rparr>
           in sender_loop F R frac_mean it n i k
                (if amount = 0 then s1
                 else s1\<lparr>si_wallets := sim_transfer (Some it) i j amount (si_wallets s1),
                         si_txs := si_txs s1 + 1\<rparr>))"

fun activity_loop ::
  "float_lib \<Rightarrow> 'r rng_lib \<Rightarrow> sim_config \<Rightarrow> iteration_id \<Rightarrow> nat \<Rightarrow> nat list \<Rightarrow> 'r sim_state \<Rightarrow> 'r sim_state option"
where
  "activity_loop F R config it n [] s = Some s"
| "activity_loop F R config it n (i # is) s =
     (case sample_poisson F R (sc_tx_per_wallet_mean config) (si_rng s) of
        None \<Rightarrow> None
      | Some (k, g) \<Rightarrow>
          activity_loop F R config it n is
            (sender_loop F R (sc_transfer_fraction_mean config) it n i (unat k) (s\<lparr>si_rng := g\<rparr>)))"

definition synthetic_activity ::
  "float_lib \<Rightarrow> 'r rng_lib \<Rightarrow> sim_config \<Rightarrow> iteration_id \<Rightarrow> 'r sim_state \<Rightarrow> 'r sim_state option"
where
  "synthetic_activity F R config it s =
     (let n = length (si_wallets s)
      in if 2 \<le> n then activity_loop F R config it n [0..<n] s else Some s)"

section \<open>Scripted events\<close>

fun spawn_loop :: "crypto_lib \<Rightarrow> u64 \<Rightarrow> nat \<Rightarrow> 'r sim_state \<Rightarrow> 'r sim_state" where
  "spawn_loop C amount 0 s = s"
| "spawn_loop C amount (Suc k) s =
     spawn_loop C amount k
       (s\<lparr>si_wallets := si_wallets s @ [sim_wallet C (si_next s) amount], si_next := si_next s + 1\<rparr>)"

fun burst_loop :: "float_lib \<Rightarrow> 'r rng_lib \<Rightarrow> f64 \<Rightarrow> nat \<Rightarrow> nat \<Rightarrow> 'r sim_state \<Rightarrow> 'r sim_state" where
  "burst_loop F R frac_mean n 0 s = s"
| "burst_loop F R frac_mean n (Suc k) s =
     (let (i, g1) = rg_range R n (si_rng s)
      in if w_balance (si_wallets s ! i) = 0 then burst_loop F R frac_mean n k (s\<lparr>si_rng := g1\<rparr>)
         else let (j, g2) = pick_recipient R n i g1;
                  (amount, g3) = draw_amount F R frac_mean (w_balance (si_wallets s ! i)) g2;
                  s1 = s\<lparr>si_rng := g3\<rparr>
              in burst_loop F R frac_mean n k
                   (if amount = 0 then s1
                    else s1\<lparr>si_wallets := sim_transfer None i j amount (si_wallets s1),
                            si_txs := si_txs s1 + 1\<rparr>))"

fun charge_loop :: "'r rng_lib \<Rightarrow> u64 \<Rightarrow> nat \<Rightarrow> nat \<Rightarrow> 'r sim_state \<Rightarrow> 'r sim_state" where
  "charge_loop R per_target n 0 s = s"
| "charge_loop R per_target n (Suc k) s =
     (let (i, g) = rg_range R n (si_rng s); w = si_wallets s ! i
      in charge_loop R per_target n k
           (s\<lparr>si_wallets := (si_wallets s)[i := w\<lparr>w_balance := sat_add (w_balance w) per_target\<rparr>], si_rng := g\<rparr>))"

definition shock_take :: "f64 \<Rightarrow> u64 \<Rightarrow> u64" where
  "shock_take frac balance = min (f64_to_u64 (f64_floor (f64_mul (f64_of_u64 balance) frac))) balance"

definition shock_payer :: "f64 \<Rightarrow> wallet_id \<Rightarrow> wallet \<Rightarrow> wallet" where
  "shock_payer frac target_id w =
     w\<lparr>w_balance := w_balance w - shock_take frac (w_balance w),
       w_iteration_tx_count := w_iteration_tx_count w + 1,
       w_iteration_counterparties := insert target_id (w_iteration_counterparties w)\<rparr>"

definition wealth_shock :: "f64 \<Rightarrow> nat \<Rightarrow> wallet list \<Rightarrow> wallet list" where
  "wealth_shock fraction target ws =
     (let frac = f64_clamp_unit fraction;
          target_id = w_id (ws ! target);
          moved = fold (\<lambda>(i, w) m. if i = target then m else sat_add m (shock_take frac (w_balance w)))
                    (enumerate 0 ws) 0;
          ws1 = map (\<lambda>(i, w). if i = target then w else shock_payer frac target_id w) (enumerate 0 ws);
          w = ws1 ! target
      in ws1[target := w\<lparr>w_balance := sat_add (w_balance w) moved,
                         w_iteration_tx_count := w_iteration_tx_count w + (of_nat (length ws1) - 1)\<rparr>])"

fun apply_event ::
  "float_lib \<Rightarrow> crypto_lib \<Rightarrow> 'r rng_lib \<Rightarrow> iteration_id \<Rightarrow> u64 \<Rightarrow> f64 \<Rightarrow> scripted_event \<Rightarrow> 'r sim_state \<Rightarrow> 'r sim_state"
where
  "apply_event F C R it seed frac (SpawnWallets at_iteration count balance) s =
     (if at_iteration = it
      then spawn_loop C (case balance of None \<Rightarrow> seed | Some b \<Rightarrow> b) (unat count) s else s)"
| "apply_event F C R it seed frac (TransferBurst at_iteration n_txs fraction) s =
     (if at_iteration = it \<and> 2 \<le> length (si_wallets s)
      then burst_loop F R (case fraction of None \<Rightarrow> frac | Some f \<Rightarrow> f) (length (si_wallets s)) (unat n_txs) s
      else s)"
| "apply_event F C R it seed frac (ChargeBurst at_iteration amount n_targets) s =
     (if at_iteration = it \<and> si_wallets s \<noteq> [] \<and> n_targets \<noteq> 0
      then charge_loop R (amount div max n_targets 1) (length (si_wallets s)) (unat n_targets) s else s)"
| "apply_event F C R it seed frac (WealthShock at_iteration fraction) s =
     (if at_iteration = it \<and> si_wallets s \<noteq> []
      then let (target, g) = rg_range R (length (si_wallets s)) (si_rng s)
           in s\<lparr>si_wallets := wealth_shock fraction target (si_wallets s), si_rng := g\<rparr>
      else s)"
| "apply_event F C R it seed frac UnknownEvent s = s"

text \<open>In declaration order; the transaction count starts at zero.\<close>

definition apply_scripted_events ::
  "float_lib \<Rightarrow> crypto_lib \<Rightarrow> 'r rng_lib \<Rightarrow> scripted_event list \<Rightarrow> iteration_id \<Rightarrow> u64 \<Rightarrow> f64
     \<Rightarrow> 'r sim_state \<Rightarrow> 'r sim_state"
where
  "apply_scripted_events F C R events it seed frac s =
     fold (apply_event F C R it seed frac) events (s\<lparr>si_txs := 0\<rparr>)"

section \<open>The run\<close>

text \<open>Faucet wallets are replaced by synthetic ones with fresh indices.\<close>

fun reid_loop :: "crypto_lib \<Rightarrow> iteration_id \<Rightarrow> wallet list \<Rightarrow> u64 \<Rightarrow> wallet list \<times> u64" where
  "reid_loop C it [] next_idx = ([], next_idx)"
| "reid_loop C it (w # ws) next_idx =
     (if w_created_at_iteration w = it
      then let (ws1, n1) = reid_loop C it ws (next_idx + 1) in (sim_wallet C next_idx (w_balance w) # ws1, n1)
      else let (ws1, n1) = reid_loop C it ws next_idx in (w # ws1, n1))"

definition advance_sim_state :: "iteration_commit \<Rightarrow> nat \<Rightarrow> system_state \<Rightarrow> system_state" where
  "advance_sim_state c n state =
     state\<lparr>ss_current_iteration := ic_iteration_id c, ss_total_supply := ic_post_supply c,
           ss_previous_iteration_start_supply := ic_snapshot_supply c,
           ss_previous_iteration_supply := ic_post_supply c, ss_last_inflation := ic_inflation c,
           ss_n_wallets := of_nat n\<rparr>"

text \<open>\<open>0.999\<close> is the threshold of an active wallet; an index out of range has median 0.\<close>

definition metrics_row :: "iteration_commit \<Rightarrow> wallet list \<Rightarrow> u64 \<Rightarrow> sim_metrics" where
  "metrics_row c ws n_txs =
     (let balances = sort (map w_balance ws)
      in \<lparr>sm_iteration = ic_iteration_id c, sm_supply = ic_post_supply c, sm_n_wallets = of_nat (length ws),
          sm_n_active = of_nat (length (filter (\<lambda>w. f64_le (f64_lit 999 1000) (w_activity_score w)) ws)),
          sm_gini = compute_gini_from_balances balances,
          sm_top10_share = top10_share (rev balances) (balance_total balances),
          sm_median_balance = (if length balances div 2 < length balances then balances ! (length balances div 2) else 0),
          sm_penalty_total = sum_list (map snd (ic_penalties c)), sm_burned = ic_burned c,
          sm_reward_total = sum_list (map snd (ic_rewards c)),
          sm_faucet_from_mint = ic_faucet_from_mint c, sm_new_wallets = of_nat (length (ic_new_wallets c)),
          sm_n_txs = n_txs, sm_burn_rate = ic_burn_rate c, sm_inflation = ic_inflation c\<rparr>)"

definition sim_iteration ::
  "float_lib \<Rightarrow> crypto_lib \<Rightarrow> 'r rng_lib \<Rightarrow> system_parameters \<Rightarrow> sim_config \<Rightarrow> system_state \<Rightarrow> 'r sim_state
     \<Rightarrow> (bytes + sim_metrics \<times> system_state \<times> 'r sim_state) option"
where
  "sim_iteration F C R parameters config state s =
     (let s1 = apply_scripted_events F C R (sc_scripted_events config) (ss_current_iteration state + 1)
                 (micro_seed parameters) (sc_transfer_fraction_mean config) s
      in case synthetic_activity F R config (ss_current_iteration state) s1 of
           None \<Rightarrow> None
         | Some s2 \<Rightarrow>
             (case execute_iteration F C (si_wallets s2) parameters state ''sim-operator'' of
                None \<Rightarrow> None
              | Some result \<Rightarrow> Some (and_then result (\<lambda>r.
                  let c = ir_commit r;
                      (ws, next_idx) = reid_loop C (ic_iteration_id c) (ir_wallets r) (si_next s2)
                  in Inr (metrics_row c ws (si_txs s2), advance_sim_state c (length ws) state,
                          s2\<lparr>si_wallets := ws, si_next := next_idx\<rparr>)))))"

fun sim_loop ::
  "float_lib \<Rightarrow> crypto_lib \<Rightarrow> 'r rng_lib \<Rightarrow> system_parameters \<Rightarrow> sim_config \<Rightarrow> nat \<Rightarrow> system_state \<Rightarrow> 'r sim_state
     \<Rightarrow> (bytes + sim_metrics list) option"
where
  "sim_loop F C R parameters config 0 state s = Some (Inr [])"
| "sim_loop F C R parameters config (Suc k) state s =
     (case sim_iteration F C R parameters config state s of
        None \<Rightarrow> None
      | Some (Inl e) \<Rightarrow> Some (Inl e)
      | Some (Inr (row, state1, s1)) \<Rightarrow>
          map_option (\<lambda>rest. and_then rest (\<lambda>rows. Inr (row # rows)))
            (sim_loop F C R parameters config k state1 s1))"

definition run_simulation ::
  "float_lib \<Rightarrow> crypto_lib \<Rightarrow> 'r rng_lib \<Rightarrow> system_parameters \<Rightarrow> sim_config \<Rightarrow> (bytes + sim_metrics list) option"
where
  "run_simulation F C R parameters config =
     (let (ws, g) = initial_wallets F C R (sc_initial_wealth_sigma config) (micro_seed parameters) 0
                      (unat (sc_initial_wallets config)) (rg_seed R (sc_rng_seed config))
      in sim_loop F C R parameters config (unat (sc_iterations config)) default_system_state
           \<lparr>si_wallets = ws, si_next = sc_initial_wallets config, si_rng = g, si_txs = 0\<rparr>)"

end
