(* ===== verification/Simulator_Props.thy ===== *)
theory Simulator_Props
  imports Simulator Economy_Props Gini
begin

text \<open>
  What the simulator's runs satisfy: when its sampling loop returns, that synthetic activity moves
  balances without creating or destroying any, and the ranges of the metrics it prints.
\<close>

section \<open>The sampling loop\<close>

text \<open>The running product after \<open>i\<close> draws, and the generator after them.\<close>

fun draw_product :: "'r rng_lib \<Rightarrow> f64 \<Rightarrow> 'r \<Rightarrow> nat \<Rightarrow> f64" where
  "draw_product R p g 0 = p"
| "draw_product R p g (Suc i) = draw_product R (f64_mul p (fst (rg_f64 R g))) (snd (rg_f64 R g)) i"

fun rng_after :: "'r rng_lib \<Rightarrow> 'r \<Rightarrow> nat \<Rightarrow> 'r" where
  "rng_after R g 0 = g"
| "rng_after R g (Suc i) = rng_after R (snd (rg_f64 R g)) i"

lemma poisson_loop_Some:
  assumes "f64_le (draw_product R p g (Suc i)) l" "\<And>j. j < i \<Longrightarrow> \<not> f64_le (draw_product R p g (Suc j)) l"
  shows "poisson_loop R l k p g = Some (k + of_nat i, rng_after R g (Suc i))"
  using assms
proof (induction i arbitrary: k p g)
  case 0
  then show ?case by (simp add: poisson_loop.simps [of R l k p g])
next
  case (Suc i)
  have "\<not> f64_le (f64_mul p (fst (rg_f64 R g))) l" using Suc.prems(2) [of 0] by simp
  moreover have "poisson_loop R l (k + 1) (f64_mul p (fst (rg_f64 R g))) (snd (rg_f64 R g))
      = Some (k + 1 + of_nat i, rng_after R (snd (rg_f64 R g)) (Suc i))"
    using Suc.prems(1) Suc.prems(2) [of "Suc j" for j] by (intro Suc.IH) simp_all
  ultimately show ?case by (simp add: poisson_loop.simps [of R l k p g])
qed

lemma poisson_loop_found:
  assumes "poisson_loop R l k p g = Some y"
  shows "\<exists>i. f64_le (draw_product R p g (Suc i)) l"
proof (rule poisson_loop.raw_induct
    [where P = "\<lambda>R l k p g y. \<exists>i. f64_le (draw_product R p g (Suc i)) l", OF _ assms])
  fix loop R l k p g y
  assume IH: "\<And>R l k p g y. loop R l k p g = Some y \<Longrightarrow> \<exists>i. f64_le (draw_product R p g (Suc i)) l"
    and step: "(if f64_le (f64_mul p (fst (rg_f64 R g))) l then Some (k + 1 - 1, snd (rg_f64 R g))
      else loop R l (k + 1) (f64_mul p (fst (rg_f64 R g))) (snd (rg_f64 R g))) = Some y"
  show "\<exists>i. f64_le (draw_product R p g (Suc i)) l"
  proof (cases "f64_le (f64_mul p (fst (rg_f64 R g))) l")
    case True
    then show ?thesis by (intro exI [of _ 0]) simp
  next
    case False
    then obtain i where "f64_le (draw_product R (f64_mul p (fst (rg_f64 R g))) (snd (rg_f64 R g)) (Suc i)) l"
      using IH step by (metis (no_types))
    then show ?thesis by (intro exI [of _ "Suc i"]) simp
  qed
qed

lemma f64_le_NaN: "\<not> f64_le x FNaN"
  by (cases x) (simp_all add: f64_le_def)

lemma poisson_loop_never:
  assumes "\<nexists>i. f64_le (draw_product R f64_one g (Suc i)) l"
  shows "poisson_loop R l 0 f64_one g = None"
  using poisson_loop_found [of R l 0 f64_one g] assms by (cases "poisson_loop R l 0 f64_one g") blast+

text \<open>
  C37. The Poisson sampler returns exactly when some running product of the drawn numbers is at most
  \<open>exp(-lambda)\<close>, and then its result is the number of draws before the first such product.
\<close>

theorem poisson_returns_first:
  "sample_poisson F R lambda g =
     (if f64_le lambda f64_zero then Some (0, g)
      else if \<exists>i. f64_le (draw_product R f64_one g (Suc i)) (fl_exp F (f64_neg lambda))
      then let i = (LEAST i. f64_le (draw_product R f64_one g (Suc i)) (fl_exp F (f64_neg lambda)))
           in Some (of_nat i, rng_after R g (Suc i))
      else None)"
proof -
  let ?l = "fl_exp F (f64_neg lambda)"
  let ?P = "\<lambda>i. f64_le (draw_product R f64_one g (Suc i)) ?l"
  have "poisson_loop R ?l 0 f64_one g = Some (0 + of_nat (LEAST i. ?P i), rng_after R g (Suc (LEAST i. ?P i)))"
    if "\<exists>i. ?P i"
    using that LeastI_ex [OF that] not_less_Least [of _ ?P] by (intro poisson_loop_Some) blast+
  then show ?thesis using poisson_loop_never [of R g ?l] by (simp add: sample_poisson_def Let_def)
qed

text \<open>
  C38. For a NaN rate, which the command line accepts as \<open>--tx-per-wallet\<close>, the sampler never returns,
  whatever the generator draws (\<open>exp\<close> of NaN is NaN).
\<close>

theorem poisson_nan_rate_diverges:
  assumes "fl_exp F FNaN = FNaN"
  shows "sample_poisson F R FNaN g = None"
  using assms poisson_loop_never [of R g FNaN] by (auto simp: sample_poisson_def f64_le_NaN) (simp add: f64_le_def)

section \<open>Activity conserves balances\<close>

text \<open>What \<open>gen_range(0..n)\<close> promises.\<close>

definition rng_laws :: "'r rng_lib \<Rightarrow> bool" where
  "rng_laws R \<longleftrightarrow> (\<forall>n g. 0 < n \<longrightarrow> fst (rg_range R n g) < n)"

abbreviation total_balance :: "wallet list \<Rightarrow> nat" where
  "total_balance ws \<equiv> usum (map w_balance ws)"

lemma usum_update:
  "i < length ws \<Longrightarrow> total_balance (ws[i := w]) + unat (w_balance (ws ! i)) = total_balance ws + unat (w_balance w)"
  by (induction ws arbitrary: i) (auto simp: less_Suc_eq_0_disj)

lemma balance_le_total: "i < length ws \<Longrightarrow> unat (w_balance (ws ! i)) \<le> total_balance ws"
  using usum_member_le [of "w_balance (ws ! i)" "map w_balance ws"] by simp

lemma sim_fields [simp]:
  "w_balance (sim_debit it a k w) = w_balance w - a" "w_balance (sim_credit it a k w) = sat_add (w_balance w) a"
  "w_id (sim_debit it a k w) = w_id w" "w_id (sim_credit it a k w) = w_id w"
  by (simp_all add: sim_debit_def sim_credit_def)

lemma map_w_id_update: "i < length ws \<Longrightarrow> w_id w = w_id (ws ! i) \<Longrightarrow> map w_id (ws[i := w]) = map w_id ws"
  by (simp add: map_update list_update_same_conv)

lemma sim_transfer_total:
  assumes "i < length ws" "j < length ws" "i \<noteq> j" "a \<le> w_balance (ws ! i)" "total_balance ws < 2 ^ 64"
  shows "total_balance (sim_transfer it i j a ws) = total_balance ws"
    and "map w_id (sim_transfer it i j a ws) = map w_id ws"
proof -
  let ?ws1 = "ws[i := sim_debit it a (w_id (ws ! j)) (ws ! i)]"
  have u: "unat (w_balance (ws ! i) - a) = unat (w_balance (ws ! i)) - unat a"
    "unat a \<le> unat (w_balance (ws ! i))"
    using assms(4) by (simp_all add: unat_sub_small word_le_nat_alt)
  have one: "total_balance ?ws1 + unat a = total_balance ws"
    using usum_update [OF assms(1), of "sim_debit it a (w_id (ws ! j)) (ws ! i)"] u by simp
  have j: "j < length ?ws1" "?ws1 ! j = ws ! j" using assms(2,3) by simp_all
  have fits: "unat (w_balance (ws ! j)) + unat a < 2 ^ 64"
    using balance_le_total [OF j(1)] one assms(5) by (simp add: j(2))
  have "unat (sat_add (w_balance (ws ! j)) a) = unat (w_balance (ws ! j)) + unat a"
    using fits by (simp add: unat_sat_add)
  then show "total_balance (sim_transfer it i j a ws) = total_balance ws"
    using usum_update [OF j(1), of "sim_credit it a (w_id (ws ! i)) (?ws1 ! j)"] one
    by (simp add: sim_transfer_def j(2))
  show "map w_id (sim_transfer it i j a ws) = map w_id ws"
    using assms(1-3) by (simp add: sim_transfer_def map_w_id_update)
qed

lemma pick_recipient_range:
  assumes "rng_laws R" "2 \<le> n" "i < n" "pick_recipient R n i g = (j, g1)"
  shows "j < n" "j \<noteq> i"
proof -
  have "fst (rg_range R n g) < n" using assms(1,2) by (simp add: rng_laws_def)
  then have "j < n \<and> j \<noteq> i"
    using assms(2-4) by (cases "Suc i = n") (auto simp: pick_recipient_def split: prod.splits if_splits)
  then show "j < n" "j \<noteq> i" by simp_all
qed

lemma draw_amount_le: "draw_amount F R m b g = (a, g1) \<Longrightarrow> a \<le> b"
  by (auto simp: draw_amount_def Let_def split: prod.splits)

text \<open>Same wallets, same total.\<close>

definition conserves :: "'r sim_state \<Rightarrow> 'r sim_state \<Rightarrow> bool" where
  "conserves s s' \<longleftrightarrow>
     map w_id (si_wallets s') = map w_id (si_wallets s) \<and> si_next s' = si_next s \<and>
     total_balance (si_wallets s') = total_balance (si_wallets s)"

lemma conserves_length: "conserves s s' \<Longrightarrow> length (si_wallets s') = length (si_wallets s)"
  unfolding conserves_def by (metis length_map)

lemma conserves_trans: "conserves s s' \<Longrightarrow> conserves s' s'' \<Longrightarrow> conserves s s''"
  by (simp add: conserves_def)

lemma conserves_transfer:
  assumes "i < length (si_wallets s)" "j < length (si_wallets s)" "i \<noteq> j" "a \<le> w_balance (si_wallets s ! i)"
    and "total_balance (si_wallets s) < 2 ^ 64"
  shows "conserves s (if a = 0 then s\<lparr>si_rng := g\<rparr>
    else s\<lparr>si_rng := g, si_wallets := sim_transfer it i j a (si_wallets s), si_txs := t\<rparr>)"
  using sim_transfer_total [OF assms] by (simp add: conserves_def)

lemma sender_loop_conserves:
  assumes "rng_laws R" "2 \<le> n" "i < n" "length (si_wallets s) = n" "total_balance (si_wallets s) < 2 ^ 64"
  shows "conserves s (sender_loop F R m it n i k s)"
  using assms(4,5)
proof (induction k arbitrary: s)
  case (Suc k)
  show ?case
  proof (cases "w_balance (si_wallets s ! i) = 0")
    case False
    obtain j g1 where j: "pick_recipient R n i (si_rng s) = (j, g1)" by fastforce
    obtain a g2 where a: "draw_amount F R m (w_balance (si_wallets s ! i)) g1 = (a, g2)" by fastforce
    let ?s1 = "if a = 0 then s\<lparr>si_rng := g2\<rparr>
      else s\<lparr>si_rng := g2, si_wallets := sim_transfer (Some it) i j a (si_wallets s), si_txs := si_txs s + 1\<rparr>"
    have c: "conserves s ?s1"
      using conserves_transfer [where i = i and s = s and j = j and a = a and g = g2 and it = "Some it"] pick_recipient_range [OF assms(1-3) j] draw_amount_le [OF a]
        Suc.prems assms(3) by simp
    have "conserves ?s1 (sender_loop F R m it n i k ?s1)"
      using c conserves_length [OF c] Suc.prems by (intro Suc.IH) (simp_all add: conserves_def)
    with c have "conserves s (sender_loop F R m it n i k ?s1)" by (rule conserves_trans)
    moreover have "sender_loop F R m it n i (Suc k) s = sender_loop F R m it n i k ?s1"
      using False j a by (simp add: Let_def)
    ultimately show ?thesis by simp
  qed (simp add: conserves_def)
qed (simp add: conserves_def)

lemma activity_loop_conserves:
  assumes "rng_laws R" "2 \<le> n" "activity_loop F R config it n is s = Some s'" "set is \<subseteq> {..<n}"
    and "length (si_wallets s) = n" "total_balance (si_wallets s) < 2 ^ 64"
  shows "conserves s s'"
  using assms(3-)
proof (induction "is" arbitrary: s)
  case (Cons i "is")
  obtain k g where k: "sample_poisson F R (sc_tx_per_wallet_mean config) (si_rng s) = Some (k, g)"
    "activity_loop F R config it n is
       (sender_loop F R (sc_transfer_fraction_mean config) it n i (unat k) (s\<lparr>si_rng := g\<rparr>)) = Some s'"
    using Cons.prems(1) by (auto split: option.splits)
  let ?s1 = "sender_loop F R (sc_transfer_fraction_mean config) it n i (unat k) (s\<lparr>si_rng := g\<rparr>)"
  have c: "conserves (s\<lparr>si_rng := g\<rparr>) ?s1"
    using Cons.prems by (intro sender_loop_conserves [OF assms(1,2)]) simp_all
  moreover have "conserves s (s\<lparr>si_rng := g\<rparr>)" by (simp add: conserves_def)
  moreover have "conserves ?s1 s'"
    using Cons.prems c conserves_length [OF c] by (intro Cons.IH [OF k(2)]) (simp_all add: conserves_def)
  ultimately show ?case using conserves_trans by blast
qed (simp add: conserves_def)

text \<open>
  C34. The synthetic activity of an iteration only moves balances: the wallets stay the same, in the
  same order, and the sum of their balances is unchanged, as long as it fits in 64 bits.
\<close>

theorem activity_conserves_supply:
  assumes "rng_laws R" "total_balance (si_wallets s) < 2 ^ 64"
    and "synthetic_activity F R config it s = Some s'"
  shows "map w_id (si_wallets s') = map w_id (si_wallets s)
    \<and> total_balance (si_wallets s') = total_balance (si_wallets s)"
proof (cases "2 \<le> length (si_wallets s)")
  case True
  then have "conserves s s'"
    using assms by (intro activity_loop_conserves [OF assms(1) True, of F config it "[0..<length (si_wallets s)]"])
      (auto simp: synthetic_activity_def Let_def)
  then show ?thesis by (simp add: conserves_def)
qed (use assms(3) in \<open>simp add: synthetic_activity_def\<close>)

section \<open>Scripted events\<close>

lemma burst_loop_conserves:
  assumes "rng_laws R" "2 \<le> n" "length (si_wallets s) = n" "total_balance (si_wallets s) < 2 ^ 64"
  shows "conserves s (burst_loop F R m n k s)"
  using assms(3,4)
proof (induction k arbitrary: s)
  case (Suc k)
  obtain i g1 where i: "rg_range R n (si_rng s) = (i, g1)" by fastforce
  then have lt: "i < n" using assms(1,2) unfolding rng_laws_def by (metis fst_conv less_le_trans pos2)
  show ?case
  proof (cases "w_balance (si_wallets s ! i) = 0")
    case True
    have "conserves s (s\<lparr>si_rng := g1\<rparr>)" by (simp add: conserves_def)
    moreover have "conserves (s\<lparr>si_rng := g1\<rparr>) (burst_loop F R m n k (s\<lparr>si_rng := g1\<rparr>))"
      using Suc.prems by (intro Suc.IH) simp_all
    ultimately show ?thesis using True i conserves_trans by simp
  next
    case False
    obtain j g2 where j: "pick_recipient R n i g1 = (j, g2)" by fastforce
    obtain a g3 where a: "draw_amount F R m (w_balance (si_wallets s ! i)) g2 = (a, g3)" by fastforce
    let ?s1 = "if a = 0 then s\<lparr>si_rng := g3\<rparr>
      else s\<lparr>si_rng := g3, si_wallets := sim_transfer None i j a (si_wallets s), si_txs := si_txs s + 1\<rparr>"
    have c: "conserves s ?s1"
      using conserves_transfer [where i = i and s = s and j = j and a = a and g = g3 and it = None]
        pick_recipient_range [OF assms(1,2) lt j] draw_amount_le [OF a] Suc.prems lt by simp
    have "conserves ?s1 (burst_loop F R m n k ?s1)"
      using c conserves_length [OF c] Suc.prems by (intro Suc.IH) (simp_all add: conserves_def)
    with c have "conserves s (burst_loop F R m n k ?s1)" by (rule conserves_trans)
    moreover have "burst_loop F R m n (Suc k) s = burst_loop F R m n k ?s1" using False i j a by (simp add: Let_def)
    ultimately show ?thesis by simp
  qed
qed (simp add: conserves_def)

text \<open>The two passes of a wealth shock, over the wallets from index \<open>k\<close> on.\<close>

lemma shock_take_le: "unat (shock_take fr b) \<le> unat b"
  by (simp add: shock_take_def unat_min_word)

lemma shock_payer_balance: "unat (w_balance (shock_payer fr t w)) + unat (shock_take fr (w_balance w))
    = unat (w_balance w)"
  using shock_take_le [of fr "w_balance w"] by (simp add: shock_payer_def unat_sub_small word_le_nat_alt)

definition shock_taken :: "f64 \<Rightarrow> nat \<Rightarrow> nat \<Rightarrow> wallet list \<Rightarrow> nat" where
  "shock_taken fr target k ws =
     (\<Sum>(i, w) \<leftarrow> enumerate k ws. if i = target then 0 else unat (shock_take fr (w_balance w)))"

lemma shock_taken_simps [simp]:
  "shock_taken fr target k [] = 0"
  "shock_taken fr target k (w # ws)
     = (if k = target then 0 else unat (shock_take fr (w_balance w))) + shock_taken fr target (Suc k) ws"
  by (simp_all add: shock_taken_def)

lemma shock_payments:
  "total_balance (map (\<lambda>(i, w). if i = target then w else shock_payer fr t w) (enumerate k ws))
     + shock_taken fr target k ws = total_balance ws"
proof (induction ws arbitrary: k)
  case (Cons w ws)
  show ?case using Cons [of "Suc k"] shock_payer_balance [of fr t w] by (cases "k = target") simp_all
qed simp

lemma shock_moved:
  "unat m + shock_taken fr target k ws < 2 ^ 64 \<Longrightarrow>
   unat (fold (\<lambda>(i, w) m. if i = target then m else sat_add m (shock_take fr (w_balance w))) (enumerate k ws) m)
     = unat m + shock_taken fr target k ws"
proof (induction ws arbitrary: k m)
  case (Cons w ws)
  let ?m = "if k = target then m else sat_add m (shock_take fr (w_balance w))"
  have "unat ?m + shock_taken fr target (Suc k) ws = unat m + shock_taken fr target k (w # ws)"
    using Cons.prems by (cases "k = target") (simp_all add: unat_sat_add)
  then show ?case using Cons.IH [of ?m "Suc k"] Cons.prems by simp
qed simp

lemma wealth_shock_total:
  assumes "target < length ws" "total_balance ws < 2 ^ 64"
  shows "total_balance (wealth_shock f target ws) = total_balance ws"
    and "map w_id (wealth_shock f target ws) = map w_id ws"
proof -
  let ?fr = "f64_clamp_unit f"
  let ?t = "w_id (ws ! target)"
  let ?taken = "shock_taken ?fr target 0 ws"
  let ?ws1 = "map (\<lambda>(i, w). if i = target then w else shock_payer ?fr ?t w) (enumerate 0 ws)"
  let ?moved = "fold (\<lambda>(i, w) m. if i = target then m else sat_add m (shock_take ?fr (w_balance w))) (enumerate 0 ws) 0"
  let ?w = "(?ws1 ! target)\<lparr>w_balance := sat_add (w_balance (?ws1 ! target)) ?moved,
    w_iteration_tx_count := w_iteration_tx_count (?ws1 ! target) + (of_nat (length ?ws1) - 1)\<rparr>"
  have sum: "total_balance ?ws1 + ?taken = total_balance ws" by (rule shock_payments)
  then have moved: "unat ?moved = ?taken"
    using shock_moved [of 0 ?fr target 0 ws] assms(2) by simp
  have t: "target < length ?ws1" using assms(1) by simp
  then have "unat (w_balance (?ws1 ! target)) + ?taken < 2 ^ 64"
    using balance_le_total [OF t] sum assms(2) by linarith
  then have "unat (w_balance ?w) = unat (w_balance (?ws1 ! target)) + ?taken"
    by (simp add: unat_sat_add moved)
  then have "total_balance (?ws1[target := ?w]) = total_balance ws"
    using usum_update [OF t, of ?w] sum by linarith
  then show "total_balance (wealth_shock f target ws) = total_balance ws"
    by (simp only: wealth_shock_def Let_def)
  have "map w_id ?ws1 = map w_id ws"
    by (rule nth_equalityI) (simp_all add: nth_enumerate_eq shock_payer_def)
  then have "map w_id (?ws1[target := ?w]) = map w_id ws"
    using map_w_id_update [OF t, of ?w] by simp
  then show "map w_id (wealth_shock f target ws) = map w_id ws"
    by (simp only: wealth_shock_def Let_def)
qed

text \<open>
  C35. A scripted transfer burst or wealth shock moves balances between the existing wallets and
  conserves their sum, as long as it fits in 64 bits.
\<close>

theorem scripted_moves_conserve_supply:
  assumes "rng_laws R" "total_balance (si_wallets s) < 2 ^ 64"
    and "ev = TransferBurst at_it n_txs share' \<or> ev = WealthShock at_it share"
  shows "map w_id (si_wallets (apply_event F C R it seed m ev s)) = map w_id (si_wallets s)
    \<and> total_balance (si_wallets (apply_event F C R it seed m ev s)) = total_balance (si_wallets s)"
proof -
  have "rg_range R (length (si_wallets s)) (si_rng s) = (target, g) \<Longrightarrow> si_wallets s \<noteq> [] \<Longrightarrow>
      target < length (si_wallets s)" for target g
    using assms(1) unfolding rng_laws_def by (metis fst_conv length_greater_0_conv)
  moreover have "2 \<le> length (si_wallets s) \<Longrightarrow> conserves s (burst_loop F R m' (length (si_wallets s)) k s)" for m' k
    using burst_loop_conserves [OF assms(1) _ refl assms(2)] by blast
  ultimately show ?thesis
    using assms(3) wealth_shock_total [OF _ assms(2)]
    by (auto simp: conserves_def split: prod.splits)
qed

section \<open>The metrics\<close>

lemma f64_le_refl: "f64_le x y \<Longrightarrow> f64_le x x \<and> f64_le y y \<and> f64_nan_free x \<and> f64_nan_free y"
  by (cases x; cases y) (simp_all add: f64_le_def)

lemma f64_clamp_range:
  assumes "f64_clamp x lo hi = Some y"
  shows "y = FNaN \<or> f64_le lo y \<and> f64_le y hi"
proof (cases "x = FNaN")
  case True
  then have "\<not> f64_lt x lo" "\<not> f64_lt hi x" by simp (cases hi; simp add: True)
  then show ?thesis using assms True by (auto simp: f64_clamp_def Let_def split: if_splits)
next
  case False
  then have x: "f64_nan_free x" by (cases x) simp_all
  have lh: "f64_le lo hi" using assms by (simp add: f64_clamp_def split: if_splits)
  then have nf: "f64_le lo lo" "f64_le hi hi" "f64_nan_free lo" "f64_nan_free hi"
    using f64_le_refl by blast+
  have "\<not> f64_lt x lo \<Longrightarrow> f64_le lo x" "\<not> f64_lt hi x \<Longrightarrow> f64_le x hi"
    using f64_total x nf by blast+
  then show ?thesis using assms lh nf by (auto simp: f64_clamp_def Let_def split: if_splits)
qed

lemma sim_iteration_Inr:
  assumes "sim_iteration F C R parameters config state s = Some (Inr (row, state', s'))"
  obtains s2 r ws next_idx where
    "synthetic_activity F R config (ss_current_iteration state)
       (apply_scripted_events F C R (sc_scripted_events config) (ss_current_iteration state + 1)
          (micro_seed parameters) (sc_transfer_fraction_mean config) s) = Some s2"
    "execute_iteration F C (si_wallets s2) parameters state ''sim-operator'' = Some (Inr r)"
    "reid_loop C (ic_iteration_id (ir_commit r)) (ir_wallets r) (si_next s2) = (ws, next_idx)"
    "row = metrics_row (ir_commit r) ws (si_txs s2)" "state' = advance_sim_state (ir_commit r) (length ws) state"
    "s' = s2\<lparr>si_wallets := ws, si_next := next_idx\<rparr>"
proof -
  obtain s2 where s2: "synthetic_activity F R config (ss_current_iteration state)
       (apply_scripted_events F C R (sc_scripted_events config) (ss_current_iteration state + 1)
          (micro_seed parameters) (sc_transfer_fraction_mean config) s) = Some s2"
    using assms by (auto simp: sim_iteration_def Let_def split: option.splits)
  obtain result where res: "execute_iteration F C (si_wallets s2) parameters state ''sim-operator'' = Some result"
    using assms s2 by (auto simp: sim_iteration_def Let_def split: option.splits)
  obtain r where r: "result = Inr r"
    using assms s2 res by (cases result) (auto simp: sim_iteration_def)
  obtain ws nx where ws: "reid_loop C (ic_iteration_id (ir_commit r)) (ir_wallets r) (si_next s2) = (ws, nx)"
    by (cases "reid_loop C (ic_iteration_id (ir_commit r)) (ir_wallets r) (si_next s2)")
  have "row = metrics_row (ir_commit r) ws (si_txs s2)" "state' = advance_sim_state (ir_commit r) (length ws) state"
    "s' = s2\<lparr>si_wallets := ws, si_next := nx\<rparr>"
    using assms s2 res r ws by (simp_all add: sim_iteration_def Let_def)
  then show thesis using that s2 res r ws by blast
qed

text \<open>
  C36. Every row the simulator prints has a Gini coefficient between 0 and 1 and a burn rate between
  the configured bounds (or NaN, when a parameter is), as long as there are fewer than \<open>2^32\<close> wallets.
\<close>

theorem metrics_in_range:
  assumes "sim_iteration F C R parameters config state s = Some (Inr (row, state', s'))"
    and "length (si_wallets s') < 2 ^ 32"
  shows "in_unit (sm_gini row) \<and>
    (sm_burn_rate row = FNaN \<or>
     f64_le (ep_burn_min (p_economy parameters)) (sm_burn_rate row) \<and>
     f64_le (sm_burn_rate row) (ep_burn_max (p_economy parameters)))"
proof -
  obtain s2 r ws next_idx where x: "synthetic_activity F R config (ss_current_iteration state)
       (apply_scripted_events F C R (sc_scripted_events config) (ss_current_iteration state + 1)
          (micro_seed parameters) (sc_transfer_fraction_mean config) s) = Some s2"
    "execute_iteration F C (si_wallets s2) parameters state ''sim-operator'' = Some (Inr r)"
    "reid_loop C (ic_iteration_id (ir_commit r)) (ir_wallets r) (si_next s2) = (ws, next_idx)"
    "row = metrics_row (ir_commit r) ws (si_txs s2)" "state' = advance_sim_state (ir_commit r) (length ws) state"
    "s' = s2\<lparr>si_wallets := ws, si_next := next_idx\<rparr>"
    by (rule sim_iteration_Inr [OF assms(1)])
  then have run: "execute_iteration F C (si_wallets s2) parameters state ''sim-operator'' = Some (Inr r)"
    and row: "row = metrics_row (ir_commit r) ws (si_txs s2)" and ws: "si_wallets s' = ws"
    by simp_all
  have "sort (map w_balance ws) = [] \<longleftrightarrow> ws = []" by (metis length_0_conv length_sort length_map)
  then have "sm_gini row = compute_gini ws"
    by (simp add: row metrics_row_def Let_def compute_gini_def compute_gini_from_balances_def sorted_sort_id)
  then have "in_unit (sm_gini row)" using gini_bounded [of ws] assms(2) ws by simp
  moreover obtain beta where "burn_rate (p_economy parameters) (iteration_inflation state) = Some beta"
    "sm_burn_rate row = beta"
    using run by (rule execute_iteration_Inr) (simp add: row metrics_row_def Let_def)
  then have "sm_burn_rate row = FNaN \<or> f64_le (ep_burn_min (p_economy parameters)) (sm_burn_rate row) \<and>
     f64_le (sm_burn_rate row) (ep_burn_max (p_economy parameters))"
    using f64_clamp_range by (auto simp: burn_rate_def)
  ultimately show ?thesis by simp
qed

end
