(* ===== verification/Simulator_Ids.thy ===== *)
theory Simulator_Ids
  imports Accounting Simulator_Props
begin

text \<open>
  The population of the simulator over a whole run: wallet number \<open>i\<close> carries the \<open>i\<close>-th synthetic
  id, whatever transfers, scripted events and iterations did, because faucet wallets are renamed as
  soon as they appear and nothing is ever removed.
\<close>

definition sim_name :: "u64 \<Rightarrow> bytes" where
  "sim_name idx = ''aggora-sim-wallet:'' @ show_u64 idx"

text \<open>What no balance change touches.\<close>

definition tag :: "wallet \<Rightarrow> wallet_id \<times> iteration_id" where
  "tag w = (w_id w, w_created_at_iteration w)"

abbreviation synthetic_tags :: "crypto_lib \<Rightarrow> u64 \<Rightarrow> nat \<Rightarrow> (wallet_id \<times> iteration_id) list" where
  "synthetic_tags C k n \<equiv> map (\<lambda>i. (blake3_hex C (sim_name (k + of_nat i)), 0)) [0..<n]"

definition numbered :: "crypto_lib \<Rightarrow> 'r sim_state \<Rightarrow> bool" where
  "numbered C s \<longleftrightarrow> si_next s = of_nat (length (si_wallets s)) \<and>
     map tag (si_wallets s) = synthetic_tags C 0 (length (si_wallets s))"

lemma tag_sim_wallet [simp]: "tag (sim_wallet C idx b) = (blake3_hex C (sim_name idx), 0)"
  by (simp add: tag_def sim_wallet_def sim_name_def Let_def)

lemma synthetic_tags_Suc: "synthetic_tags C k (Suc n) = (blake3_hex C (sim_name k), 0) # synthetic_tags C (k + 1) n"
  by (subst map_upt_Suc) (simp add: add.assoc)

lemma synthetic_tags_append: "synthetic_tags C k (n + m) = synthetic_tags C k n @ synthetic_tags C (k + of_nat n) m"
proof (induction n arbitrary: k)
  case (Suc n)
  show ?case using Suc [of "k + 1"] by (simp only: add_Suc synthetic_tags_Suc) (simp add: add.assoc)
qed simp

section \<open>Steps that keep the population\<close>

definition same_tags :: "'r sim_state \<Rightarrow> 'r sim_state \<Rightarrow> bool" where
  "same_tags s s' \<longleftrightarrow> map tag (si_wallets s') = map tag (si_wallets s) \<and> si_next s' = si_next s"

lemma same_tags_numbered: "same_tags s s' \<Longrightarrow> numbered C s \<Longrightarrow> numbered C s'"
  unfolding same_tags_def numbered_def by (metis length_map)

lemma same_tags_trans: "same_tags s s' \<Longrightarrow> same_tags s' s'' \<Longrightarrow> same_tags s s''"
  by (simp add: same_tags_def)

lemma map_tag_update: "tag w = tag (ws ! i) \<Longrightarrow> map tag (ws[i := w]) = map tag ws"
proof (cases "i < length ws")
  case True
  then show "tag w = tag (ws ! i) \<Longrightarrow> ?thesis" by (simp add: map_update list_update_same_conv)
qed (simp add: not_less list_update_beyond)

lemma tag_balance_changes [simp]:
  "tag (sim_debit it a k w) = tag w" "tag (sim_credit it a k w) = tag w" "tag (shock_payer fr t w) = tag w"
  "tag (w\<lparr>w_balance := b\<rparr>) = tag w" "tag (w\<lparr>w_balance := b, w_iteration_tx_count := c\<rparr>) = tag w"
  by (simp_all add: tag_def sim_debit_def sim_credit_def shock_payer_def)

lemma sim_transfer_tags [simp]: "map tag (sim_transfer it i j a ws) = map tag ws"
  by (simp add: sim_transfer_def Let_def map_tag_update)

lemma sender_loop_tags: "same_tags s (sender_loop F R m it n i k s)"
proof (induction k arbitrary: s)
  case (Suc k)
  show ?case
    by (auto simp: Let_def same_tags_def split: prod.split)
      (use Suc in \<open>simp_all add: same_tags_def\<close>)
qed (simp add: same_tags_def)

lemma activity_loop_tags: "activity_loop F R config it n is s = Some s' \<Longrightarrow> same_tags s s'"
proof (induction "is" arbitrary: s)
  case (Cons i "is")
  obtain k :: u64 and g where "activity_loop F R config it n is
      (sender_loop F R (sc_transfer_fraction_mean config) it n i (unat k) (s\<lparr>si_rng := g\<rparr>)) = Some s'"
    using Cons.prems by (auto split: option.splits)
  from Cons.IH [OF this]
  have "same_tags (sender_loop F R (sc_transfer_fraction_mean config) it n i (unat k) (s\<lparr>si_rng := g\<rparr>)) s'" .
  moreover have "same_tags (s\<lparr>si_rng := g\<rparr>) (sender_loop F R m it n i (unat k) (s\<lparr>si_rng := g\<rparr>))" for m
    by (rule sender_loop_tags)
  ultimately show ?case by (simp add: same_tags_def)
qed (simp add: same_tags_def)

lemma burst_loop_tags: "same_tags s (burst_loop F R m n k s)"
proof (induction k arbitrary: s)
  case (Suc k)
  show ?case
    by (auto simp: Let_def same_tags_def split: prod.split)
      (use Suc in \<open>simp_all add: same_tags_def\<close>)
qed (simp add: same_tags_def)

lemma charge_loop_tags: "same_tags s (charge_loop R a n k s)"
proof (induction k arbitrary: s)
  case (Suc k)
  show ?case
    by (auto simp: Let_def same_tags_def split: prod.split)
      (use Suc in \<open>simp_all add: same_tags_def map_tag_update\<close>)
qed (simp add: same_tags_def)

lemma wealth_shock_tags: "map tag (wealth_shock f target ws) = map tag ws"
proof -
  have "map tag (map (\<lambda>(i, w). if i = target then w else shock_payer fr t w) (enumerate 0 ws)) = map tag ws" for fr t
    by (rule nth_equalityI) (simp_all add: nth_enumerate_eq)
  then show ?thesis by (simp add: wealth_shock_def Let_def map_tag_update)
qed

section \<open>Steps that add wallets\<close>

lemma numbered_snoc:
  "numbered C s \<Longrightarrow> numbered C (s\<lparr>si_wallets := si_wallets s @ [sim_wallet C (si_next s) b], si_next := si_next s + 1\<rparr>)"
  by (simp add: numbered_def add.commute)

lemma spawn_loop_numbered: "numbered C s \<Longrightarrow> numbered C (spawn_loop C a k s)"
  by (induction k arbitrary: s) (simp_all add: numbered_snoc)

lemma apply_event_numbered: "numbered C s \<Longrightarrow> numbered C (apply_event F C R it seed m ev s)"
proof (cases ev)
  case (WealthShock at_it fr)
  then show "numbered C s \<Longrightarrow> ?thesis"
    by (auto simp: same_tags_def wealth_shock_tags split: prod.split elim!: same_tags_numbered [rotated])
qed (auto intro: spawn_loop_numbered same_tags_numbered [OF burst_loop_tags] same_tags_numbered [OF charge_loop_tags])

lemma scripted_numbered:
  assumes "numbered C s"
  shows "numbered C (apply_scripted_events F C R events it seed m s)"
proof -
  have "numbered C s1 \<Longrightarrow> numbered C (fold (apply_event F C R it seed m) events s1)" for s1
    by (induction events arbitrary: s1) (simp_all add: apply_event_numbered)
  moreover have "numbered C (s\<lparr>si_txs := 0\<rparr>)" using assms by (simp add: numbered_def)
  ultimately show ?thesis by (simp add: apply_scripted_events_def)
qed

lemma initial_wallets_tags:
  "initial_wallets F C R sigma seed i k g = (ws, g') \<Longrightarrow> length ws = k \<and> map tag ws = synthetic_tags C (of_nat i) k"
proof (induction k arbitrary: i g ws g')
  case (Suc k)
  obtain b g1 ws1 where "initial_wallets F C R sigma seed (Suc i) k g1 = (ws1, g')"
    "ws = sim_wallet C (of_nat i) b # ws1"
    using Suc.prems by (auto simp: Let_def split: prod.splits if_splits)
  then show ?case using Suc.IH by (subst synthetic_tags_Suc) (simp add: add.commute)
qed simp

lemma reid_old:
  "\<forall>w\<in>set old. w_created_at_iteration w \<noteq> it \<Longrightarrow>
     reid_loop C it (old @ new) k = (old @ fst (reid_loop C it new k), snd (reid_loop C it new k))"
  by (induction old) (simp_all add: Let_def split_beta)

lemma reid_new:
  "\<forall>w\<in>set new. w_created_at_iteration w = it \<Longrightarrow>
     map tag (fst (reid_loop C it new k)) = synthetic_tags C k (length new) \<and>
     snd (reid_loop C it new k) = k + of_nat (length new)"
proof (induction new arbitrary: k)
  case (Cons w new)
  then show ?case by (simp only: length_Cons synthetic_tags_Suc) (simp add: split_beta add.assoc)
qed simp

section \<open>A run\<close>

text \<open>The states at the head of the loop of \<open>run_simulation\<close>.\<close>

inductive sim_reachable ::
  "float_lib \<Rightarrow> crypto_lib \<Rightarrow> 'r rng_lib \<Rightarrow> system_parameters \<Rightarrow> sim_config \<Rightarrow> system_state \<Rightarrow> 'r sim_state \<Rightarrow> bool"
  for F C R ps config
where
  start: "initial_wallets F C R (sc_initial_wealth_sigma config) (micro_seed ps) 0
      (unat (sc_initial_wallets config)) (rg_seed R (sc_rng_seed config)) = (ws, g) \<Longrightarrow>
    sim_reachable F C R ps config default_system_state
      \<lparr>si_wallets = ws, si_next = sc_initial_wallets config, si_rng = g, si_txs = 0\<rparr>"
| iterate: "sim_reachable F C R ps config state s \<Longrightarrow> ss_current_iteration state < sc_iterations config \<Longrightarrow>
    sim_iteration F C R ps config state s = Some (Inr (row, state', s')) \<Longrightarrow>
    sim_reachable F C R ps config state' s'"

lemma execute_iteration_tags:
  assumes "execute_iteration F C ws ps state op = Some (Inr r)"
  obtains old new where "ir_wallets r = old @ new" "map tag old = map tag ws"
    "\<forall>w\<in>set new. w_created_at_iteration w = ss_current_iteration state + 1"
    "ic_iteration_id (ir_commit r) = ss_current_iteration state + 1"
proof -
  obtain beta new where new: "faucet_wallets C state op (ss_current_iteration state + 1) (micro_seed ps)
       (iteration_planned ps ws) = Inr new"
    and r: "ir_wallets r = rd_wallets (redistribute F ps beta ws) @ new"
      "ic_iteration_id (ir_commit r) = ss_current_iteration state + 1"
    by (rule execute_iteration_Inr [OF assms])
  have t: "map tag zs = map (\<lambda>(k, _, _, _, c). (k, c)) (map identity zs)" for zs
    by (simp add: tag_def identity_def)
  have "map tag (rd_wallets (redistribute F ps beta ws)) = map tag ws"
    unfolding t identity_redistribute ..
  then show thesis using that r faucet_wallets_balances(3) [OF new] by blast
qed

lemma numbered_old: "numbered C s \<Longrightarrow> map tag ws = map tag (si_wallets s) \<Longrightarrow> w \<in> set ws \<Longrightarrow> w_created_at_iteration w = 0"
proof -
  assume n: "numbered C s" and m: "map tag ws = map tag (si_wallets s)" and w: "w \<in> set ws"
  have "tag w \<in> set (map tag ws)" using w by simp
  also have "map tag ws = synthetic_tags C 0 (length (si_wallets s))" using n unfolding m numbered_def by simp
  finally show ?thesis by (auto simp: tag_def)
qed

lemma sim_iteration_numbered:
  assumes it: "sim_iteration F C R ps config state s = Some (Inr (row, state', s'))"
    and num: "numbered C s" and nz: "ss_current_iteration state + 1 \<noteq> 0"
  shows "numbered C s' \<and> ss_current_iteration state' = ss_current_iteration state + 1"
proof -
  obtain s2 r ws next_idx where x: "synthetic_activity F R config (ss_current_iteration state)
       (apply_scripted_events F C R (sc_scripted_events config) (ss_current_iteration state + 1)
          (micro_seed ps) (sc_transfer_fraction_mean config) s) = Some s2"
    "execute_iteration F C (si_wallets s2) ps state ''sim-operator'' = Some (Inr r)"
    "reid_loop C (ic_iteration_id (ir_commit r)) (ir_wallets r) (si_next s2) = (ws, next_idx)"
    "row = metrics_row (ir_commit r) ws (si_txs s2)" "state' = advance_sim_state (ir_commit r) (length ws) state"
    "s' = s2\<lparr>si_wallets := ws, si_next := next_idx\<rparr>"
    by (rule sim_iteration_Inr [OF it])
  let ?s1 = "apply_scripted_events F C R (sc_scripted_events config) (ss_current_iteration state + 1)
          (micro_seed ps) (sc_transfer_fraction_mean config) s"
  have "same_tags ?s1 s2"
    using x(1) by (auto simp: synthetic_activity_def Let_def same_tags_def dest: activity_loop_tags split: if_splits)
  then have n2: "numbered C s2" using same_tags_numbered scripted_numbered [OF num] by blast
  obtain old new where e: "ir_wallets r = old @ new" "map tag old = map tag (si_wallets s2)"
    "\<forall>w\<in>set new. w_created_at_iteration w = ss_current_iteration state + 1"
    "ic_iteration_id (ir_commit r) = ss_current_iteration state + 1"
    by (rule execute_iteration_tags [OF x(2)])
  have "\<forall>w\<in>set old. w_created_at_iteration w \<noteq> ss_current_iteration state + 1"
    using numbered_old [OF n2 e(2)] nz by auto
  then have ws: "ws = old @ fst (reid_loop C (ic_iteration_id (ir_commit r)) new (si_next s2))"
    "next_idx = snd (reid_loop C (ic_iteration_id (ir_commit r)) new (si_next s2))"
    using x(3) unfolding e(1) by (simp_all add: reid_old e(4))
  have len: "length old = length (si_wallets s2)" using e(2) by (metis length_map)
  have tags: "map tag ws = synthetic_tags C 0 (length old + length new)"
    and next_idx: "next_idx = of_nat (length old + length new)"
    using n2 reid_new [OF e(3), of C "si_next s2"] e(2,4) len
    by (simp_all only: ws map_append synthetic_tags_append numbered_def) simp_all
  have "length ws = length old + length new" using arg_cong [OF tags, of length] by simp
  then have "numbered C s'" using tags next_idx by (simp add: numbered_def x(6))
  then show ?thesis by (simp add: x(5) advance_sim_state_def e(4))
qed

lemma reachable_numbered: "sim_reachable F C R ps config state s \<Longrightarrow> numbered C s"
proof (induction rule: sim_reachable.induct)
  case (start ws g)
  then show ?case using initial_wallets_tags [OF start] by (simp add: numbered_def)
next
  case (iterate state s row state' s')
  have "ss_current_iteration state + 1 \<noteq> 0" using iterate(2) by (metis eq_neg_iff_add_eq_0 word_order.extremum_strict)
  then show ?case using sim_iteration_numbered [OF iterate(3,4)] by simp
qed

text \<open>
  C39. Throughout a run of the simulator, wallet number \<open>i\<close> has the \<open>i\<close>-th synthetic id and the counter
  is the number of wallets; so no two wallets share an id, unless BLAKE3 collides on two names.
\<close>

theorem sim_ids_unique:
  assumes "hex_laws C" "sim_reachable F C R ps config state s" "length (si_wallets s) < 2 ^ 64"
  shows "map w_id (si_wallets s) = map (\<lambda>i. blake3_hex C (sim_name (of_nat i))) [0..<length (si_wallets s)]
    \<and> si_next s = of_nat (length (si_wallets s))
    \<and> (distinct (map w_id (si_wallets s))
       \<or> collision_among C (map (\<lambda>i. sim_name (of_nat i)) [0..<length (si_wallets s)]))"
proof -
  let ?n = "length (si_wallets s)"
  have num: "numbered C s" using reachable_numbered [OF assms(2)] .
  have "map w_id (si_wallets s) = map fst (map tag (si_wallets s))" by (simp add: tag_def)
  also have "\<dots> = map fst (synthetic_tags C 0 ?n)" using num by (simp only: numbered_def)
  finally have ids: "map w_id (si_wallets s) = map (\<lambda>i. blake3_hex C (sim_name (of_nat i))) [0..<?n]"
    by (simp add: comp_def)
  have "inj_on (\<lambda>i. blake3_hex C (sim_name (of_nat i))) {0..<?n}"
    if nc: "\<not> collision_among C (map (\<lambda>i. sim_name (of_nat i)) [0..<?n])"
  proof (rule inj_onI)
    fix i j assume ij: "i \<in> {0..<?n}" "j \<in> {0..<?n}"
      and eq: "blake3_hex C (sim_name (of_nat i)) = blake3_hex C (sim_name (of_nat j))"
    have "cl_blake3 C (sim_name (of_nat i)) = cl_blake3 C (sim_name (of_nat j))"
      using eq assms(1) by (metis blake3_hex_def hex_laws_def option.inject)
    then have "sim_name (of_nat i) = sim_name (of_nat j)" using blake3_inject [OF nc] ij by simp
    then have "unat (of_nat i :: u64) = unat (of_nat j :: u64)"
      by (metis append_same_eq sim_name_def same_append_eq show_u64_def dec_val_show_nat)
    then show "i = j" using ij assms(3) by (simp add: unsigned_of_nat take_bit_nat_eq_self)
  qed
  then show ?thesis using ids num by (auto simp: distinct_map numbered_def)
qed

end
