(* ===== verification/Cli.thy ===== *)
theory Cli
  imports Simulator Rest
begin

text \<open>
  \<open>crates/aggora-cli/src/main.rs\<close>: the commands of the binary \<open>aggora-node\<close> and what they print.  The
  file system, the TOML and JSON parsers, the operating system's random bytes and the pretty printer
  are the parameter \<open>cli_lib\<close>; the arguments have been parsed by clap, whose declared defaults are
  \<open>default_simulate_args\<close>.  Running the HTTP server is the outcome \<open>Serving\<close>: from there on the node
  changes by the requests of \<open>Rest\<close>.
\<close>

section \<open>Commands\<close>

record simulate_args =
  sa_config :: bytes
  sa_iterations :: u64
  sa_initial_wallets :: u64
  sa_wealth_sigma :: f64
  sa_tx_per_wallet :: f64
  sa_transfer_fraction :: f64
  sa_seed :: u64
  sa_growth_factor :: "f64 option"
  sa_penalty_rate :: "f64 option"
  sa_target_penalty_share :: "f64 option"
  sa_faucet_share :: "f64 option"
  sa_burn_base :: "f64 option"
  sa_inverse_balance_weight :: "f64 option"
  sa_seed_file :: "bytes option"

definition default_simulate_args :: simulate_args where
  "default_simulate_args =
     \<lparr>sa_config = ''config/default.toml'', sa_iterations = 24, sa_initial_wallets = 100,
      sa_wealth_sigma = f64_lit 8 10, sa_tx_per_wallet = f64_of_nat 5, sa_transfer_fraction = f64_lit 5 100,
      sa_seed = 42, sa_growth_factor = None, sa_penalty_rate = None, sa_target_penalty_share = None,
      sa_faucet_share = None, sa_burn_base = None, sa_inverse_balance_weight = None, sa_seed_file = None\<rparr>"

datatype command =
    CNode bytes bytes "bytes option" "bytes option"
  | CKeygen
  | CSignRequest bytes bytes bytes i64 bytes
  | CSim u64 bytes
  | CLoadSeed bytes bytes
  | CSimulate simulate_args

record cli_lib =
  ci_exists :: "bytes \<Rightarrow> bool"
  ci_read :: "bytes \<Rightarrow> bytes + bytes"
  ci_toml :: "bytes \<Rightarrow> bytes + system_parameters"
  ci_seed :: "bytes \<Rightarrow> bytes + seed_file"
  ci_os_random :: bytes
  ci_show_status :: "simulation_status \<Rightarrow> bytes + bytes"

datatype 't outcome = Printed "bytes list" | Serving "'t node" bytes

section \<open>Configuration\<close>

definition load_parameters_file :: "cli_lib \<Rightarrow> bytes \<Rightarrow> bytes + system_parameters" where
  "load_parameters_file K path =
     (if \<not> ci_exists K path then Inr default_parameters
      else and_then (map_err (\<lambda>_. ''read config '' @ path) (ci_read K path)) (\<lambda>raw.
           map_err (\<lambda>_. ''parse TOML config '' @ path) (ci_toml K raw)))"

definition load_seed_file :: "cli_lib \<Rightarrow> bytes \<Rightarrow> bytes + seed_file" where
  "load_seed_file K path =
     and_then (map_err (\<lambda>_. ''read seed '' @ path) (ci_read K path)) (\<lambda>raw.
     map_err (\<lambda>_. ''parse seed '' @ path) (ci_seed K raw))"

definition override :: "'a option \<Rightarrow> ('a \<Rightarrow> 'p \<Rightarrow> 'p) \<Rightarrow> 'p \<Rightarrow> 'p" where
  "override x upd p = (case x of None \<Rightarrow> p | Some v \<Rightarrow> upd v p)"

definition node_parameters :: "bytes option \<Rightarrow> bytes option \<Rightarrow> system_parameters \<Rightarrow> system_parameters" where
  "node_parameters db_path snapshot_path ps =
     override snapshot_path (\<lambda>v p. p\<lparr>p_storage := (p_storage p)\<lparr>st_snapshot_path := v\<rparr>\<rparr>)
       (override db_path (\<lambda>v p. p\<lparr>p_storage := (p_storage p)\<lparr>st_db_path := v\<rparr>\<rparr>) ps)"

definition simulate_parameters :: "simulate_args \<Rightarrow> system_parameters \<Rightarrow> system_parameters" where
  "simulate_parameters a ps =
     override (sa_inverse_balance_weight a)
       (\<lambda>v p. p\<lparr>p_economy := (p_economy p)\<lparr>ep_inverse_balance_weight := v\<rparr>\<rparr>)
     (override (sa_burn_base a) (\<lambda>v p. p\<lparr>p_economy := (p_economy p)\<lparr>ep_burn_base := v\<rparr>\<rparr>)
     (override (sa_faucet_share a) (\<lambda>v p. p\<lparr>p_economy := (p_economy p)\<lparr>ep_faucet_share_of_penalty := v\<rparr>\<rparr>)
     (override (sa_target_penalty_share a)
       (\<lambda>v p. p\<lparr>p_economy := (p_economy p)\<lparr>ep_target_penalty_share_of_supply := v\<rparr>\<rparr>)
     (override (sa_penalty_rate a) (\<lambda>v p. p\<lparr>p_economy := (p_economy p)\<lparr>ep_penalty_rate := v\<rparr>\<rparr>)
     (override (sa_growth_factor a)
       (\<lambda>v p. p\<lparr>p_growth := (p_growth p)\<lparr>gp_growth_factor_per_iteration := v\<rparr>\<rparr>) ps)))))"

definition simulate_config :: "simulate_args \<Rightarrow> sim_config" where
  "simulate_config a =
     \<lparr>sc_initial_wallets = sa_initial_wallets a, sc_initial_wealth_sigma = sa_wealth_sigma a,
      sc_iterations = sa_iterations a, sc_tx_per_wallet_mean = sa_tx_per_wallet a,
      sc_transfer_fraction_mean = sa_transfer_fraction a, sc_rng_seed = sa_seed a,
      sc_scripted_events = []\<rparr>"

section \<open>Keys and signed requests\<close>

definition keygen :: "cli_lib \<Rightarrow> crypto_lib \<Rightarrow> bytes + bytes list" where
  "keygen K C =
     (let secret = cl_hex_encode C (ci_os_random K); public = cl_hex_encode C (cl_ed_public C (ci_os_random K))
      in and_then (operator_id_from_public_key C public) (\<lambda>oid.
           Inr [''secret='' @ secret, ''public='' @ public, ''id='' @ oid]))"

record signed_request =
  sq_operator_id :: operator_id
  sq_public_key :: public_key
  sq_timestamp :: i64
  sq_signature :: signature

definition sign_request ::
  "crypto_lib \<Rightarrow> bytes \<Rightarrow> bytes \<Rightarrow> bytes \<Rightarrow> i64 \<Rightarrow> bytes \<Rightarrow> bytes + signed_request"
where
  "sign_request C secret method path timestamp body =
     and_then (public_key_from_secret_hex C secret) (\<lambda>public.
     and_then (operator_id_from_public_key C public) (\<lambda>oid.
     and_then (sign_with_secret_hex C secret (canonical_request_message method path timestamp body)) (\<lambda>sig.
     Inr \<lparr>sq_operator_id = oid, sq_public_key = public, sq_timestamp = timestamp, sq_signature = sig\<rparr>)))"

definition header_lines :: "signed_request \<Rightarrow> bytes list" where
  "header_lines q =
     [''X-Operator-Id: '' @ sq_operator_id q, ''X-Operator-Public-Key: '' @ sq_public_key q,
      ''X-Operator-Timestamp: '' @ show_i64 (sq_timestamp q), ''X-Operator-Signature: '' @ sq_signature q]"

section \<open>The program\<close>

definition load_seed_command ::
  "('t, 'b) store_lib \<Rightarrow> crypto_lib \<Rightarrow> cli_lib \<Rightarrow> (bytes \<Rightarrow> bytes option) \<Rightarrow> (nat \<Rightarrow> i64) \<Rightarrow> bytes \<Rightarrow> bytes
     \<Rightarrow> bytes + bytes list"
where
  "load_seed_command E C K env clock config file =
     and_then (load_parameters_file K config) (\<lambda>parameters.
     and_then (load_seed_file K file) (\<lambda>seed.
     and_then (open_node E C env (from_parameters parameters)) (\<lambda>n.
     and_then (map_err error_message (fst (install_seed E C clock seed n))) (\<lambda>installed.
     Inr [''installed '' @ show_nat installed @ '' wallet(s) from '' @ file]))))"

text \<open>\<open>None\<close> is a panic of an iteration.\<close>

definition sim_command ::
  "('t, 'b) store_lib \<Rightarrow> crypto_lib \<Rightarrow> float_lib \<Rightarrow> cli_lib \<Rightarrow> (bytes \<Rightarrow> bytes option) \<Rightarrow> (nat \<Rightarrow> i64)
     \<Rightarrow> u64 \<Rightarrow> bytes \<Rightarrow> (bytes + bytes list) option"
where
  "sim_command E C F K env clock iterations config =
     (case and_then (load_parameters_file K config) (\<lambda>ps. open_node E C env (from_parameters ps)) of
        Inl e \<Rightarrow> Some (Inl e)
      | Inr n \<Rightarrow>
          (case fst (run_simulation_iterations E C F clock iterations n) of
             Inl e \<Rightarrow> Some (Inl (error_message e))
           | Inr None \<Rightarrow> None
           | Inr (Some status) \<Rightarrow> Some (and_then (ci_show_status K status) (\<lambda>text. Inr [text]))))"

definition simulate_command ::
  "crypto_lib \<Rightarrow> float_lib \<Rightarrow> cli_lib \<Rightarrow> 'r rng_lib \<Rightarrow> simulate_args \<Rightarrow> (bytes + bytes list) option"
where
  "simulate_command C F K R a =
     (case and_then (load_parameters_file K (sa_config a)) (\<lambda>ps.
             and_then (case sa_seed_file a of
                         None \<Rightarrow> Inr (simulate_config a)
                       | Some path \<Rightarrow> and_then (load_seed_file K path) (\<lambda>seed. Inr (with_seed (simulate_config a) seed)))
               (\<lambda>config. Inr (simulate_parameters a ps, config))) of
        Inl e \<Rightarrow> Some (Inl e)
      | Inr (ps, config) \<Rightarrow>
          map_option (\<lambda>result. and_then result (\<lambda>rows. Inr (csv_header # map to_csv_row rows)))
            (run_simulation F C R ps config))"

fun run_command ::
  "('t, 'b) store_lib \<Rightarrow> crypto_lib \<Rightarrow> float_lib \<Rightarrow> cli_lib \<Rightarrow> 'r rng_lib \<Rightarrow> (bytes \<Rightarrow> bytes option)
     \<Rightarrow> (nat \<Rightarrow> i64) \<Rightarrow> command \<Rightarrow> (bytes + 't outcome) option"
where
  "run_command E C F K R env clock (CNode bind config db_path snapshot_path) =
     Some (and_then (load_parameters_file K config) (\<lambda>ps.
           and_then (open_node E C env (from_parameters (node_parameters db_path snapshot_path ps))) (\<lambda>n.
           Inr (Serving n bind))))"
| "run_command E C F K R env clock CKeygen = Some (and_then (keygen K C) (\<lambda>out. Inr (Printed out)))"
| "run_command E C F K R env clock (CSignRequest secret method path timestamp body) =
     Some (and_then (sign_request C secret method path timestamp body) (\<lambda>q. Inr (Printed (header_lines q))))"
| "run_command E C F K R env clock (CLoadSeed config file) =
     Some (and_then (load_seed_command E C K env clock config file) (\<lambda>out. Inr (Printed out)))"
| "run_command E C F K R env clock (CSim iterations config) =
     map_option (\<lambda>r. and_then r (\<lambda>out. Inr (Printed out))) (sim_command E C F K env clock iterations config)"
| "run_command E C F K R env clock (CSimulate a) =
     map_option (\<lambda>r. and_then r (\<lambda>out. Inr (Printed out))) (simulate_command C F K R a)"

end
