(* ===== verification/Gateway.thy ===== *)
theory Gateway
  imports Rest_Props Cli
begin

text \<open>
  Properties across components: a request signed on the command line is accepted by the HTTP
  interface, and a request served over HTTP is a sequence of the node steps of \<open>Chain\<close>, so that the
  invariants of the reachable states hold under HTTP traffic.
\<close>

section \<open>Timestamps survive the header\<close>

text \<open>A printed timestamp is read back, over the whole range of \<open>i64\<close>.\<close>

lemma dec_digit_of_code: "dec_digit c \<Longrightarrow> is_dec_digit c"
  using dec_digit_code [of c] by (simp add: is_dec_digit_def)

lemma parse_digits_show: "parse_digits (show_nat v) = Some v"
  using show_nat_digits [of v] dec_digit_of_code
  by (auto simp: parse_digits_def dec_val_show_nat list_all_iff)

lemma show_nat_head: "show_nat v = c # cs \<Longrightarrow> c \<noteq> CHR ''-'' \<and> c \<noteq> CHR ''+''"
  using show_nat_digits [of v] dec_digit_code [of c] by auto

lemma parse_i64_show: "parse_i64 (show_i64 t) = Some t"
proof (cases "sint t < 0")
  case True
  have "nat (- sint t) \<le> 2 ^ 63" using sint_ge [of t] by simp
  moreover have "word_of_int (- int (nat (- sint t))) = t" using True by simp
  ultimately show ?thesis
    using True by (simp add: show_i64_def parse_i64_def parse_digits_show)
next
  case False
  have lt: "nat (sint t) < 2 ^ 63" using sint_lt [of t] False by (simp add: nat_less_iff)
  obtain c cs where c: "show_nat (nat (sint t)) = c # cs"
    using show_nat_nonempty by (cases "show_nat (nat (sint t))") auto
  moreover have "parse_digits (c # cs) = Some (nat (sint t))" using parse_digits_show c by metis
  ultimately show ?thesis
    using False lt show_nat_head [OF c] by (simp add: show_i64_def parse_i64_def)
qed

section \<open>Signing on the command line\<close>

text \<open>What Ed25519 promises for a key pair.\<close>

definition ed25519_laws :: "crypto_lib \<Rightarrow> bool" where
  "ed25519_laws C \<longleftrightarrow>
     (\<forall>sk. length sk = 32 \<longrightarrow>
        length (cl_ed_public C sk) = 32 \<and> cl_ed_key_valid C (cl_ed_public C sk) \<and>
        (\<forall>m. length (cl_ed_sign C sk m) = 64 \<and> cl_ed_verify C (cl_ed_public C sk) m (cl_ed_sign C sk m)))"

lemma fixed_of_hex:
  assumes "hex_laws C"
  shows "length b = 32 \<Longrightarrow> fixed_32 C (cl_hex_encode C b) = Inr b"
    and "length b = 64 \<Longrightarrow> fixed_64 C (cl_hex_encode C b) = Inr b"
  using decode_bytes_hex [OF assms, of b] by (cases "b = []"; simp add: fixed_32_def fixed_64_def)+

lemma fixed_32_length: "fixed_32 C s = Inr b \<Longrightarrow> length b = 32"
  by (auto simp: fixed_32_def step_simps split: if_splits)

text \<open>
  What a client makes of the printed lines: each is a header, its name up to the colon, its value after
  the colon and a space.  Header names are matched without regard to case, so the map the server sees
  has them in lower case; a value is given to the handler as a string when its bytes are visible
  ASCII.
\<close>

definition ascii_lower :: "char \<Rightarrow> char" where
  "ascii_lower c =
     (let n = of_char c :: nat in if 65 \<le> n \<and> n \<le> 90 then char_of (n + 32) else c)"

definition read_header :: "bytes \<Rightarrow> bytes \<times> bytes" where
  "read_header line =
     (map ascii_lower (takeWhile (\<lambda>c. c \<noteq> CHR '':'') line), drop 2 (dropWhile (\<lambda>c. c \<noteq> CHR '':'') line))"

definition sent_headers :: "bytes list \<Rightarrow> header_map" where
  "sent_headers lines = map_of (map read_header lines)"

definition visible_ascii :: "char \<Rightarrow> bool" where
  "visible_ascii c \<longleftrightarrow> 32 \<le> (of_char c :: nat) \<and> (of_char c :: nat) < 127"

lemma lower_names:
  "map ascii_lower ''X-Operator-Id'' = ''x-operator-id''"
  "map ascii_lower ''X-Operator-Public-Key'' = ''x-operator-public-key''"
  "map ascii_lower ''X-Operator-Timestamp'' = ''x-operator-timestamp''"
  "map ascii_lower ''X-Operator-Signature'' = ''x-operator-signature''"
  by code_simp+

lemma read_header_lines:
  "read_header (''X-Operator-Id: '' @ v) = (''x-operator-id'', v)"
  "read_header (''X-Operator-Public-Key: '' @ v) = (''x-operator-public-key'', v)"
  "read_header (''X-Operator-Timestamp: '' @ v) = (''x-operator-timestamp'', v)"
  "read_header (''X-Operator-Signature: '' @ v) = (''x-operator-signature'', v)"
  using lower_names by (simp_all add: read_header_def)

lemma printed_headers:
  "sent_headers (header_lines q) ''x-operator-id'' = Some (sq_operator_id q)"
  "sent_headers (header_lines q) ''x-operator-public-key'' = Some (sq_public_key q)"
  "sent_headers (header_lines q) ''x-operator-timestamp'' = Some (show_i64 (sq_timestamp q))"
  "sent_headers (header_lines q) ''x-operator-signature'' = Some (sq_signature q)"
  unfolding sent_headers_def header_lines_def list.map read_header_lines by simp_all

lemma visible_show_i64: "list_all visible_ascii (show_i64 t)"
proof -
  have "list_all visible_ascii (show_nat v)" for v
    using show_nat_digits [of v] dec_digit_code by (force simp: list_all_iff visible_ascii_def)
  moreover have "visible_ascii (CHR ''-'')" by (simp add: visible_ascii_def)
  ultimately show ?thesis by (simp add: show_i64_def)
qed

lemma visible_hex:
  assumes "hex_laws C"
  shows "list_all visible_ascii (cl_hex_encode C b)"
proof -
  have "ascii_hexdigit c \<Longrightarrow> visible_ascii c" for c by (auto simp: ascii_hexdigit_def visible_ascii_def)
  then show ?thesis using assms by (auto simp: hex_laws_def list_all_iff)
qed

text \<open>
  C17. A request that \<open>aggora-node sign-request\<close> signs with the secret of a stored operator is accepted
  by the HTTP interface while its timestamp is fresh: the header lines it prints, sent along with the
  same method, path and body, authenticate that operator.
\<close>

theorem signed_request_accepted:
  assumes laws: "hex_laws C" "ed25519_laws C"
    and signed: "sign_request C secret method path ts body = Inr q"
    and to_str: "\<And>v. list_all visible_ascii v \<Longrightarrow> rl_to_str L v = Some v"
    and fresh: "\<not> drifted (sp_timestamp_drift_ms (p_security (n_parameters n))) now ts"
    and stored: "get_operator E (n_storage n) (sq_operator_id q) = Inr (Some op)" "operator_active op"
      "op_pubkey op = sq_public_key q" "adm \<longrightarrow> op_role op = Genesis"
  shows "operator_auth E C L now method path (sent_headers (header_lines q)) body adm n
    = (Inr (op, sq_signature q), n)"
proof -
  let ?m = "canonical_request_message method path ts body"
  obtain sk where sk: "fixed_32 C secret = Inr sk"
    and q: "sq_public_key q = cl_hex_encode C (cl_ed_public C sk)" "sq_timestamp q = ts"
      "sq_signature q = cl_hex_encode C (cl_ed_sign C sk ?m)"
      "operator_id_from_public_key C (sq_public_key q) = Inr (sq_operator_id q)"
    using signed
    by (auto simp: sign_request_def public_key_from_secret_hex_def sign_with_secret_hex_def step_simps)
  have ed: "length (cl_ed_public C sk) = 32" "cl_ed_key_valid C (cl_ed_public C sk)"
    "length (cl_ed_sign C sk ?m) = 64" "cl_ed_verify C (cl_ed_public C sk) ?m (cl_ed_sign C sk ?m)"
    using laws(2) fixed_32_length [OF sk] by (auto simp: ed25519_laws_def)
  have oid: "\<exists>b. sq_operator_id q = cl_hex_encode C b"
    using q(4)
    by (auto simp: operator_id_from_public_key_def wallet_id_from_public_key_def blake3_hex_def step_simps
        dest!: sym [of "cl_hex_encode C _"])
  then have read: "header_str L (sent_headers (header_lines q)) ''x-operator-timestamp'' = Some (show_i64 ts)"
    "header_str L (sent_headers (header_lines q)) ''x-operator-signature'' = Some (sq_signature q)"
    "header_str L (sent_headers (header_lines q)) ''x-operator-id'' = Some (sq_operator_id q)"
    "header_str L (sent_headers (header_lines q)) ''x-operator-public-key'' = Some (sq_public_key q)"
    using to_str visible_show_i64 visible_hex [OF laws(1)] q(1-3) by (auto simp: header_str_def printed_headers)
  have "verify_ed25519 C (sq_public_key q) ?m (sq_signature q) = Inr True"
    using fixed_of_hex [OF laws(1)] ed by (simp add: verify_ed25519_def q)
  moreover have "normalize_bytes_to_hex C (sq_public_key q) 32 = Inr (sq_public_key q)"
    using normalize_hex [OF laws(1), of "cl_ed_public C sk"] ed(1) by (simp add: q(1))
  ultimately show ?thesis
    using read fresh stored q(2,4)
    by (simp add: operator_auth_def verify_operator_request_def parse_i64_show request_public_key_def ensure_def)
qed

section \<open>Requests are node steps\<close>

abbreviation node_steps ::
  "('t, 'b) store_lib \<Rightarrow> crypto_lib \<Rightarrow> float_lib \<Rightarrow> ('t, 'b) store_view \<Rightarrow> 't node \<Rightarrow> 't node \<Rightarrow> bool"
where
  "node_steps E C F V n n' \<equiv> (node_step E C F V)\<^sup>*\<^sup>* (n, []) (n', [])"

text \<open>The node has room for the amounts of a request, so that nothing saturates.\<close>

fun request_room ::
  "('t, 'b) store_view \<Rightarrow> rest_lib \<Rightarrow> bytes \<Rightarrow> 't node \<Rightarrow> endpoint \<Rightarrow> bool"
where
  "request_room V L body n ECreateWallet = headroom V n (unat (micro_seed (n_parameters n))) 1"
| "request_room V L body n ECharge =
     (case rl_charge L body of Inl _ \<Rightarrow> True | Inr q \<Rightarrow> headroom V n (unat (cr_amount q)) 0)"
| "request_room V L body n ETransfer =
     (case rl_transfer L body of Inl _ \<Rightarrow> True | Inr q \<Rightarrow> headroom V n 0 0 \<and> nonce_room V n (tr_from q))"
| "request_room V L body n EBurn =
     (case rl_burn L body of Inl _ \<Rightarrow> True | Inr q \<Rightarrow> headroom V n 0 0 \<and> nonce_room V n (br_from q))"
| "request_room V L body n _ = False"

definition served :: "reply \<Rightarrow> bool" where
  "served rep \<longleftrightarrow> (\<exists>a. rep = Answer a \<and> rs_status a \<noteq> 500)"

lemma not_internal_status: "error_status e \<noteq> 500 \<longleftrightarrow> \<not> is_internal e"
  by (cases e) auto

lemma served_answer:
  assumes "answer outcome k = (rep, n')" "served rep"
  shows "(\<exists>e. outcome = (Inl e, n') \<and> \<not> is_internal e) \<or> (\<exists>a n1. outcome = (Inr a, n1) \<and> k a n1 = (rep, n'))"
  using assms
  by (auto simp: answer_def served_def state_error_response_def error_response_def not_internal_status [symmetric]
      split: prod.splits sum.splits)

lemma served_decoded:
  assumes "decoded r k n = (rep, n')"
  shows "n' = n \<or> (\<exists>a. r = Inr a \<and> k a n = (rep, n'))"
  using assms by (auto simp: decoded_def error_response_def split: sum.splits)

lemma ok_response_node: "ok_response s d n = (rep, n') \<Longrightarrow> n' = n"
  by (simp add: ok_response_def)

text \<open>An admitted job that runs to its end, or is refused, is two steps.\<close>

lemma admitted_run:
  assumes "admits C n j n1" "run_job E C F clock j n1 = (r, n')"
    and "case r of Inl e \<Rightarrow> \<not> is_internal e \<and> (\<forall>d s. j \<noteq> JSeed d s) | Inr b \<Rightarrow> b \<and> calm E C F V clock j n1 n'"
  shows "node_steps E C F V n n'"
proof -
  have "node_step E C F V (n, []) (n1, [j])" by (rule plain_steps(1) [OF assms(1)])
  moreover have "node_step E C F V (n1, [j]) (n', [])"
    using assms(2,3) plain_steps(7) [of j "[j]" E C F clock n1 n' V] plain_steps(9) [of j "[j]" E C F clock n1 _ n' V]
    by (cases r) auto
  ultimately show ?thesis by simp
qed

lemma discard_result: "discard m n = (case m n of (Inl e, n') \<Rightarrow> (Inl e, n') | (Inr _, n') \<Rightarrow> (Inr True, n'))"
  by (simp add: discard_def bindE_def returnE_def split: prod.splits sum.splits)

text \<open>Reading the clock at \<open>now\<close>, as the locked parts do.\<close>

lemma transfer_steps:
  assumes run: "transfer E C now q n = (res, n')" and room: "headroom V n 0 0" "nonce_room V n (tr_from q)"
    and ok: "\<And>e. res = Inl e \<Longrightarrow> \<not> is_internal e"
  shows "node_steps E C F V n n'"
proof (cases "prepare_transfer C (p_security (n_parameters n)) q")
  case (Inl e)
  then show ?thesis using run by (simp add: transfer_def bindE_def)
next
  case (Inr p)
  obtain txid key where p: "p = (txid, key)" by (cases p)
  have l: "transfer_locked E C now q txid key n = (res, n')" using run Inr p by (simp add: transfer_def bindE_def)
  have "run_job E C F (\<lambda>_. now) (JTransfer q txid key) n
      = (case res of Inl e \<Rightarrow> Inl e | Inr _ \<Rightarrow> Inr True, n')"
    using l by (simp add: discard_result split: sum.splits)
  from admitted_run [OF admits.transfer this, of V] Inr p show ?thesis
    using ok room by (auto split: sum.splits)
qed

lemma burn_steps:
  assumes run: "burn E C now q n = (res, n')" and room: "headroom V n 0 0" "nonce_room V n (br_from q)"
    and ok: "\<And>e. res = Inl e \<Longrightarrow> \<not> is_internal e"
  shows "node_steps E C F V n n'"
proof (cases "prepare_burn C (p_security (n_parameters n)) q")
  case (Inl e)
  then show ?thesis using run by (simp add: burn_def bindE_def)
next
  case (Inr p)
  obtain txid key where p: "p = (txid, key)" by (cases p)
  have l: "burn_locked E C now q txid key n = (res, n')" using run Inr p by (simp add: burn_def bindE_def)
  have "run_job E C F (\<lambda>_. now) (JBurn q txid key) n
      = (case res of Inl e \<Rightarrow> Inl e | Inr _ \<Rightarrow> Inr True, n')"
    using l by (simp add: discard_result split: sum.splits)
  from admitted_run [OF admits.burn this, of V] Inr p show ?thesis
    using ok room by (auto split: sum.splits)
qed

lemma create_steps:
  assumes run: "create_wallet E C now q op sig n = (res, n')"
    and room: "headroom V n (unat (micro_seed (n_parameters n))) 1"
    and ok: "\<And>e. res = Inl e \<Longrightarrow> \<not> is_internal e"
  shows "node_steps E C F V n n'"
proof (cases "prepare_create C (n_parameters n) q")
  case (Inl e)
  then show ?thesis using run by (simp add: create_wallet_def bindE_def)
next
  case (Inr p)
  obtain key wid where p: "p = (key, wid)" by (cases p)
  have l: "create_wallet_locked E C now (n_parameters n) key wid q op sig n = (res, n')"
    using run Inr p by (simp add: create_wallet_def bindE_def)
  have "run_job E C F (\<lambda>_. now) (JCreate (n_parameters n) key wid q op sig) n
      = (case res of Inl e \<Rightarrow> Inl e | Inr _ \<Rightarrow> Inr True, n')"
    using l by (simp add: discard_result split: sum.splits)
  from admitted_run [OF admits.create this, of V] Inr p show ?thesis
    using ok room by (auto split: sum.splits)
qed

lemma charge_steps:
  assumes run: "charge E C now0 now q op sig n = (res, n')" and room: "headroom V n (unat (cr_amount q)) 0"
    and ok: "\<And>e. res = Inl e \<Longrightarrow> \<not> is_internal e"
  shows "node_steps E C F V n n'"
proof (cases "fst (prepare_charge now0 q sig n)")
  case (Inl e)
  then have "prepare_charge now0 q sig n = (Inl e, n')" using run by (auto simp: charge_def bindE_def split: prod.splits)
  then have "node_step E C F V (n, []) (n', [])" by (rule plain_steps(2))
  then show ?thesis by simp
next
  case (Inr u)
  then obtain n1 where p: "prepare_charge now0 q sig n = (Inr (), n1)" by (cases "prepare_charge now0 q sig n") auto
  have l: "charge_locked E C now q op sig n1 = (res, n')" using run p by (simp add: charge_def bindE_def)
  have "headroom V n1 (unat (cr_amount q)) 0"
    using room prepare_charge_frame [OF p] by (simp add: headroom_def)
  moreover have "run_job E C F (\<lambda>_. now) (JCharge q op sig) n1
      = (case res of Inl e \<Rightarrow> Inl e | Inr _ \<Rightarrow> Inr True, n')"
    using l by (simp add: discard_result split: sum.splits)
  from admitted_run [OF admits.charge [OF p] this, of V] calculation show ?thesis
    using ok by (auto split: sum.splits)
qed

lemma node_steps_trans: "node_steps E C F V n n1 \<Longrightarrow> node_steps E C F V n1 n' \<Longrightarrow> node_steps E C F V n n'"
  by (rule rtranclp_trans)

lemma limit_steps:
  "check_wallet_rate_limit now ip n = (r, n1) \<Longrightarrow> node_steps E C F V n n1"
  "check_transfer_rate_limit now wid n = (r', n1) \<Longrightarrow> node_steps E C F V n n1"
  by (rule r_into_rtranclp, erule plain_steps(3), rule r_into_rtranclp, erule plain_steps(4))

lemma limit_parameters:
  "check_wallet_rate_limit now ip n = (r, n1) \<Longrightarrow> n_parameters n1 = n_parameters n"
  by (auto simp: check_wallet_rate_limit_def Let_def split: option.splits if_splits prod.splits)

lemma room_frame:
  "n_storage n1 = n_storage n \<and> n_system n1 = n_system n \<Longrightarrow> headroom V n1 a k = headroom V n a k"
  "n_storage n1 = n_storage n \<and> n_system n1 = n_system n \<Longrightarrow> nonce_room V n1 w = nonce_room V n w"
  by (simp_all add: headroom_def nonce_room_def)

text \<open>The two shapes a handler is composed of.\<close>

lemma steps_answer:
  assumes "answer outcome k = (rep, n')" "served rep"
    and "\<And>r n1. outcome = (r, n1) \<Longrightarrow> (\<And>e. r = Inl e \<Longrightarrow> \<not> is_internal e) \<Longrightarrow> node_steps E C F V n n1"
    and "\<And>a n1. outcome = (Inr a, n1) \<Longrightarrow> k a n1 = (rep, n') \<Longrightarrow> node_steps E C F V n1 n'"
  shows "node_steps E C F V n n'"
  using served_answer [OF assms(1,2)]
proof (elim disjE exE conjE)
  fix e assume "outcome = (Inl e, n')" "\<not> is_internal e"
  then show ?thesis using assms(3) by blast
next
  fix a n1 assume o: "outcome = (Inr a, n1)" "k a n1 = (rep, n')"
  have "node_steps E C F V n n1" using assms(3) [OF o(1)] by simp
  then show ?thesis using assms(4) [OF o] by (rule node_steps_trans)
qed

lemma steps_decoded:
  assumes "decoded r k n = (rep, n')" and "\<And>a. r = Inr a \<Longrightarrow> k a n = (rep, n') \<Longrightarrow> node_steps E C F V n n'"
  shows "node_steps E C F V n n'"
  using served_decoded [OF assms(1)] assms(2) by auto

lemma steps_ok: "ok_response s d n = (rep, n') \<Longrightarrow> node_steps E C F V n n'"
  by (drule ok_response_node) simp

lemma auth_node: "operator_auth E C L now m p h b adm n = (r, n1) \<Longrightarrow> n1 = n"
  by (simp add: operator_auth_def Let_def)

lemma steps_auth: "operator_auth E' C' L now m p h b adm n = (r, n1) \<Longrightarrow> node_steps E C F V n n1"
  by (drule auth_node) simp

lemma transfer_handler_steps:
  assumes run: "transfer_handler E C L clock body n = (rep, n')" and ok: "served rep"
    and room: "request_room V L body n ETransfer"
  shows "node_steps E C F V n n'"
  using run unfolding transfer_handler_def
proof (rule steps_decoded)
  fix q assume q: "rl_transfer L body = Inr q"
  assume "answer (check_transfer_rate_limit (clock 0) (tr_from q) n) (\<lambda>_ n. answer (transfer E C (clock 1) q n)
    (\<lambda>response n. ok_response 202 (DAccepted response) n)) = (rep, n')"
  then show ?thesis
  proof (rule steps_answer [OF _ ok])
    fix u n1
    assume lim: "check_transfer_rate_limit (clock 0) (tr_from q) n = (Inr u, n1)"
    have hr: "headroom V n1 0 0" "nonce_room V n1 (tr_from q)"
      using room q room_frame [where V = V, OF limit_frames(2) [OF lim]] by simp_all
    assume "answer (transfer E C (clock 1) q n1) (\<lambda>response n. ok_response 202 (DAccepted response) n) = (rep, n')"
    then show "node_steps E C F V n1 n'"
      by (rule steps_answer [OF _ ok]) (blast intro: transfer_steps [OF _ hr] steps_ok)+
  qed (rule limit_steps)
qed

lemma burn_handler_steps:
  assumes run: "burn_handler E C L clock body n = (rep, n')" and ok: "served rep"
    and room: "request_room V L body n EBurn"
  shows "node_steps E C F V n n'"
  using run unfolding burn_handler_def
proof (rule steps_decoded)
  fix q assume q: "rl_burn L body = Inr q"
  assume "answer (burn E C (clock 0) q n) (\<lambda>response n. ok_response 202 (DAccepted response) n) = (rep, n')"
  then show ?thesis
    using room q by (elim steps_answer [OF _ ok]) (auto intro: burn_steps steps_ok)
qed

lemma charge_handler_steps:
  assumes run: "charge_handler E C L clock h body n = (rep, n')" and ok: "served rep"
    and room: "request_room V L body n ECharge"
  shows "node_steps E C F V n n'"
  using run unfolding charge_handler_def
proof (rule steps_decoded)
  fix q assume q: "rl_charge L body = Inr q"
  have room': "headroom V n (unat (cr_amount q)) 0" using room q by simp
  assume "answer (operator_auth E C L (clock 0) ''POST'' ''/api/v1/charge'' h body False n) (\<lambda>(op, sig) n.
      answer (charge E C (clock 1) (clock 2) q op sig n) (\<lambda>response n.
        ok_response 202 (DAccepted response) n)) = (rep, n')"
  then show ?thesis
  proof (rule steps_answer [OF _ ok])
    fix a n1
    assume auth: "operator_auth E C L (clock 0) ''POST'' ''/api/v1/charge'' h body False n = (Inr a, n1)"
    assume "(case a of (op, sig) \<Rightarrow> \<lambda>n. answer (charge E C (clock 1) (clock 2) q op sig n) (\<lambda>response n.
        ok_response 202 (DAccepted response) n)) n1 = (rep, n')"
    then have "answer (charge E C (clock 1) (clock 2) q (fst a) (snd a) n) (\<lambda>response n.
        ok_response 202 (DAccepted response) n) = (rep, n')"
      using auth_node [OF auth] by (simp add: split_beta)
    then have "node_steps E C F V n n'"
      by (rule steps_answer [OF _ ok]) (blast intro: charge_steps [OF _ room'] steps_ok)+
    then show "node_steps E C F V n1 n'" using auth_node [OF auth] by simp
  qed (rule steps_auth)
qed

lemma create_handler_steps:
  assumes run: "create_wallet_handler E C L clock addr h body n = (rep, n')" and ok: "served rep"
    and room: "request_room V L body n ECreateWallet"
  shows "node_steps E C F V n n'"
  using run unfolding create_wallet_handler_def
proof (rule steps_decoded)
  fix q
  assume "answer (check_wallet_rate_limit (clock 0) (Some addr) n) (\<lambda>_ n.
      answer (operator_auth E C L (clock 1) ''POST'' ''/api/v1/wallet'' h body False n) (\<lambda>(op, sig) n.
      answer (create_wallet E C (clock 2) q op sig n) (\<lambda>response n.
        ok_response 201 (DWalletCreated response) n))) = (rep, n')"
  then show ?thesis
  proof (rule steps_answer [OF _ ok])
    fix u n1
    assume lim: "check_wallet_rate_limit (clock 0) (Some addr) n = (Inr u, n1)"
    have room': "headroom V n1 (unat (micro_seed (n_parameters n1))) 1"
      using room room_frame [where V = V, OF limit_frames(1) [OF lim]] limit_parameters [OF lim] by simp
    assume "answer (operator_auth E C L (clock 1) ''POST'' ''/api/v1/wallet'' h body False n1) (\<lambda>(op, sig) n.
      answer (create_wallet E C (clock 2) q op sig n) (\<lambda>response n.
        ok_response 201 (DWalletCreated response) n)) = (rep, n')"
    then show "node_steps E C F V n1 n'"
    proof (rule steps_answer [OF _ ok])
      fix a n2
      assume auth: "operator_auth E C L (clock 1) ''POST'' ''/api/v1/wallet'' h body False n1 = (Inr a, n2)"
      assume "(case a of (op, sig) \<Rightarrow> \<lambda>n. answer (create_wallet E C (clock 2) q op sig n) (\<lambda>response n.
          ok_response 201 (DWalletCreated response) n)) n2 = (rep, n')"
      then have "answer (create_wallet E C (clock 2) q (fst a) (snd a) n1) (\<lambda>response n.
          ok_response 201 (DWalletCreated response) n) = (rep, n')"
        using auth_node [OF auth] by (simp add: split_beta)
      then have "node_steps E C F V n1 n'"
        by (rule steps_answer [OF _ ok]) (blast intro: create_steps [OF _ room'] steps_ok)+
      then show "node_steps E C F V n2 n'" using auth_node [OF auth] by simp
    qed (rule steps_auth)
  qed (rule limit_steps)
qed

text \<open>
  C14. Serving a wallet creation, charge, transfer or burn over HTTP is a sequence of the node steps
  whose reachable states keep the books, as long as the answer is not an internal error and no
  counter overflows.
\<close>

theorem posts_are_node_steps:
  assumes "route_of L (hr_method r) (hr_path r) = Some (ep, args)"
    and "request_room V L (hr_body r) n ep"
    and "router E C F L clock r n = (Answer a, n')" "rs_status a \<noteq> 500"
  shows "(node_step E C F V)\<^sup>*\<^sup>* (n, []) (n', [])"
proof -
  have d: "dispatch E C F L clock ep args r n = (Answer a, n')" "served (Answer a)"
    using assms(1,3,4) by (simp_all add: router_def served_def)
  consider "ep = ECreateWallet" | "ep = ECharge" | "ep = ETransfer" | "ep = EBurn"
    using assms(2) by (cases ep) simp_all
  then show ?thesis
    using d assms(2)
    by cases (auto simp: dispatch_def Let_def
      intro: create_handler_steps charge_handler_steps transfer_handler_steps burn_handler_steps)
qed

end
