(* ===== verification/Rest_Witnesses.thy ===== *)
theory Rest_Witnesses
  imports Gateway Simulator_Ids Witnesses Node_Witnesses
begin

text \<open>
  Concrete requests and simulator states at which the hypotheses of the properties on the HTTP
  interface, the command line and the simulator hold.
\<close>

section \<open>Requests\<close>

text \<open>Every body is the demo transfer, every route static.\<close>

definition demo_rest :: rest_lib where
  "demo_rest = \<lparr>rl_to_str = Some, rl_match = (\<lambda>pattern path. if pattern = path then Some [] else None),
     rl_upgrades = (\<lambda>_. False), rl_path_u64 = (\<lambda>_. None), rl_wallet_create = (\<lambda>_. Inr demo_request), rl_charge = (\<lambda>_. Inr demo_charge),
     rl_transfer = (\<lambda>_. Inr demo_transfer), rl_burn = (\<lambda>_. Inr demo_burn),
     rl_parameters = (\<lambda>_. Inl ''json''), rl_simulation_start = (\<lambda>_. Inl ''json'')\<rparr>"

definition bare_request :: "bytes \<Rightarrow> bytes \<Rightarrow> http_request" where
  "bare_request verb path = \<lparr>hr_method = verb, hr_path = path, hr_headers = Map.empty, hr_body = ''{}'', hr_peer = ''::1''\<rparr>"

lemma get_changes_nothing_witness:
  "snd (router ref_store const_crypto plain_floats demo_rest (\<lambda>_. 0) (bare_request ''GET'' ''/api/v1/stats'') fresh_demo)
     = fresh_demo"
  by (rule get_changes_nothing) (simp add: bare_request_def)

lemma unauthenticated_requests_harmless_witness:
  "harmless fresh_demo (router ref_store const_crypto plain_floats demo_rest (\<lambda>_. 0)
     (bare_request ''POST'' ''/api/v1/charge'') fresh_demo)"
proof (rule unauthenticated_requests_harmless)
  show "route_of demo_rest (hr_method (bare_request ''POST'' ''/api/v1/charge''))
      (hr_path (bare_request ''POST'' ''/api/v1/charge'')) = Some (ECharge, [])"
    by (simp add: route_of_def routes_def demo_rest_def bare_request_def)
  show "operator_scope ECharge = Some (''POST'', ''/api/v1/charge'', False)" by simp
  show "\<nexists>op. verify_operator_request ref_store const_crypto 0 (hr_method (bare_request ''POST'' ''/api/v1/charge''))
      ''/api/v1/charge'' (hr_body (bare_request ''POST'' ''/api/v1/charge''))
      (Option.bind (header_str demo_rest (hr_headers (bare_request ''POST'' ''/api/v1/charge'')) ''x-operator-timestamp'') parse_i64)
      (header_str demo_rest (hr_headers (bare_request ''POST'' ''/api/v1/charge'')) ''x-operator-signature'')
      (header_str demo_rest (hr_headers (bare_request ''POST'' ''/api/v1/charge'')) ''x-operator-id'')
      (header_str demo_rest (hr_headers (bare_request ''POST'' ''/api/v1/charge'')) ''x-operator-public-key'')
      False fresh_demo = Inr op" for k
    by (simp add: bare_request_def header_str_def verify_operator_request_def fresh_demo_def
        default_parameters_def default_security_def)
qed

lemma demo_transfer_run:
  "\<exists>resp n. transfer ref_store const_crypto 0 demo_transfer (demo_pair\<lparr>n_rate_wallet_tx := q\<rparr>) = (Inr resp, n)"
proof -
  have p: "prepare_transfer const_crypto (p_security (n_parameters demo_pair)) demo_transfer = Inr (''00'', ''00'')"
    using demo_prepare by (simp add: demo_pair_def fresh_demo_def default_parameters_def)
  show ?thesis
    using p by (simp add: transfer_def demo_pair_def fresh_demo_def empty_trees_def transfer_locked_def bindE_def
      check_unlocked_def need_wallet_def fetch_def store_def storage_eval append_tx_locked_def build_entry_def
      poh_hash_def sign_with_secret_hex_def fixed_32_def set_system_def store_system_def
      default_system_state_def next_tick_def Let_def requireE_def map_err_def demo_transfer_def
      transfer_tx_of_def demo_wallet_def fresh_wallet_def debit_transfer_def credit_transfer_def)
qed

lemma demo_limit:
  "\<exists>q. check_transfer_rate_limit 0 ''00'' demo_pair = (Inr (), demo_pair\<lparr>n_rate_wallet_tx := q\<rparr>)"
proof -
  have "p_security (n_parameters demo_pair) = default_security" "n_rate_wallet_tx demo_pair = Map.empty"
    by (simp_all add: demo_pair_def fresh_demo_def default_parameters_def)
  moreover have "sp_rate_limit_tx_per_wallet_per_minute default_security = 60" by (simp add: default_security_def)
  ultimately show ?thesis
    by (simp add: check_transfer_rate_limit_def Let_def window_check_def window_prune_def) blast
qed

lemma demo_served:
  "\<exists>a n'. router ref_store const_crypto plain_floats demo_rest (\<lambda>_. 0) (bare_request ''POST'' ''/api/v1/transaction'')
       demo_pair = (Answer a, n') \<and> rs_status a = 202"
proof -
  obtain q where q: "check_transfer_rate_limit 0 ''00'' demo_pair = (Inr (), demo_pair\<lparr>n_rate_wallet_tx := q\<rparr>)"
    using demo_limit by blast
  obtain resp n where n: "transfer ref_store const_crypto 0 demo_transfer (demo_pair\<lparr>n_rate_wallet_tx := q\<rparr>) = (Inr resp, n)"
    using demo_transfer_run by blast
  have "tr_from demo_transfer = ''00''" by (simp add: demo_transfer_def)
  then show ?thesis
    using q n
    by (simp add: router_def route_of_def routes_def demo_rest_def bare_request_def dispatch_def transfer_handler_def
        decoded_def answer_def ok_response_def)
qed

lemma posts_are_node_steps_witness:
  "\<exists>a n'. router ref_store const_crypto plain_floats demo_rest (\<lambda>_. 0) (bare_request ''POST'' ''/api/v1/transaction'')
       demo_pair = (Answer a, n') \<and> rs_status a = 202 \<and>
     (node_step ref_store const_crypto plain_floats ref_view)\<^sup>*\<^sup>* (demo_pair, []) (n', [])"
proof -
  let ?r = "bare_request ''POST'' ''/api/v1/transaction''"
  have route: "route_of demo_rest (hr_method ?r) (hr_path ?r) = Some (ETransfer, [])"
    by (simp add: route_of_def routes_def demo_rest_def bare_request_def)
  have room: "request_room ref_view demo_rest (hr_body ?r) demo_pair ETransfer"
    by (simp add: demo_rest_def headroom_def nonce_room_def demo_pair_ledger demo_transfer_def)
  obtain a n' where ok: "router ref_store const_crypto plain_floats demo_rest (\<lambda>_. 0) ?r demo_pair = (Answer a, n')"
    "rs_status a = 202"
    using demo_served by blast
  show ?thesis using ok posts_are_node_steps [OF route room ok(1)] by simp
qed

section \<open>Signed requests\<close>

lemma length_ref_digest: "length (ref_digest b) = 32"
  by (simp add: ref_digest_def)

lemma ref_digest_idem: "ref_digest (ref_digest b) = ref_digest b"
  by (simp add: ref_digest_def)

lemma ref_ed25519_laws: "ed25519_laws ref_crypto"
  by (simp add: ed25519_laws_def ref_crypto_def length_ref_digest ref_digest_idem)

definition keyed_demo :: "operator \<Rightarrow> mem_tree node" where
  "keyed_demo op = fresh_demo\<lparr>n_storage := empty_trees\<lparr>cs_operators := [(op_id op, BOperator op)]\<rparr>\<rparr>"

lemma signed_request_accepted_witness:
  "\<exists>q. sign_request ref_crypto (cl_hex_encode ref_crypto (replicate 32 (CHR 0x07))) ''POST'' ''/api/v1/charge'' 5 ''{}'' = Inr q \<and>
     operator_auth ref_store ref_crypto demo_rest 7 ''POST'' ''/api/v1/charge'' (sent_headers (header_lines q)) ''{}'' True
       (keyed_demo (genesis_operator (sq_operator_id q) (sq_public_key q)))
     = (Inr (genesis_operator (sq_operator_id q) (sq_public_key q), sq_signature q),
        keyed_demo (genesis_operator (sq_operator_id q) (sq_public_key q)))"
proof -
  let ?secret = "cl_hex_encode ref_crypto (replicate 32 (CHR 0x07))"
  have key: "fixed_32 ref_crypto ?secret = Inr (replicate 32 (CHR 0x07))"
    by (rule fixed_of_hex [OF ref_hex_laws]) simp
  obtain q where q: "sign_request ref_crypto ?secret ''POST'' ''/api/v1/charge'' 5 ''{}'' = Inr q" "sq_timestamp q = 5"
  proof -
    have "cl_ed_public ref_crypto (replicate 32 (CHR 0x07)) = ref_digest (replicate 32 (CHR 0x07))"
      by (simp add: ref_crypto_def)
    then have "normalize_bytes_to_hex ref_crypto (cl_hex_encode ref_crypto (cl_ed_public ref_crypto (replicate 32 (CHR 0x07)))) 32
        = Inr (cl_hex_encode ref_crypto (cl_ed_public ref_crypto (replicate 32 (CHR 0x07))))"
      using normalize_hex [OF ref_hex_laws, of "ref_digest (replicate 32 (CHR 0x07))"] length_ref_digest by simp
    then have "\<exists>oid. operator_id_from_public_key ref_crypto
        (cl_hex_encode ref_crypto (cl_ed_public ref_crypto (replicate 32 (CHR 0x07)))) = Inr oid"
      using ref_hex_laws by (simp add: operator_id_from_public_key_def wallet_id_from_public_key_def hex_laws_def)
    then show ?thesis
      using that by (auto simp: sign_request_def public_key_from_secret_hex_def sign_with_secret_hex_def key)
  qed
  let ?op = "genesis_operator (sq_operator_id q) (sq_public_key q)"
  show ?thesis
    using q signed_request_accepted [where E = ref_store and L = demo_rest and now = 7
        and n = "keyed_demo ?op" and op = ?op and adm = True, OF ref_hex_laws ref_ed25519_laws q(1)]
    by (simp add: demo_rest_def keyed_demo_def get_operator_def get_json_def ref_store_def
        normal_tree_def sorted_keys_def genesis_operator_def operator_active_def fresh_demo_def default_parameters_def
        default_security_def drifted_def i64_gt_def i64_abs_def)
qed

section \<open>An iteration that creates existing wallets\<close>

text \<open>Two wallets, a growth factor of one, and digests that are all equal: both faucet ids exist.\<close>

definition grow_parameters :: system_parameters where
  "grow_parameters = plain_parameters\<lparr>p_growth := default_growth\<lparr>gp_growth_factor_per_iteration := f64_one\<rparr>\<rparr>"

lemma grow_facts:
  "p_economy grow_parameters = plain_economy" "planned_new_wallets (p_growth grow_parameters) 2 = 2"
  "micro_seed grow_parameters = micro_seed plain_parameters"
  by (simp_all add: grow_parameters_def plain_parameters_def planned_new_wallets_def default_growth_def micro_seed_def
      f64_one_def f64_eval)

lemma grow_burn: "\<exists>beta. burn_rate plain_economy x = Some beta"
  by (simp add: burn_rate_def plain_economy_def f64_clamp_def)

lemma grow_run:
  assumes "length ws = 2"
  shows "\<exists>r. execute_iteration plain_floats const_crypto ws grow_parameters s oid = Some (Inr r) \<and>
    ic_new_wallets (ir_commit r) = [''00'', ''00''] \<and> ic_tx_id (ir_commit r) = ''00''"
proof -
  obtain beta where "burn_rate plain_economy (iteration_inflation s) = Some beta" using grow_burn by blast
  moreover have "[0..<2] = [0, 1::nat]" by (simp add: upt_rec)
  ultimately show ?thesis
    using assms
    by (simp add: execute_iteration_def grow_facts faucet_wallets_def faucet_wallet_def faucet_pubkey_def iteration_commit_hash_def Let_def)
qed

lemma ref_put_wallets: "\<exists>st'. put_wallets ref_store ws st = (Inr (), st')"
proof (induction ws arbitrary: st)
  case (Cons w ws)
  then show ?case by (simp add: bindE_def storage_eval)
qed simp

lemma ref_json:
  "\<exists>u. put_json ref_store (js_transaction ref_store) t k tx = Inr u"
  "\<exists>u. put_json ref_store (js_poh_entry ref_store) t k e = Inr u"
  "\<exists>u. put_json ref_store (js_commit ref_store) t k c = Inr u"
  "\<exists>u. put_json ref_store (js_state ref_store) t k s = Inr u"
  by (simp_all add: put_json_def ref_store_def)

lemma ref_put_index: "\<exists>st'. put_index ref_store txid tick wids st = (Inr (), st')"
proof (induction wids arbitrary: st)
  case (Cons wid wids)
  have "\<exists>u. sl_insert ref_store t k b = Inr u" for t k b by (simp add: ref_store_def)
  then obtain u where "sl_insert ref_store (cs_tx_by_wallet st) (index_key wid tick txid) (sl_raw ref_store txid) = Inr u"
    by blast
  then show ?case using Cons by simp
qed simp

lemma ref_stores:
  "\<exists>st'. put_transaction ref_store tx tick st = (Inr (), st')" "\<exists>st'. put_poh_entry ref_store e st = (Inr (), st')"
  "\<exists>st'. put_iteration ref_store c st = (Inr (), st')" "\<exists>st'. store_state ref_store s st = (Inr (), st')"
proof -
  obtain t where "put_json ref_store (js_transaction ref_store) (cs_transactions st) (tx_id tx) tx = Inr t"
    using ref_json(1) by blast
  then show "\<exists>st'. put_transaction ref_store tx tick st = (Inr (), st')"
    using ref_put_index by (simp add: put_transaction_def)
next
  obtain t where "put_json ref_store (js_poh_entry ref_store) (cs_poh_log st) (to_be_bytes (pe_tick e)) e = Inr t"
    using ref_json(2) by blast
  then show "\<exists>st'. put_poh_entry ref_store e st = (Inr (), st')" by (simp add: put_poh_entry_def)
next
  obtain t where "put_json ref_store (js_commit ref_store) (cs_iterations st) (to_be_bytes (ic_iteration_id c)) c = Inr t"
    using ref_json(3) by blast
  then show "\<exists>st'. put_iteration ref_store c st = (Inr (), st')" by (simp add: put_iteration_def)
next
  obtain t where "put_json ref_store (js_state ref_store) (cs_system st) ''state'' s = Inr t"
    using ref_json(4) by blast
  then show "\<exists>st'. store_state ref_store s st = (Inr (), st')" by (simp add: store_state_def)
qed

lemma ref_append:
  assumes "tx_id tx = ''00''" "n_operator_secret n = Some ''00''"
  shows "\<exists>n'. append_tx_locked ref_store const_crypto now tx n = (Inr (), n')"
proof -
  have "\<exists>e. build_entry const_crypto now tick h [''00''] vid (Some ''00'') = Inr e" for tick h vid
    by (simp add: build_entry_def Let_def sign_with_secret_hex_def fixed_32_def)
  then obtain e where "build_entry const_crypto now (sat_add (ss_current_tick (n_system n)) 1) (ss_last_poh_hash (n_system n))
      [''00''] (n_validator_id n) (Some ''00'') = Inr e" by blast
  moreover obtain st1 where "put_transaction ref_store tx (sat_add (ss_current_tick (n_system n)) 1) (n_storage n) = (Inr (), st1)"
    using ref_stores(1) by blast
  moreover obtain st2 where "put_poh_entry ref_store e st1 = (Inr (), st2)" using ref_stores(2) by blast
  ultimately show ?thesis
    using assms by (simp add: append_tx_locked_def bindE_def set_system_def store_def map_err_def)
qed

lemma ref_commit:
  assumes "ic_tx_id (ir_commit r) = ''00''" "n_operator_secret n = Some ''00''"
  shows "\<exists>n'. commit_iteration ref_store const_crypto now ps r n = (Inr (), n')"
proof -
  obtain st where st: "put_wallets ref_store (ir_wallets r) (n_storage n) = (Inr (), st)" using ref_put_wallets by blast
  let ?n = "n\<lparr>n_storage := st, n_system := commit_system r (n_system n)\<rparr>"
  obtain n1 where n1: "append_tx_locked ref_store const_crypto now (IterationCommit (ir_commit r)) ?n = (Inr (), n1)"
    using ref_append [of "IterationCommit (ir_commit r)" ?n now] assms by auto
  obtain st2 where st2: "put_iteration ref_store (ir_commit r) (n_storage n1) = (Inr (), st2)" using ref_stores(3) by blast
  obtain st3 where st3: "store_state ref_store (n_system n1) st2 = (Inr (), st3)" using ref_stores(4) by blast
  have flush: "storage_flush ref_store x = (Inr (), x)" "\<exists>y. write_snapshot ref_store i sn x = (Inr y, x)" for x i sn
    by (simp_all add: storage_flush_def write_snapshot_def ref_store_def Let_def)
  obtain y where y: "write_snapshot ref_store (ic_iteration_id (ir_commit r)) (iteration_snapshot now ps r (n_system n1)) st3 = (Inr y, st3)"
    using flush(2) by blast
  show ?thesis
    using st n1 st2 st3 y flush(1)
    by (simp add: commit_iteration_def bindE_def store_def store_system_def set_system_def map_err_def)
qed

lemma iteration_counts_iff_new_ids_witness:
  "\<exists>c n'. iteration_locked ref_store const_crypto plain_floats 0 grow_parameters demo_pair = (Inr (Some c), n') \<and>
     ic_new_wallets c = [''00'', ''00''] \<and>
     unat (ss_n_wallets (n_system n')) \<noteq> card (dom (ledger ref_view n'))"
proof -
  obtain st where st: "store_state ref_store (lock_system demo_pair) (n_storage demo_pair) = (Inr (), st)"
    "cs_wallets st = cs_wallets (n_storage demo_pair)"
    by (simp add: store_state_def put_json_def ref_store_def)
  obtain ws where ws: "list_wallets ref_store st = Inr ws" "length ws = 2"
    by (simp add: list_wallets_def scan_values_def ref_store_def st(2) demo_pair_def normal_tree_def sorted_keys_def)
  obtain r where r: "execute_iteration plain_floats const_crypto ws grow_parameters (lock_system demo_pair) (n_operator_id demo_pair)
      = Some (Inr r)" "ic_new_wallets (ir_commit r) = [''00'', ''00'']" "ic_tx_id (ir_commit r) = ''00''"
    using grow_run [OF ws(2)] by blast
  have "n_operator_secret (demo_pair\<lparr>n_system := lock_system demo_pair, n_storage := st\<rparr>) = Some ''00''"
    by (simp add: demo_pair_def fresh_demo_def)
  then obtain n' where n': "commit_iteration ref_store const_crypto 0 grow_parameters r
      (demo_pair\<lparr>n_system := lock_system demo_pair, n_storage := st\<rparr>) = (Inr (), n')"
    using ref_commit [OF r(3)] by blast
  have run: "iteration_locked ref_store const_crypto plain_floats 0 grow_parameters demo_pair = (Inr (Some (ir_commit r)), n')"
    using demo_pair_unlocked st(1) ws(1) r(1) n'
    by (simp add: iteration_locked_def bindE_def check_unlocked_def requireE_def set_system_def store_system_def store_def
        fetch_def lock_system_def)
  have b: "books (ledger ref_view demo_pair) (n_system demo_pair)" using demo_pair_inv by (simp add: node_inv_def)
  have "card (dom (ledger ref_view demo_pair)) + length (ic_new_wallets (ir_commit r)) < 2 ^ 64"
    by (simp add: demo_pair_ledger r(2))
  then show ?thesis
    using run r(2) iteration_counts_iff_new_ids [OF ref_store_laws b run] by (intro exI [of _ "ir_commit r"] exI [of _ n']) simp
qed

section \<open>The simulator\<close>

text \<open>A generator that draws a half and zero in turn, so that the sampler always returns.\<close>

definition demo_rng :: "bool rng_lib" where
  "demo_rng = \<lparr>rg_seed = (\<lambda>_. False), rg_f64 = (\<lambda>g. (if g then f64_zero else f64_lit 5 10, \<not> g)), rg_range = (\<lambda>n g. (0, g))\<rparr>"

definition nan_floats :: float_lib where
  "nan_floats = plain_floats\<lparr>fl_exp := (\<lambda>x. if x = FNaN then FNaN else f64_zero)\<rparr>"

lemma demo_rng_laws: "rng_laws demo_rng"
  by (simp add: rng_laws_def demo_rng_def)

lemma poisson_nan_rate_diverges_witness: "sample_poisson nan_floats demo_rng FNaN False = None"
  by (rule poisson_nan_rate_diverges) (simp add: nan_floats_def)

definition demo_sim :: "bool sim_state" where
  "demo_sim = \<lparr>si_wallets = [sim_wallet const_crypto 0 1000000, sim_wallet const_crypto 1 2000000], si_next = 2,
     si_rng = False, si_txs = 0\<rparr>"

lemma demo_total: "total_balance (si_wallets demo_sim) < 2 ^ 64"
  by (simp add: demo_sim_def sim_wallet_def Let_def)

lemma demo_poisson: "\<exists>k g'. sample_poisson nan_floats demo_rng (f64_of_nat 5) g = Some (k, g')"
proof -
  have draws: "f64_mul x f64_zero = f64_zero" if "x = f64_one \<or> x = f64_mul f64_one (f64_lit 5 10)" for x
    using that by (auto simp: f64_one_def f64_eval)
  have "f64_le f64_zero (fl_exp nan_floats (f64_neg (f64_of_nat 5)))"
    by (simp add: nan_floats_def f64_eval)
  then have "\<exists>k g'. poisson_loop demo_rng (fl_exp nan_floats (f64_neg (f64_of_nat 5))) 0 f64_one g = Some (k, g')"
    by (subst poisson_loop.simps, subst poisson_loop.simps) (auto simp: demo_rng_def draws)
  then show ?thesis by (simp add: sample_poisson_def)
qed

lemma demo_activity:
  "\<exists>s'. activity_loop nan_floats demo_rng default_sim_config it n is s = Some s'"
proof (induction "is" arbitrary: s)
  case (Cons i "is")
  obtain k g' where "sample_poisson nan_floats demo_rng (f64_of_nat 5) (si_rng s) = Some (k, g')"
    using demo_poisson by blast
  then show ?case using Cons by (simp add: default_sim_config_def)
qed simp

lemma activity_conserves_supply_witness:
  "\<exists>s'. synthetic_activity nan_floats demo_rng default_sim_config 0 demo_sim = Some s' \<and>
     map w_id (si_wallets s') = map w_id (si_wallets demo_sim) \<and>
     total_balance (si_wallets s') = total_balance (si_wallets demo_sim)"
proof -
  obtain s' where s': "synthetic_activity nan_floats demo_rng default_sim_config 0 demo_sim = Some s'"
    using demo_activity [of 0 2 "[0..<2]" demo_sim]
    by (auto simp: synthetic_activity_def demo_sim_def numeral_2_eq_2)
  show ?thesis using s' activity_conserves_supply [OF demo_rng_laws demo_total s'] by blast
qed

lemma scripted_moves_conserve_supply_witness:
  "map w_id (si_wallets (apply_event nan_floats const_crypto demo_rng 1 5 f64_one (WealthShock 1 (f64_lit 5 10)) demo_sim))
     = map w_id (si_wallets demo_sim) \<and>
   total_balance (si_wallets (apply_event nan_floats const_crypto demo_rng 1 5 f64_one (WealthShock 1 (f64_lit 5 10)) demo_sim))
     = total_balance (si_wallets demo_sim)"
  by (rule scripted_moves_conserve_supply [OF demo_rng_laws demo_total, of _ 1 0 None "f64_lit 5 10"]) simp

lemma length_reid_loop: "reid_loop C it ws k = (ws', k') \<Longrightarrow> length ws' = length ws"
  by (induction ws arbitrary: k ws' k') (auto simp: Let_def split: if_splits prod.splits)

lemma metrics_in_range_witness:
  "\<exists>row state' s'. sim_iteration plain_floats const_crypto demo_rng plain_parameters default_sim_config default_system_state
       (demo_sim\<lparr>si_wallets := [plain_wallet]\<rparr>) = Some (Inr (row, state', s')) \<and> in_unit (sm_gini row)"
proof -
  let ?s = "demo_sim\<lparr>si_wallets := [plain_wallet]\<rparr>"
  obtain r where r: "execute_iteration plain_floats const_crypto [plain_wallet] plain_parameters default_system_state
      ''sim-operator'' = Some (Inr r)"
    using plain_run by blast
  have "length (rd_wallets (redistribute plain_floats plain_parameters f64_zero [plain_wallet])) = 1"
    using arg_cong [OF identity_redistribute, of length plain_floats plain_parameters f64_zero "[plain_wallet]"] by simp
  then have one: "length (ir_wallets r) = 1"
    using r by (auto simp: execute_iteration_def faucet_wallets_def iteration_commit_hash_def Let_def)
  obtain ws k where ws: "reid_loop const_crypto (ic_iteration_id (ir_commit r)) (ir_wallets r) 2 = (ws, k)" by fastforce
  then obtain row state' s' where it: "sim_iteration plain_floats const_crypto demo_rng plain_parameters default_sim_config
      default_system_state ?s = Some (Inr (row, state', s'))" "si_wallets s' = ws"
    using r by (simp add: sim_iteration_def apply_scripted_events_def default_sim_config_def synthetic_activity_def
        demo_sim_def Let_def)
  have "length (si_wallets s') < 2 ^ 32" using length_reid_loop [OF ws] one it(2) by simp
  then show ?thesis using it(1) metrics_in_range [OF it(1)] by blast
qed

lemma sim_ids_unique_witness:
  "\<exists>s. sim_reachable nan_floats ref_crypto demo_rng default_parameters default_sim_config default_system_state s \<and>
     length (si_wallets s) = 100 \<and>
     (distinct (map w_id (si_wallets s)) \<or> collision_among ref_crypto (map (\<lambda>i. sim_name (of_nat i)) [0..<100]))"
proof -
  obtain ws g where ws: "initial_wallets nan_floats ref_crypto demo_rng (sc_initial_wealth_sigma default_sim_config)
      (micro_seed default_parameters) 0 (unat (sc_initial_wallets default_sim_config))
      (rg_seed demo_rng (sc_rng_seed default_sim_config)) = (ws, g)"
    by fastforce
  let ?s = "\<lparr>si_wallets = ws, si_next = sc_initial_wallets default_sim_config, si_rng = g, si_txs = 0\<rparr>"
  have len: "length ws = 100" using initial_wallets_tags [OF ws] by (simp add: default_sim_config_def)
  have start: "sim_reachable nan_floats ref_crypto demo_rng default_parameters default_sim_config default_system_state ?s"
    by (rule sim_reachable.start [OF ws])
  have "distinct (map w_id ws) \<or> collision_among ref_crypto (map (\<lambda>i. sim_name (of_nat i)) [0..<length ws])"
    using sim_ids_unique [OF ref_hex_laws start, unfolded sim_state.select_convs] len by auto
  then show ?thesis using start len by (intro exI [of _ ?s]) (simp only: sim_state.select_convs simp_thms)
qed

lemma commit_explains_balances_witness:
  "\<exists>r. execute_iteration plain_floats const_crypto [plain_wallet] plain_parameters default_system_state ''o''
      = Some (Inr r) \<and> map fst (ic_penalties (ir_commit r)) = [''w'']"
proof -
  obtain r where r: "execute_iteration plain_floats const_crypto [plain_wallet] plain_parameters
      default_system_state ''o'' = Some (Inr r)"
    using plain_run by blast
  show ?thesis using r commit_explains_balances [OF r] by (simp add: plain_wallet_def)
qed

end
