(* ===== verification/Spec2Isabelle.thy ===== *)
theory Spec2Isabelle
  imports Prelude Float64 Float64_Error Types Crypto Crypto_Props Poh Storage Economy Economy_Props
    Storage_Props Rate_Limits Node Ledger Ledger_Props Ledger_Spec Books Iteration Boot Chain Guards
    Reference Auth Restart Faults Rewards Gini Witnesses Node_Witnesses History Accounting Rest Rest_Props
    Simulator Simulator_Props Simulator_Ids Cli Gateway Rest_Witnesses
begin

text \<open>
  Aggora Coin, the Rust workspace under \<open>src/crates/\<close>: a ledger node for a demurrage currency.  A
  node keeps wallets in a sled database, executes signed requests (wallet creation, charge,
  transfer, burn) one at a time under a lock, appends every transaction to a hash-chained
  proof-of-history log, and from time to time runs an economic iteration that takes a progressive
  penalty from every wallet, burns a part of it, redistributes the rest by activity and mints
  wallets for a faucet.

  Parts and theories, in the order of the code:

  \<^item> \<open>Prelude\<close>: machine integers with their saturating operations, decimal formatting, and the
    state-and-error computations (\<open>bindE\<close> is Rust's \<open>?\<close>).  \<open>Float64\<close> and \<open>Float64_Error\<close>: binary64
    arithmetic by exact rounding, and its error bounds.
  \<^item> \<open>Types\<close>: \<open>aggora-types/src/lib.rs\<close>.  \<open>Crypto\<close>, \<open>Crypto_Props\<close>: \<open>aggora-crypto/src/lib.rs\<close>,
    keys, digests and Merkle roots.  \<open>Poh\<close>: \<open>aggora-poh/src/lib.rs\<close>, the log entries.
  \<^item> \<open>Storage\<close>, \<open>Storage_Props\<close>: \<open>aggora-storage/src/lib.rs\<close>, the typed trees; the locale
    \<open>keyed_store\<close> is the contract of a tree of records and is interpreted on wallets, operators and
    iterations.
  \<^item> \<open>Economy\<close>, \<open>Economy_Props\<close>, \<open>Rewards\<close>, \<open>Gini\<close>: \<open>aggora-economy/src/lib.rs\<close>, one iteration.
  \<^item> \<open>Rate_Limits\<close>, \<open>Node\<close>, \<open>Ledger\<close>: \<open>aggora-state/src/lib.rs\<close>, the guards, the node with its start
    and authentication, and the ledger operations.  \<open>Ledger_Spec\<close> states the abstract ledger,
    field by field and without the code's own updates, and the refinements; \<open>Books\<close>, \<open>Iteration\<close>,
    \<open>Boot\<close> and \<open>Chain\<close> the steps of a node and their invariants over all interleavings; \<open>Guards\<close> the
    rate limits and the replay guard over sequences of requests, with the locale \<open>keyed_window\<close>
    interpreted on both limiters; \<open>Auth\<close> what authorises a change; \<open>Accounting\<close> what an iteration
    does to each wallet; \<open>Restart\<close> that a node resumes where it stopped; \<open>Faults\<close> the two situations in
    which the counters go wrong; \<open>History\<close> that transactions can be looked up.
  \<^item> \<open>Rest\<close>, \<open>Rest_Props\<close>: \<open>aggora-rest/src/lib.rs\<close>, every route and handler, the answers with their
    status codes, and the messages of the event socket.
  \<^item> \<open>Simulator\<close>, \<open>Simulator_Props\<close>, \<open>Simulator_Ids\<close>: \<open>aggora-economy/src/simulator.rs\<close>, the
    offline simulator over the iteration of \<open>Economy\<close>.
  \<^item> \<open>Cli\<close>: \<open>aggora-cli/src/main.rs\<close>, the commands.  \<open>Gateway\<close>: a request signed on the command line
    is accepted over HTTP, and HTTP requests are node steps.
  \<^item> \<open>Reference\<close>: concrete libraries.  \<open>Witnesses\<close>, \<open>Node_Witnesses\<close>, \<open>Rest_Witnesses\<close>: concrete
    inputs at which the hypotheses of the properties hold.

  State.  The record \<open>node\<close> is the struct \<open>Inner\<close> without its locks.  A method that takes the write
  lock of \<open>system\<close> is split at that point into a preparation and a locked part; \<open>node_step\<close> in
  \<open>Chain\<close> interleaves preparations and locked parts of any number of requests, with refused jobs, seed
  files refused half-way, panics of an iteration, new parameters and restarts.  Its runs are those
  without an internal error (storage or serialisation), in which no counter reaches the end of its
  range, no iteration creates a faucet wallet under an id that is taken, and the node is restarted
  only when its system state is stored.  The last two conditions matter: \<open>Faults\<close> proves what
  happens without them, and \<open>Restart\<close> names the configurations (\<open>settled\<close>) whose state is stored.

  Hypotheses.  sled, serde_json and the file system are the parameter \<open>store_lib\<close>, BLAKE3, Ed25519,
  hex and base64 the parameter \<open>crypto_lib\<close>, \<open>ln\<close>, \<open>exp\<close>, \<open>powf\<close> and \<open>cos\<close> the parameter \<open>float_lib\<close>,
  axum and its extractors the parameter \<open>rest_lib\<close>, the ChaCha20 stream the parameter \<open>rng_lib\<close>, files
  and the TOML parser of the command line the parameter \<open>cli_lib\<close>;
  \<open>store_laws\<close> (a tree is a map that reads back what was written, listed in key order) \<open>hex_laws\<close>
  (hex round trip, lengths), \<open>ed25519_laws\<close> (a signature verifies under the key's public half) and
  \<open>rng_laws\<close> (a drawn index is in range) are their documented behaviour.  Nothing is assumed of the digest beyond
  its length: binding theorems name the collision instead.  Integer overflow wraps, as in a release
  build; a panic is \<open>None\<close>.  There is no fuel: every loop is a structural or measured recursion, except
  the rejection loop of the Poisson sampler, a \<open>partial_function\<close> whose value \<open>None\<close> is a run that
  never returns.

  Not modelled: the JSON texts themselves (only equality of what is hashed), the asynchronous runtime
  and its listener, \<open>HEAD\<close> requests and CORS headers, limits of memory, clap's parsing of arguments,
  and the scripts, tests and deployment files of the repository.
\<close>

end
